theory Spec2Isabelle
  imports Main "HOL-Library.Word" "HOL-Library.List_Lexorder" "HOL-Library.Char_ord"
begin

section \<open>FileBackupTool: a shallow embedding of the backup engine\<close>

text \<open>
  The repository holds three programs: \<^verbatim>\<open>phase1.cpp\<close> (plain tree copy),
  \<^verbatim>\<open>phase2.cpp\<close> (incremental backup driven by a manifest) and \<^verbatim>\<open>phase3.cpp\<close>
  (content-addressed store with reference counts and an index). This theory embeds the
  manifest and the change detection of phase 2 and the store, the index and the walk of
  phase 3. The functions below follow the C++ member functions one by one; a member
  function becomes a function that takes the object (and the file system, where it touches
  it) and returns the updated ones. Console output is left out.

  Machine integers: \<^verbatim>\<open>int\<close> is \<open>32 word\<close>, \<^verbatim>\<open>long long\<close> and \<^verbatim>\<open>time_t\<close> are \<open>64 word\<close>,
  read as signed by \<open>sint\<close>. An increment of a signed counter is word addition, which
  wraps at the top of the range as the two's-complement targets of this Win32 code do.
\<close>

subsection \<open>Characters used by the path and file formats\<close>

abbreviation BSLASH :: char where "BSLASH \<equiv> CHR 0x5C"
abbreviation SLASH :: char where "SLASH \<equiv> CHR 0x2F"
abbreviation PIPE :: char where "PIPE \<equiv> CHR 0x7C"
abbreviation NEWLINE :: char where "NEWLINE \<equiv> CHR 0x0A"

subsection \<open>\<^verbatim>\<open>std::map\<close>: entries kept in key order\<close>

text \<open>
  A \<^verbatim>\<open>std::map<K, V>\<close> is the list of its entries in ascending key order, which is the order
  a range-for loop visits. \<open>map_assign k v m\<close> is \<^verbatim>\<open>m[k] = v\<close>; \<open>map_subscript d k m\<close> is
  the map after evaluating \<^verbatim>\<open>m[k]\<close>, which inserts the value-initialised \<open>d\<close> when \<open>k\<close>
  is absent; \<open>map_value d k m\<close> is the value \<^verbatim>\<open>m[k]\<close> then denotes. \<^verbatim>\<open>m.find(k)\<close> is
  \<open>map_of m k\<close>.
\<close>

type_synonym ('k, 'v) std_map = "('k \<times> 'v) list"

fun map_assign :: "'k::linorder \<Rightarrow> 'v \<Rightarrow> ('k, 'v) std_map \<Rightarrow> ('k, 'v) std_map" where
  "map_assign k v [] = [(k, v)]"
| "map_assign k v ((k', v') # m) =
     (if k = k' then (k, v) # m
      else if k < k' then (k, v) # (k', v') # m
      else (k', v') # map_assign k v m)"

definition map_subscript :: "'v \<Rightarrow> 'k::linorder \<Rightarrow> ('k, 'v) std_map \<Rightarrow> ('k, 'v) std_map" where
  "map_subscript d k m = (case map_of m k of None \<Rightarrow> map_assign k d m | Some v \<Rightarrow> m)"

definition map_value :: "'v \<Rightarrow> 'k \<Rightarrow> ('k, 'v) std_map \<Rightarrow> 'v" where
  "map_value d k m = (case map_of m k of None \<Rightarrow> d | Some v \<Rightarrow> v)"

text \<open>The class invariant of \<^verbatim>\<open>std::map\<close>: keys strictly ascending (hence distinct).\<close>

definition map_ordered :: "('k::linorder, 'v) std_map \<Rightarrow> bool" where
  "map_ordered m = sorted_wrt (<) (map fst m)"

subsection \<open>The Win32 file system, as far as the programs use it\<close>

text \<open>
  The destination side is a table of nodes indexed by path. Win32 takes either separator,
  reads a run of separators as one and ignores a trailing one, so a path stands for the list
  of its non-empty components, and the table is indexed by the canonical spelling of that
  list: the components joined by single backslashes. Case folding and the components
  \<^verbatim>\<open>.\<close> and \<^verbatim>\<open>..\<close> inside a path are not part of this model. \<open>denied\<close> marks the
  paths at which creating or writing fails for a reason the node table does not show
  (access denied, disk full).
\<close>

datatype fs_node = Directory | RegularFile string

record filesystem =
  nodes :: "string \<Rightarrow> fs_node option"
  denied :: "string \<Rightarrow> bool"

datatype win_error = ERROR_ALREADY_EXISTS | ERROR_PATH_NOT_FOUND | ERROR_ACCESS_DENIED

definition is_sep :: "char \<Rightarrow> bool" where
  "is_sep c = (c = BSLASH \<or> c = SLASH)"

text \<open>\<open>split_path cur p\<close>: the components of \<open>p\<close>, \<open>cur\<close> being the component read so far.\<close>

fun split_path :: "string \<Rightarrow> string \<Rightarrow> string list" where
  "split_path cur [] = (if cur = [] then [] else [cur])"
| "split_path cur (c # cs) =
     (if is_sep c then (if cur = [] then [] else [cur]) @ split_path [] cs
      else split_path (cur @ [c]) cs)"

definition components :: "string \<Rightarrow> string list" where
  "components p = split_path [] p"

fun join_path :: "string list \<Rightarrow> string" where
  "join_path [] = []"
| "join_path [c] = c"
| "join_path (c # cs) = c @ [BSLASH] @ join_path cs"

definition canon :: "string \<Rightarrow> string" where
  "canon p = join_path (components p)"

text \<open>The directory a path lies in: all components but the last.\<close>

definition dirname :: "string \<Rightarrow> string" where
  "dirname p = join_path (butlast (components p))"

text \<open>
  \<^verbatim>\<open>GetFileAttributesA\<close>: \<open>None\<close> is \<^verbatim>\<open>INVALID_FILE_ATTRIBUTES\<close>, \<open>Some d\<close> a valid result
  whose \<^verbatim>\<open>FILE_ATTRIBUTE_DIRECTORY\<close> bit is \<open>d\<close>.
\<close>

definition GetFileAttributesA :: "filesystem \<Rightarrow> string \<Rightarrow> bool option" where
  "GetFileAttributesA fs p =
     (case nodes fs (canon p) of
        None \<Rightarrow> None
      | Some Directory \<Rightarrow> Some True
      | Some (RegularFile _) \<Rightarrow> Some False)"

text \<open>\<^verbatim>\<open>CreateDirectoryA\<close>: creates one level; \<open>Inl\<close> carries \<^verbatim>\<open>GetLastError()\<close>.\<close>

definition CreateDirectoryA :: "filesystem \<Rightarrow> string \<Rightarrow> win_error + filesystem" where
  "CreateDirectoryA fs p =
     (if nodes fs (canon p) \<noteq> None then Inl ERROR_ALREADY_EXISTS
      else if nodes fs (dirname p) \<noteq> Some Directory then Inl ERROR_PATH_NOT_FOUND
      else if denied fs (canon p) then Inl ERROR_ACCESS_DENIED
      else Inr (fs\<lparr>nodes := (nodes fs)(canon p \<mapsto> Directory)\<rparr>))"

text \<open>Creating or truncating a file and writing \<open>bytes\<close> to it (\<^verbatim>\<open>ofstream\<close>, the target of \<^verbatim>\<open>CopyFileA\<close>).\<close>

definition write_file :: "filesystem \<Rightarrow> string \<Rightarrow> string \<Rightarrow> filesystem option" where
  "write_file fs p bytes =
     (if denied fs (canon p) \<or> nodes fs (dirname p) \<noteq> Some Directory
         \<or> nodes fs (canon p) = Some Directory
      then None
      else Some (fs\<lparr>nodes := (nodes fs)(canon p \<mapsto> RegularFile bytes)\<rparr>))"

text \<open>Opening a file for reading (\<^verbatim>\<open>ifstream\<close>): its bytes, or \<open>None\<close> when it cannot be opened.\<close>

definition read_file :: "filesystem \<Rightarrow> string \<Rightarrow> string option" where
  "read_file fs p =
     (case nodes fs (canon p) of Some (RegularFile bytes) \<Rightarrow> Some bytes | _ \<Rightarrow> None)"

subsection \<open>The source tree as the directory enumeration shows it\<close>

text \<open>
  The walk reads the source through \<^verbatim>\<open>FindFirstFileA\<close>/\<^verbatim>\<open>FindNextFileA\<close>. A source entry is
  a name with either a file (its \<^verbatim>\<open>WIN32_FIND_DATAA\<close> size and time fields, its bytes, and
  what the Win32 calls made on it return) or a directory (the entries its own enumeration
  yields, \<open>None\<close> when \<^verbatim>\<open>FindFirstFileA\<close> returns \<^verbatim>\<open>INVALID_HANDLE_VALUE\<close>). The source tree is a
  snapshot: the walk does not see its own writes.
\<close>

record WIN32_FIND_DATAA =
  nFileSizeLow :: "32 word"
  nFileSizeHigh :: "32 word"
  dwLowDateTime :: "32 word"
  dwHighDateTime :: "32 word"

text \<open>
  What the Win32 calls that touch one source file return. \<^verbatim>\<open>CalculateHash\<close> opens the file
  with \<^verbatim>\<open>CreateFileA\<close>, sets up the hash object with \<^verbatim>\<open>CryptAcquireContext\<close> and
  \<^verbatim>\<open>CryptCreateHash\<close>, then alternates \<^verbatim>\<open>ReadFile\<close> and \<^verbatim>\<open>CryptHashData\<close> and ends with
  \<^verbatim>\<open>CryptGetHashParam\<close>; \<open>ReadFile_ok n\<close> and \<open>CryptHashData_ok n\<close> say whether the call of
  the \<open>n\<close>-th round of that loop (counted from 0) returns true. \<open>CopyFileA_reads\<close> says
  whether \<^verbatim>\<open>CopyFileA\<close> can read the file to its end.
\<close>

record file_calls =
  CreateFileA_ok :: bool
  CryptAcquireContext_ok :: bool
  CryptCreateHash_ok :: bool
  ReadFile_ok :: "nat \<Rightarrow> bool"
  CryptHashData_ok :: "nat \<Rightarrow> bool"
  CryptGetHashParam_ok :: bool
  CopyFileA_reads :: bool

text \<open>A file on which every call succeeds, and one that cannot be opened at all.\<close>

definition all_succeed :: file_calls where
  "all_succeed =
     \<lparr>CreateFileA_ok = True, CryptAcquireContext_ok = True, CryptCreateHash_ok = True,
      ReadFile_ok = (\<lambda>n. True), CryptHashData_ok = (\<lambda>n. True), CryptGetHashParam_ok = True,
      CopyFileA_reads = True\<rparr>"

definition cannot_open :: file_calls where
  "cannot_open = all_succeed\<lparr>CreateFileA_ok := False, CopyFileA_reads := False\<rparr>"

datatype src_node =
    SrcFile WIN32_FIND_DATAA string file_calls
  | SrcDir "(string \<times> src_node) list option"

text \<open>
  \<^verbatim>\<open>FindFirstFileA(dir + "*")\<close> fails when the directory cannot be listed and also when the
  pattern matches nothing (a directory with no entries at all, not even \<^verbatim>\<open>.\<close> and \<^verbatim>\<open>..\<close>).
\<close>

definition FindFirstFileA :: "(string \<times> src_node) list option \<Rightarrow> (string \<times> src_node) list option" where
  "FindFirstFileA listing = (case listing of None \<Rightarrow> None | Some [] \<Rightarrow> None | Some es \<Rightarrow> Some es)"

text \<open>\<^verbatim>\<open>CopyFileA(src, dst, FALSE)\<close>: fails when the source cannot be read or the target cannot be written.\<close>

definition CopyFileA :: "filesystem \<Rightarrow> file_calls \<Rightarrow> string \<Rightarrow> string \<Rightarrow> filesystem option" where
  "CopyFileA fs calls bytes dst = (if CopyFileA_reads calls then write_file fs dst bytes else None)"

definition GetFileSize :: "WIN32_FIND_DATAA \<Rightarrow> 64 word" where
  "GetFileSize findData =
     push_bit 32 (ucast (nFileSizeHigh findData)) + ucast (nFileSizeLow findData)"

definition GetFileTime :: "WIN32_FIND_DATAA \<Rightarrow> 64 word" where
  "GetFileTime findData =
     (push_bit 32 (ucast (dwHighDateTime findData)) + ucast (dwLowDateTime findData)) div 10000000
       - 11644473600"

subsection \<open>\<^verbatim>\<open>FileHasher\<close>\<close>

text \<open>
  \<^verbatim>\<open>FileHasher::CalculateHash\<close> streams the file through the Win32 SHA-256 provider in
  chunks of 8192 bytes and renders the 32 digest bytes as two lowercase hexadecimal digits
  each. The digest function is a parameter \<open>sha256\<close>. A failure of \<^verbatim>\<open>CreateFileA\<close> or of a
  provider call returns the empty string. A failure of \<^verbatim>\<open>ReadFile\<close> does not: it only ends
  the loop \<^verbatim>\<open>while (ReadFile(...) && bytesRead > 0)\<close>, as the end of the file does, and the
  digest of the bytes hashed so far is rendered.
\<close>

definition hex_digit :: "nat \<Rightarrow> char" where
  "hex_digit n = ''0123456789abcdef'' ! (n mod 16)"

definition hex_byte :: "8 word \<Rightarrow> string" where
  "hex_byte b = [hex_digit (unat b div 16), hex_digit (unat b mod 16)]"

definition hashResult :: "256 word \<Rightarrow> nat \<Rightarrow> 8 word" where
  "hashResult digest i = ucast (drop_bit (8 * (31 - i)) digest)"

text \<open>
  The read loop: \<open>n\<close> rounds done, \<open>hashed\<close> the bytes given to the hash object so far,
  \<open>rest\<close> the bytes of the file not yet read. \<open>None\<close> is the \<^verbatim>\<open>return ""\<close> inside the loop.
\<close>

fun hash_loop :: "file_calls \<Rightarrow> nat \<Rightarrow> string \<Rightarrow> string \<Rightarrow> string option" where
  "hash_loop calls n hashed rest =
     (if ReadFile_ok calls n \<and> rest \<noteq> []
      then if CryptHashData_ok calls n
           then hash_loop calls (Suc n) (hashed @ take 8192 rest) (drop 8192 rest)
           else None
      else Some hashed)"

declare hash_loop.simps [simp del]

definition CalculateHash :: "(string \<Rightarrow> 256 word) \<Rightarrow> file_calls \<Rightarrow> string \<Rightarrow> string" where
  "CalculateHash sha256 calls bytes =
     (if \<not> CreateFileA_ok calls then []
      else if \<not> CryptAcquireContext_ok calls then []
      else if \<not> CryptCreateHash_ok calls then []
      else (case hash_loop calls 0 [] bytes of
              None \<Rightarrow> []
            | Some hashed \<Rightarrow>
                if \<not> CryptGetHashParam_ok calls then []
                else concat (map (\<lambda>i. hex_byte (hashResult (sha256 hashed) i)) [0..<32])))"

subsection \<open>Shared structures and path helpers\<close>

record BackupStats =
  filesProcessed :: "32 word"
  filesSkipped :: "32 word"
  filesCopied :: "32 word"
  filesNew :: "32 word"
  filesModified :: "32 word"
  filesDeduped :: "32 word"
  directoriesCreated :: "32 word"
  errors :: "32 word"
  totalBytes :: "64 word"
  bytesCopied :: "64 word"
  bytesDeduplicated :: "64 word"

definition BackupStats_init :: BackupStats where
  "BackupStats_init =
     \<lparr>filesProcessed = 0, filesSkipped = 0, filesCopied = 0, filesNew = 0, filesModified = 0,
      filesDeduped = 0, directoriesCreated = 0, errors = 0, totalBytes = 0, bytesCopied = 0,
      bytesDeduplicated = 0\<rparr>"

record FileMetadata =
  hash :: string
  fsize :: "64 word"
  lastModified :: "64 word"

text \<open>The members every backup class has; the classes of phase 2 and phase 3 extend them.\<close>

record Backup =
  sourcePath :: string
  destPath :: string
  stats :: BackupStats

definition NormalizePath :: "string \<Rightarrow> string" where
  "NormalizePath path = (if path \<noteq> [] \<and> last path \<noteq> BSLASH then path @ [BSLASH] else path)"

text \<open>\<^verbatim>\<open>fullPath.find(basePath) == 0\<close> holds exactly when \<open>basePath\<close> is a prefix of \<open>fullPath\<close>.\<close>

definition GetRelativePath :: "string \<Rightarrow> string \<Rightarrow> string" where
  "GetRelativePath fullPath basePath =
     (if take (length basePath) fullPath = basePath then drop (length basePath) fullPath
      else fullPath)"

text \<open>
  \<^verbatim>\<open>path.find_last_of("\\/", path.length() - 2)\<close>: the last separator at or before the start
  index; \<^verbatim>\<open>length() - 2\<close> is computed in \<^verbatim>\<open>size_t\<close>, so for a path shorter than two
  characters it wraps and the whole string is searched.
\<close>

definition find_last_of_sep :: "string \<Rightarrow> nat option" where
  "find_last_of_sep path =
     (let start = (if length path < 2 then length path else length path - 2);
          hits = filter (\<lambda>i. is_sep (path ! i)) [0..<min (Suc start) (length path)]
      in if hits = [] then None else Some (last hits))"

text \<open>
  \<^verbatim>\<open>CreateDestDirectory\<close> calls itself on the parent and then again on the same path. Nothing
  in the function bounds that second call: where \<^verbatim>\<open>CreateDirectoryA\<close> reports
  \<^verbatim>\<open>ERROR_PATH_NOT_FOUND\<close> again after the call on the parent has returned true, it recurses
  for ever. \<open>None\<close> is the call that does not return.
\<close>

partial_function (option) CreateDestDirectory ::
  "string \<Rightarrow> filesystem \<times> 'a Backup_scheme \<Rightarrow> (bool \<times> filesystem \<times> 'a Backup_scheme) option" where
  "CreateDestDirectory path st =
     (case st of (fs, b) \<Rightarrow>
       if GetFileAttributesA fs path = Some True then Some (True, fs, b)
       else (case CreateDirectoryA fs path of
          Inr fs' \<Rightarrow>
            Some (True, fs',
                  b\<lparr>stats := (stats b)\<lparr>directoriesCreated := directoriesCreated (stats b) + 1\<rparr>\<rparr>)
        | Inl ERROR_ALREADY_EXISTS \<Rightarrow> Some (True, fs, b)
        | Inl ERROR_PATH_NOT_FOUND \<Rightarrow>
            (case find_last_of_sep path of
               None \<Rightarrow> Some (False, fs, b)
             | Some pos \<Rightarrow>
                 Option.bind (CreateDestDirectory (take pos path) (fs, b))
                   (\<lambda>(ok, st'). if ok then CreateDestDirectory path st' else Some (False, st')))
        | Inl ERROR_ACCESS_DENIED \<Rightarrow> Some (False, fs, b)))"

subsection \<open>Text files read line by line\<close>

text \<open>
  \<^verbatim>\<open>while (getline(file, line))\<close>: a line ends at a newline, which is consumed; the final
  line needs no newline; at end of input with nothing read the loop stops. \<open>cur\<close> is the
  part of the current line read so far.
\<close>

fun getlines :: "string \<Rightarrow> string \<Rightarrow> string list" where
  "getlines cur [] = (if cur = [] then [] else [cur])"
| "getlines cur (c # cs) =
     (if c = NEWLINE then cur # getlines [] cs else getlines (cur @ [c]) cs)"

text \<open>\<^verbatim>\<open>line.find('|', start)\<close>: \<open>None\<close> is \<^verbatim>\<open>npos\<close>.\<close>

definition find_pipe :: "string \<Rightarrow> nat \<Rightarrow> nat option" where
  "find_pipe line start =
     (if PIPE \<in> set (drop start line)
      then Some (start + length (takeWhile (\<lambda>c. c \<noteq> PIPE) (drop start line)))
      else None)"

text \<open>\<^verbatim>\<open>pos + 1\<close> in \<^verbatim>\<open>size_t\<close>: \<^verbatim>\<open>npos + 1\<close> wraps to 0.\<close>

definition pos_plus_1 :: "nat option \<Rightarrow> nat" where
  "pos_plus_1 pos = (case pos of None \<Rightarrow> 0 | Some n \<Rightarrow> n + 1)"

subsection \<open>Phase 3: \<^verbatim>\<open>DeduplicationStore\<close>\<close>

record DeduplicationStore =
  storePath :: string
  referenceCount :: "(string, 32 word) std_map"

definition DeduplicationStore_new :: "string \<Rightarrow> DeduplicationStore" where
  "DeduplicationStore_new backupRoot =
     \<lparr>storePath = NormalizePath backupRoot @ ''.dedup_store'' @ [BSLASH], referenceCount = []\<rparr>"

text \<open>
  \<^verbatim>\<open>storePath.substr(0, storePath.length() - 14)\<close>: the count is computed in \<^verbatim>\<open>size_t\<close>, so
  a store path shorter than 14 characters is kept whole.
\<close>

definition Initialize :: "filesystem \<Rightarrow> DeduplicationStore \<Rightarrow> bool \<times> filesystem" where
  "Initialize fs s =
     (let parentPath =
            (if length (storePath s) < 14 then storePath s
             else take (length (storePath s) - 14) (storePath s));
          created =
            (if GetFileAttributesA fs parentPath = None
             then (case CreateDirectoryA fs parentPath of
                     Inr fs' \<Rightarrow> Some fs'
                   | Inl e \<Rightarrow> if e \<noteq> ERROR_ALREADY_EXISTS then None else Some fs)
             else Some fs)
      in case created of
           None \<Rightarrow> (False, fs)
         | Some fs1 \<Rightarrow>
             if GetFileAttributesA fs1 (storePath s) = Some True then (True, fs1)
             else (case CreateDirectoryA fs1 (storePath s) of
                     Inr fs2 \<Rightarrow> (True, fs2)
                   | Inl e \<Rightarrow> (e = ERROR_ALREADY_EXISTS, fs1)))"

definition GetContentPath :: "DeduplicationStore \<Rightarrow> string \<Rightarrow> string" where
  "GetContentPath s h = storePath s @ h @ ''.bin''"

definition ContentExists :: "filesystem \<Rightarrow> DeduplicationStore \<Rightarrow> string \<Rightarrow> bool" where
  "ContentExists fs s h = (GetFileAttributesA fs (GetContentPath s h) = Some False)"

text \<open>\<open>calls\<close> and \<open>bytes\<close> describe the source file that \<^verbatim>\<open>sourceFile\<close> names.\<close>

definition StoreContent ::
  "filesystem \<Rightarrow> DeduplicationStore \<Rightarrow> file_calls \<Rightarrow> string \<Rightarrow> string
     \<Rightarrow> bool \<times> filesystem \<times> DeduplicationStore" where
  "StoreContent fs s calls bytes h =
     (case CopyFileA fs calls bytes (GetContentPath s h) of
        Some fs' \<Rightarrow> (True, fs', s\<lparr>referenceCount := map_assign h 1 (referenceCount s)\<rparr>)
      | None \<Rightarrow> (False, fs, s))"

definition IncrementReference :: "DeduplicationStore \<Rightarrow> string \<Rightarrow> DeduplicationStore" where
  "IncrementReference s h =
     (let m = map_subscript 0 h (referenceCount s)
      in s\<lparr>referenceCount := map_assign h (map_value 0 h m + 1) m\<rparr>)"

definition GetReferenceCount :: "DeduplicationStore \<Rightarrow> string \<Rightarrow> 32 word" where
  "GetReferenceCount s h = (case map_of (referenceCount s) h of Some c \<Rightarrow> c | None \<Rightarrow> 0)"

definition LoadReferenceCountsFromIndex ::
  "DeduplicationStore \<Rightarrow> (string, string) std_map \<Rightarrow> DeduplicationStore" where
  "LoadReferenceCountsFromIndex s fileHashMap =
     fold (\<lambda>entry s'. IncrementReference s' (snd entry)) fileHashMap (s\<lparr>referenceCount := []\<rparr>)"

subsection \<open>Phase 3: \<^verbatim>\<open>DeduplicationIndex\<close>\<close>

record DeduplicationIndex =
  fileHashMap :: "(string, string) std_map"
  indexPath :: string

definition DeduplicationIndex_new :: "string \<Rightarrow> DeduplicationIndex" where
  "DeduplicationIndex_new backupRoot =
     \<lparr>fileHashMap = [], indexPath = NormalizePath backupRoot @ ''.dedup_index.txt''\<rparr>"

text \<open>The body of the \<^verbatim>\<open>getline\<close> loop of \<^verbatim>\<open>DeduplicationIndex::Load\<close>, for one line.\<close>

definition index_line :: "string \<Rightarrow> (string, string) std_map \<Rightarrow> (string, string) std_map" where
  "index_line line m =
     (if line = [] then m
      else (case find_pipe line 0 of
              None \<Rightarrow> m
            | Some pos \<Rightarrow> map_assign (take pos line) (drop (pos + 1) line) m))"

definition index_parse :: "string \<Rightarrow> (string, string) std_map" where
  "index_parse bytes = fold index_line (getlines [] bytes) []"

definition DeduplicationIndex_Load ::
  "filesystem \<Rightarrow> DeduplicationIndex \<Rightarrow> bool \<times> DeduplicationIndex" where
  "DeduplicationIndex_Load fs idx =
     (case read_file fs (indexPath idx) of
        None \<Rightarrow> (False, idx)
      | Some bytes \<Rightarrow> (True, idx\<lparr>fileHashMap := index_parse bytes\<rparr>))"

definition index_text :: "(string, string) std_map \<Rightarrow> string" where
  "index_text m = concat (map (\<lambda>entry. fst entry @ [PIPE] @ snd entry @ [NEWLINE]) m)"

definition DeduplicationIndex_Save :: "filesystem \<Rightarrow> DeduplicationIndex \<Rightarrow> bool \<times> filesystem" where
  "DeduplicationIndex_Save fs idx =
     (case write_file fs (indexPath idx) (index_text (fileHashMap idx)) of
        None \<Rightarrow> (False, fs)
      | Some fs' \<Rightarrow> (True, fs'))"

definition AddFile :: "DeduplicationIndex \<Rightarrow> string \<Rightarrow> string \<Rightarrow> DeduplicationIndex" where
  "AddFile idx filepath h = idx\<lparr>fileHashMap := map_assign filepath h (fileHashMap idx)\<rparr>"

definition GetHash :: "DeduplicationIndex \<Rightarrow> string \<Rightarrow> string" where
  "GetHash idx filepath = (case map_of (fileHashMap idx) filepath of Some h \<Rightarrow> h | None \<Rightarrow> [])"

definition DeduplicationIndex_HasFile :: "DeduplicationIndex \<Rightarrow> string \<Rightarrow> bool" where
  "DeduplicationIndex_HasFile idx filepath = (map_of (fileHashMap idx) filepath \<noteq> None)"

definition GetAllFiles :: "DeduplicationIndex \<Rightarrow> (string, string) std_map" where
  "GetAllFiles idx = fileHashMap idx"

definition DeduplicationIndex_GetFileCount :: "DeduplicationIndex \<Rightarrow> 32 word" where
  "DeduplicationIndex_GetFileCount idx = of_nat (length (fileHashMap idx))"

subsection \<open>Phase 3: \<^verbatim>\<open>DeduplicationBackup\<close>\<close>

record DeduplicationBackup = Backup +
  store :: DeduplicationStore
  index :: DeduplicationIndex

definition DeduplicationBackup_new :: "string \<Rightarrow> string \<Rightarrow> DeduplicationBackup" where
  "DeduplicationBackup_new src dst =
     \<lparr>sourcePath = NormalizePath src, destPath = NormalizePath dst, stats = BackupStats_init,
      store = DeduplicationStore_new dst, index = DeduplicationIndex_new dst\<rparr>"

text \<open>
  The file branch of the loop body of \<^verbatim>\<open>DeduplicationBackup::BackupDirectory\<close> (from
  \<^verbatim>\<open>GetFileSize\<close> to \<^verbatim>\<open>index.AddFile\<close>); the two \<^verbatim>\<open>continue\<close> statements are the
  branches that return without touching the index.
\<close>

definition Dedup_BackupDirectory_file ::
  "(string \<Rightarrow> 256 word) \<Rightarrow> WIN32_FIND_DATAA \<Rightarrow> string \<Rightarrow> file_calls \<Rightarrow> string
     \<Rightarrow> filesystem \<times> DeduplicationBackup \<Rightarrow> filesystem \<times> DeduplicationBackup" where
  "Dedup_BackupDirectory_file sha256 findData bytes calls relativePath st =
     (case st of (fs, b) \<Rightarrow>
        let fileSize = GetFileSize findData;
            b1 = b\<lparr>stats := (stats b)\<lparr>totalBytes := totalBytes (stats b) + fileSize\<rparr>\<rparr>;
            fileHash = CalculateHash sha256 calls bytes
        in if fileHash = []
           then (fs, b1\<lparr>stats := (stats b1)\<lparr>errors := errors (stats b1) + 1\<rparr>\<rparr>)
           else if ContentExists fs (store b1) fileHash
           then (fs, b1\<lparr>stats := (stats b1)
                         \<lparr>filesDeduped := filesDeduped (stats b1) + 1,
                          bytesDeduplicated := bytesDeduplicated (stats b1) + fileSize\<rparr>,
                       store := IncrementReference (store b1) fileHash,
                       index := AddFile (index b1) relativePath fileHash\<rparr>)
           else (case StoreContent fs (store b1) calls bytes fileHash of
                   (True, fs', s') \<Rightarrow>
                     (fs', b1\<lparr>stats := (stats b1)
                                \<lparr>filesCopied := filesCopied (stats b1) + 1,
                                 bytesCopied := bytesCopied (stats b1) + fileSize\<rparr>,
                              store := s',
                              index := AddFile (index b1) relativePath fileHash\<rparr>)
                 | (False, fs', s') \<Rightarrow>
                     (fs', b1\<lparr>stats := (stats b1)\<lparr>errors := errors (stats b1) + 1\<rparr>,
                              store := s'\<rparr>)))"

text \<open>
  \<^verbatim>\<open>DeduplicationBackup::BackupDirectory\<close> and its \<^verbatim>\<open>do ... while (FindNextFileA)\<close> loop over
  the entries. \<open>None\<close> is the run that does not return (see \<open>CreateDestDirectory\<close>). The value
  returned by the recursive call for a subdirectory is discarded, as in the source.
\<close>

function Dedup_BackupDirectory ::
    "(string \<Rightarrow> 256 word) \<Rightarrow> (string \<times> src_node) list option \<Rightarrow> string \<Rightarrow> string
       \<Rightarrow> filesystem \<times> DeduplicationBackup \<Rightarrow> (bool \<times> filesystem \<times> DeduplicationBackup) option"
  and Dedup_entries ::
    "(string \<Rightarrow> 256 word) \<Rightarrow> (string \<times> src_node) list \<Rightarrow> string \<Rightarrow> string
       \<Rightarrow> filesystem \<times> DeduplicationBackup \<Rightarrow> (filesystem \<times> DeduplicationBackup) option"
where
  "Dedup_BackupDirectory sha256 listing sourceDir destDir st =
     (case FindFirstFileA listing of
        None \<Rightarrow>
          Some (False, fst st,
                (snd st)\<lparr>stats := (stats (snd st))\<lparr>errors := errors (stats (snd st)) + 1\<rparr>\<rparr>)
      | Some entries \<Rightarrow>
          (case CreateDestDirectory destDir st of
             None \<Rightarrow> None
           | Some (ok, fs', b') \<Rightarrow>
               if \<not> ok
               then Some (False, fs', b'\<lparr>stats := (stats b')\<lparr>errors := errors (stats b') + 1\<rparr>\<rparr>)
               else (case Dedup_entries sha256 entries sourceDir destDir (fs', b') of
                       None \<Rightarrow> None
                     | Some st'' \<Rightarrow> Some (True, st''))))"
| "Dedup_entries sha256 [] sourceDir destDir st = Some st"
| "Dedup_entries sha256 ((fileName, node) # rest) sourceDir destDir st =
     (if fileName = ''.'' \<or> fileName = ''..''
      then Dedup_entries sha256 rest sourceDir destDir st
      else
        (case st of (fs, b) \<Rightarrow>
          let sourceFullPath = sourceDir @ fileName;
              destFullPath = destDir @ fileName;
              relativePath = GetRelativePath sourceFullPath (sourcePath b);
              b1 = b\<lparr>stats := (stats b)\<lparr>filesProcessed := filesProcessed (stats b) + 1\<rparr>\<rparr>
          in (case node of
                SrcDir listing \<Rightarrow>
                  (case Dedup_BackupDirectory sha256 listing (sourceFullPath @ [BSLASH])
                          (destFullPath @ [BSLASH]) (fs, b1) of
                     None \<Rightarrow> None
                   | Some (result, st') \<Rightarrow> Dedup_entries sha256 rest sourceDir destDir st')
              | SrcFile findData bytes calls \<Rightarrow>
                  Dedup_entries sha256 rest sourceDir destDir
                    (Dedup_BackupDirectory_file sha256 findData bytes calls relativePath
                       (fs, b1)))))"
  by pat_completeness auto
termination
  by (relation "measure (\<lambda>x. case x of
          Inl (sha256, listing, rest) \<Rightarrow> size_option (size_list (size_prod (\<lambda>_. 0) size)) listing
        | Inr (sha256, entries, rest) \<Rightarrow> size_list (size_prod (\<lambda>_. 0) size) entries)")
     (auto simp: FindFirstFileA_def split: option.splits list.splits)

declare Dedup_BackupDirectory.simps [simp del]

text \<open>
  \<^verbatim>\<open>DeduplicationBackup::StartBackup\<close>. \<open>root\<close> is what the source path names: nothing, a
  file, or a directory with its enumeration.
\<close>

definition Dedup_StartBackup ::
  "(string \<Rightarrow> 256 word) \<Rightarrow> src_node option \<Rightarrow> filesystem \<times> DeduplicationBackup
     \<Rightarrow> (bool \<times> filesystem \<times> DeduplicationBackup) option" where
  "Dedup_StartBackup sha256 root st =
     (case st of (fs, b) \<Rightarrow>
       (case Initialize fs (store b) of
          (False, fs1) \<Rightarrow> Some (False, fs1, b)
        | (True, fs1) \<Rightarrow>
            (case DeduplicationIndex_Load fs1 (index b) of (hasIndex, idx) \<Rightarrow>
               let b1 = b\<lparr>index := idx,
                          store := (if hasIndex
                                    then LoadReferenceCountsFromIndex (store b) (GetAllFiles idx)
                                    else store b)\<rparr>
               in (case root of
                     None \<Rightarrow> Some (False, fs1, b1)
                   | Some (SrcFile findData bytes calls) \<Rightarrow> Some (False, fs1, b1)
                   | Some (SrcDir listing) \<Rightarrow>
                       (case Dedup_BackupDirectory sha256 listing (sourcePath b1) (destPath b1)
                               (fs1, b1) of
                          None \<Rightarrow> None
                        | Some (result, fs2, b2) \<Rightarrow>
                            (case DeduplicationIndex_Save fs2 (index b2) of
                               (saved, fs3) \<Rightarrow> Some (result, fs3, b2)))))))"

subsection \<open>Decimal text of \<^verbatim>\<open>long long\<close> values\<close>

text \<open>\<^verbatim>\<open>file << value\<close> for a \<^verbatim>\<open>long long\<close>: decimal digits, a minus sign for negative values.\<close>

definition digit_char :: "nat \<Rightarrow> char" where
  "digit_char n = ''0123456789'' ! (n mod 10)"

fun digits :: "nat \<Rightarrow> string" where
  "digits n = (if n < 10 then [digit_char n] else digits (n div 10) @ [digit_char (n mod 10)])"

declare digits.simps [simp del]

definition show_ll :: "64 word \<Rightarrow> string" where
  "show_ll w = (if sint w < 0 then CHR ''-'' # digits (nat (- sint w)) else digits (nat (sint w)))"

text \<open>
  \<^verbatim>\<open>std::stoll\<close>: skips leading white space, takes an optional sign and the longest run of
  decimal digits, ignores what follows; throws \<^verbatim>\<open>std::invalid_argument\<close> when there is no
  digit and \<^verbatim>\<open>std::out_of_range\<close> when the value does not fit a \<^verbatim>\<open>long long\<close>.
\<close>

datatype cpp_exception = invalid_argument | out_of_range

definition isspace :: "char \<Rightarrow> bool" where
  "isspace c = (c = CHR '' '' \<or> (9 \<le> (of_char c :: nat) \<and> (of_char c :: nat) \<le> 13))"

definition isdigit :: "char \<Rightarrow> bool" where
  "isdigit c = (48 \<le> (of_char c :: nat) \<and> (of_char c :: nat) \<le> 57)"

definition digit_val :: "char \<Rightarrow> nat" where
  "digit_val c = of_char c - 48"

definition stoll :: "string \<Rightarrow> cpp_exception + 64 word" where
  "stoll str =
     (let s1 = dropWhile isspace str;
          neg = (s1 \<noteq> [] \<and> hd s1 = CHR ''-'');
          s2 = (if s1 \<noteq> [] \<and> (hd s1 = CHR ''-'' \<or> hd s1 = CHR ''+'') then tl s1 else s1);
          ds = takeWhile isdigit s2;
          n = foldl (\<lambda>a c. 10 * a + digit_val c) 0 ds;
          v = (if neg then - int n else int n)
      in if ds = [] then Inl invalid_argument
         else if v < - (2 ^ 63) \<or> 2 ^ 63 \<le> v then Inl out_of_range
         else Inr (word_of_int v))"

text \<open>\<^verbatim>\<open>s.substr(pos, n)\<close> for \<open>pos \<le> length s\<close>.\<close>

definition substr :: "string \<Rightarrow> nat \<Rightarrow> nat \<Rightarrow> string" where
  "substr s pos n = take n (drop pos s)"

subsection \<open>Phase 2: \<^verbatim>\<open>ManifestManager\<close>\<close>

record ManifestManager =
  manifest :: "(string, FileMetadata) std_map"
  manifestPath :: string

definition ManifestManager_new :: "string \<Rightarrow> ManifestManager" where
  "ManifestManager_new backupRoot =
     \<lparr>manifest = [], manifestPath = backupRoot @ [BSLASH] @ ''.backup_manifest.txt''\<rparr>"

text \<open>
  The body of the \<^verbatim>\<open>getline\<close> loop of \<^verbatim>\<open>ManifestManager::Load\<close>, for one line. \<open>Inl\<close> is the
  exception \<^verbatim>\<open>stoll\<close> throws; nothing in the program catches it.
\<close>

definition manifest_line ::
  "string \<Rightarrow> (string, FileMetadata) std_map \<Rightarrow> cpp_exception + (string, FileMetadata) std_map" where
  "manifest_line line m =
     (if line = [] then Inr m
      else
        let pos1 = find_pipe line 0;
            pos2 = find_pipe line (pos_plus_1 pos1);
            pos3 = find_pipe line (pos_plus_1 pos2)
        in (case (pos1, pos2, pos3) of
              (Some p1, Some p2, Some p3) \<Rightarrow>
                (case stoll (substr line (p2 + 1) (p3 - p2 - 1)) of
                   Inl e \<Rightarrow> Inl e
                 | Inr sz \<Rightarrow>
                     (case stoll (drop (p3 + 1) line) of
                        Inl e \<Rightarrow> Inl e
                      | Inr timestamp \<Rightarrow>
                          Inr (map_assign (take p1 line)
                                 \<lparr>hash = substr line (p1 + 1) (p2 - p1 - 1), fsize = sz,
                                  lastModified = timestamp\<rparr> m)))
            | _ \<Rightarrow> Inr m))"

fun manifest_lines ::
  "string list \<Rightarrow> (string, FileMetadata) std_map \<Rightarrow> cpp_exception + (string, FileMetadata) std_map" where
  "manifest_lines [] m = Inr m"
| "manifest_lines (line # rest) m =
     (case manifest_line line m of Inl e \<Rightarrow> Inl e | Inr m' \<Rightarrow> manifest_lines rest m')"

definition manifest_parse :: "string \<Rightarrow> cpp_exception + (string, FileMetadata) std_map" where
  "manifest_parse bytes = manifest_lines (getlines [] bytes) []"

definition ManifestManager_Load ::
  "filesystem \<Rightarrow> ManifestManager \<Rightarrow> cpp_exception + (bool \<times> ManifestManager)" where
  "ManifestManager_Load fs mm =
     (case read_file fs (manifestPath mm) of
        None \<Rightarrow> Inr (False, mm)
      | Some bytes \<Rightarrow>
          (case manifest_parse bytes of
             Inl e \<Rightarrow> Inl e
           | Inr m \<Rightarrow> Inr (True, mm\<lparr>manifest := m\<rparr>)))"

definition manifest_text :: "(string, FileMetadata) std_map \<Rightarrow> string" where
  "manifest_text m =
     concat (map (\<lambda>entry. fst entry @ [PIPE] @ hash (snd entry) @ [PIPE]
                    @ show_ll (fsize (snd entry)) @ [PIPE]
                    @ show_ll (lastModified (snd entry)) @ [NEWLINE]) m)"

definition ManifestManager_Save :: "filesystem \<Rightarrow> ManifestManager \<Rightarrow> bool \<times> filesystem" where
  "ManifestManager_Save fs mm =
     (case write_file fs (manifestPath mm) (manifest_text (manifest mm)) of
        None \<Rightarrow> (False, fs)
      | Some fs' \<Rightarrow> (True, fs'))"

definition HasFile :: "ManifestManager \<Rightarrow> string \<Rightarrow> bool" where
  "HasFile mm filepath = (map_of (manifest mm) filepath \<noteq> None)"

text \<open>
  \<^verbatim>\<open>return manifest[filepath];\<close> The subscript inserts a value-initialised \<^verbatim>\<open>FileMetadata\<close>
  (empty hash, size and time zero) when the key is absent, so the call returns the
  metadata together with the manager it leaves behind.
\<close>

definition FileMetadata_default :: FileMetadata where
  "FileMetadata_default = \<lparr>hash = [], fsize = 0, lastModified = 0\<rparr>"

definition GetFileMetadata :: "ManifestManager \<Rightarrow> string \<Rightarrow> FileMetadata \<times> ManifestManager" where
  "GetFileMetadata mm filepath =
     (let m = map_subscript FileMetadata_default filepath (manifest mm)
      in (map_value FileMetadata_default filepath m, mm\<lparr>manifest := m\<rparr>))"

definition UpdateFile :: "ManifestManager \<Rightarrow> string \<Rightarrow> FileMetadata \<Rightarrow> ManifestManager" where
  "UpdateFile mm filepath meta = mm\<lparr>manifest := map_assign filepath meta (manifest mm)\<rparr>"

definition GetFileCount :: "ManifestManager \<Rightarrow> 32 word" where
  "GetFileCount mm = of_nat (length (manifest mm))"

subsection \<open>Phase 2: \<^verbatim>\<open>IncrementalBackup\<close>\<close>

record IncrementalBackup = Backup +
  manifestMgr :: ManifestManager
  incrementalMode :: bool

definition IncrementalBackup_new :: "string \<Rightarrow> string \<Rightarrow> bool \<Rightarrow> IncrementalBackup" where
  "IncrementalBackup_new src dst incremental =
     \<lparr>sourcePath = NormalizePath src, destPath = NormalizePath dst, stats = BackupStats_init,
      manifestMgr = ManifestManager_new dst, incrementalMode = incremental\<rparr>"

text \<open>
  \<^verbatim>\<open>IncrementalBackup::ShouldCopyFile\<close>. The result is the returned flag, the value left in the
  reference parameter \<^verbatim>\<open>currentHash\<close>, and the object. \<open>calls\<close> and \<open>bytes\<close> describe the
  file that \<^verbatim>\<open>sourceFile\<close> names.
\<close>

definition ShouldCopyFile ::
  "(string \<Rightarrow> 256 word) \<Rightarrow> file_calls \<Rightarrow> string \<Rightarrow> string \<Rightarrow> 64 word \<Rightarrow> 64 word \<Rightarrow> IncrementalBackup
     \<Rightarrow> bool \<times> string \<times> IncrementalBackup" where
  "ShouldCopyFile sha256 calls bytes relativePath fileSize fileTime b =
     (if \<not> incrementalMode b then (True, CalculateHash sha256 calls bytes, b)
      else if \<not> HasFile (manifestMgr b) relativePath
      then (True, CalculateHash sha256 calls bytes,
            b\<lparr>stats := (stats b)\<lparr>filesNew := filesNew (stats b) + 1\<rparr>\<rparr>)
      else
        (case GetFileMetadata (manifestMgr b) relativePath of (oldMeta, mm) \<Rightarrow>
           let b1 = b\<lparr>manifestMgr := mm\<rparr>
           in if fsize oldMeta \<noteq> fileSize \<or> lastModified oldMeta \<noteq> fileTime
              then
                (let currentHash = CalculateHash sha256 calls bytes
                 in if currentHash \<noteq> hash oldMeta
                    then (True, currentHash,
                          b1\<lparr>stats := (stats b1)\<lparr>filesModified := filesModified (stats b1) + 1\<rparr>\<rparr>)
                    else (False, currentHash,
                          b1\<lparr>stats := (stats b1)\<lparr>filesSkipped := filesSkipped (stats b1) + 1\<rparr>\<rparr>))
              else (False, hash oldMeta,
                    b1\<lparr>stats := (stats b1)\<lparr>filesSkipped := filesSkipped (stats b1) + 1\<rparr>\<rparr>)))"

text \<open>The file branch of the loop body of \<^verbatim>\<open>IncrementalBackup::BackupDirectory\<close>.\<close>

definition Inc_BackupDirectory_file ::
  "(string \<Rightarrow> 256 word) \<Rightarrow> WIN32_FIND_DATAA \<Rightarrow> string \<Rightarrow> file_calls \<Rightarrow> string \<Rightarrow> string
     \<Rightarrow> filesystem \<times> IncrementalBackup \<Rightarrow> filesystem \<times> IncrementalBackup" where
  "Inc_BackupDirectory_file sha256 findData bytes calls relativePath destFullPath st =
     (case st of (fs, b) \<Rightarrow>
        let fileSize = GetFileSize findData;
            fileTime = GetFileTime findData;
            b1 = b\<lparr>stats := (stats b)\<lparr>totalBytes := totalBytes (stats b) + fileSize\<rparr>\<rparr>;
            meta = (\<lambda>fileHash. \<lparr>hash = fileHash, fsize = fileSize, lastModified = fileTime\<rparr>)
        in (case ShouldCopyFile sha256 calls bytes relativePath fileSize fileTime b1 of
              (True, fileHash, b2) \<Rightarrow>
                (case CopyFileA fs calls bytes destFullPath of
                   Some fs' \<Rightarrow>
                     (fs', b2\<lparr>stats := (stats b2)
                                \<lparr>filesCopied := filesCopied (stats b2) + 1,
                                 bytesCopied := bytesCopied (stats b2) + fileSize\<rparr>,
                              manifestMgr := UpdateFile (manifestMgr b2) relativePath (meta fileHash)\<rparr>)
                 | None \<Rightarrow>
                     (fs, b2\<lparr>stats := (stats b2)\<lparr>errors := errors (stats b2) + 1\<rparr>\<rparr>))
            | (False, fileHash, b2) \<Rightarrow>
                (fs, b2\<lparr>manifestMgr := UpdateFile (manifestMgr b2) relativePath (meta fileHash)\<rparr>)))"


section \<open>Properties\<close>

subsection \<open>Facts about the map operations and machine integers\<close>

lemma map_of_map_assign: "map_of (map_assign k v m) = (map_of m)(k \<mapsto> v)"
  by (induction m) (auto simp: fun_eq_iff)

lemma length_map_assign_absent:
  "map_of m k = None \<Longrightarrow> length (map_assign k v m) = Suc (length m)"
  by (induction m) (auto split: if_splits)

lemma map_of_map_subscript:
  "map_of (map_subscript d k m) =
     (case map_of m k of None \<Rightarrow> (map_of m)(k \<mapsto> d) | Some v \<Rightarrow> map_of m)"
  by (simp add: map_subscript_def map_of_map_assign split: option.splits)

lemma sint_of_nat_small: "n < 2 ^ 31 \<Longrightarrow> sint (of_nat n :: 32 word) = int n"
  by (simp add: signed_of_nat signed_take_bit_int_eq_self)

lemma sint_succ: "sint (x :: 32 word) < 2147483647 \<Longrightarrow> sint (x + 1) = sint x + 1"
proof -
  assume a: "sint x < 2147483647"
  have b: "- (2 ^ 31) \<le> sint x"
    using sint_ge [of x] by simp
  have "x + 1 = word_of_int (sint x + 1)"
    by simp
  then have "sint (x + 1) = signed_take_bit 31 (sint x + 1)"
    by (simp only: signed_of_int) simp
  also have "\<dots> = sint x + 1"
    using a b by (intro signed_take_bit_int_eq_self) simp_all
  finally show ?thesis .
qed

subsection \<open>Reference counts of the store\<close>

lemma GetReferenceCount_IncrementReference:
  "GetReferenceCount (IncrementReference s h) h' =
     (if h' = h then GetReferenceCount s h + 1 else GetReferenceCount s h')"
  by (simp add: GetReferenceCount_def IncrementReference_def Let_def map_of_map_assign
        map_of_map_subscript map_value_def split: option.splits)

lemma GetReferenceCount_fold:
  "GetReferenceCount (fold (\<lambda>entry s'. IncrementReference s' (snd entry)) idx s) h =
     GetReferenceCount s h + of_nat (length (filter (\<lambda>entry. snd entry = h) idx))"
  by (induction idx arbitrary: s) (simp_all add: GetReferenceCount_IncrementReference)

lemma GetReferenceCount_Load:
  "GetReferenceCount (LoadReferenceCountsFromIndex s idx) h =
     of_nat (length (filter (\<lambda>entry. snd entry = h) idx))"
  by (simp add: LoadReferenceCountsFromIndex_def GetReferenceCount_fold)
     (simp add: GetReferenceCount_def)

lemma GetReferenceCount_StoreContent:
  "StoreContent fs s calls bytes h = (ok, fs', s') \<Longrightarrow>
     GetReferenceCount s' k = (if ok \<and> k = h then 1 else GetReferenceCount s k)"
  by (auto simp: StoreContent_def GetReferenceCount_def map_of_map_assign split: option.splits)

lemma replicate_less: "m < n \<Longrightarrow> replicate m (a::char) < replicate n a"
proof (induction m arbitrary: n)
  case 0
  then show ?case by (cases n) auto
next
  case (Suc m)
  then show ?case by (cases n) auto
qed

lemma replicate_index_ordered:
  "map_ordered (map (\<lambda>n. (replicate n CHR ''a'', h)) [0..<N])"
  unfolding map_ordered_def
  by (simp add: sorted_wrt_map comp_def sorted_wrt_iff_nth_less replicate_less)

text \<open>
  C10, as stated, at a store whose count for a fingerprint is \<^verbatim>\<open>INT_MAX\<close>: the increment does
  not produce the count plus one, and the count it produces is negative.
\<close>

theorem IncrementReference_INT_MAX_counterexample:
  "sint (GetReferenceCount
           (IncrementReference \<lparr>storePath = ''s'', referenceCount = [(''h'', 2147483647)]\<rparr> ''h'')
           ''h'')
     \<noteq> sint (GetReferenceCount \<lparr>storePath = ''s'', referenceCount = [(''h'', 2147483647)]\<rparr> ''h'') + 1
   \<and> sint (GetReferenceCount
           (IncrementReference \<lparr>storePath = ''s'', referenceCount = [(''h'', 2147483647)]\<rparr> ''h'')
           ''h'') < 0"
  by (simp add: GetReferenceCount_IncrementReference) (simp add: GetReferenceCount_def)

text \<open>
  C10, amended. \<^verbatim>\<open>IncrementReference\<close> adds one to the fingerprint's count in 32-bit
  arithmetic and leaves every other count alone; from the untracked state it creates the
  count 1, and it never looks at the file system, so no blob need exist. While the count is
  below \<^verbatim>\<open>INT_MAX\<close> the signed count grows by exactly one. From a store whose counts are all
  non-negative, no store operation produces a negative count: \<^verbatim>\<open>IncrementReference\<close> on a
  count below \<^verbatim>\<open>INT_MAX\<close>, \<^verbatim>\<open>StoreContent\<close> (which sets the count to 1 when the copy
  succeeds), and \<^verbatim>\<open>LoadReferenceCountsFromIndex\<close> of an index with fewer than \<open>2^31\<close> entries.
\<close>

theorem IncrementReference_adds_one:
  "GetReferenceCount (IncrementReference s h) h = GetReferenceCount s h + 1
   \<and> (map_of (referenceCount s) h = None \<longrightarrow> GetReferenceCount (IncrementReference s h) h = 1)
   \<and> (k \<noteq> h \<longrightarrow> GetReferenceCount (IncrementReference s h) k = GetReferenceCount s k)
   \<and> (sint (GetReferenceCount s h) < 2147483647 \<longrightarrow>
        sint (GetReferenceCount (IncrementReference s h) h) = sint (GetReferenceCount s h) + 1)
   \<and> ((\<forall>j. 0 \<le> sint (GetReferenceCount s j)) \<and> sint (GetReferenceCount s h) < 2147483647 \<longrightarrow>
        0 \<le> sint (GetReferenceCount (IncrementReference s h) k))
   \<and> ((\<forall>j. 0 \<le> sint (GetReferenceCount s j)) \<and> StoreContent fs s calls bytes h = (ok, fs', s') \<longrightarrow>
        0 \<le> sint (GetReferenceCount s' k))
   \<and> (length entries < 2 ^ 31 \<longrightarrow>
        0 \<le> sint (GetReferenceCount (LoadReferenceCountsFromIndex s entries) k))"
proof -
  have untracked: "map_of (referenceCount s) h = None \<longrightarrow> GetReferenceCount s h = 0"
    by (simp add: GetReferenceCount_def)
  have load: "0 \<le> sint (GetReferenceCount (LoadReferenceCountsFromIndex s entries) k)"
    if "length entries < 2 ^ 31"
  proof -
    have "length (filter (\<lambda>entry. snd entry = k) entries) \<le> length entries"
      by simp
    with that have "length (filter (\<lambda>entry. snd entry = k) entries) < 2 ^ 31"
      by linarith
    then show ?thesis
      by (simp add: GetReferenceCount_Load sint_of_nat_small)
  qed
  have store: "0 \<le> sint (GetReferenceCount s' k)"
    if "\<forall>j. 0 \<le> sint (GetReferenceCount s j)" "StoreContent fs s calls bytes h = (ok, fs', s')"
    using that by (simp add: GetReferenceCount_StoreContent)
  show ?thesis
    using untracked load store
    by (auto simp: GetReferenceCount_IncrementReference sint_succ)
qed

theorem IncrementReference_adds_one_witness:
  "map_of (referenceCount \<lparr>storePath = ''s'', referenceCount = [(''g'', 3)]\<rparr>) ''h'' = None
   \<and> GetReferenceCount (IncrementReference \<lparr>storePath = ''s'', referenceCount = [(''g'', 3)]\<rparr> ''h'') ''h'' = 1
   \<and> ''g'' \<noteq> ''h''
   \<and> GetReferenceCount (IncrementReference \<lparr>storePath = ''s'', referenceCount = [(''g'', 3)]\<rparr> ''h'') ''g'' = 3
   \<and> sint (GetReferenceCount \<lparr>storePath = ''s'', referenceCount = [(''g'', 3)]\<rparr> ''g'') < 2147483647
   \<and> sint (GetReferenceCount (IncrementReference \<lparr>storePath = ''s'', referenceCount = [(''g'', 3)]\<rparr> ''g'') ''g'') = 4
   \<and> (\<forall>j. 0 \<le> sint (GetReferenceCount \<lparr>storePath = ''s'', referenceCount = [(''g'', 3)]\<rparr> j))
   \<and> 0 \<le> sint (GetReferenceCount (IncrementReference \<lparr>storePath = ''s'', referenceCount = [(''g'', 3)]\<rparr> ''g'') ''g'')
   \<and> length [(''a.txt'', ''g''), (''b.txt'', ''g'')] < (2::nat) ^ 31
   \<and> 0 \<le> sint (GetReferenceCount
                 (LoadReferenceCountsFromIndex \<lparr>storePath = ''s'', referenceCount = [(''g'', 3)]\<rparr>
                    [(''a.txt'', ''g''), (''b.txt'', ''g'')]) ''g'')"
  using IncrementReference_adds_one
          [of "\<lparr>storePath = ''s'', referenceCount = [(''g'', 3)]\<rparr>" "''h''" "''g''"
              undefined undefined undefined undefined undefined undefined
              "[(''a.txt'', ''g''), (''b.txt'', ''g'')]"]
        IncrementReference_adds_one
          [of "\<lparr>storePath = ''s'', referenceCount = [(''g'', 3)]\<rparr>" "''g''" "''g''"
              undefined undefined undefined undefined undefined undefined "[]"]
  by (simp add: GetReferenceCount_def)

text \<open>
  C6, as stated, fails for an index in which \<open>2^31\<close> entries carry one fingerprint: the
  32-bit count of that fingerprint is then not the number of entries.
\<close>

theorem LoadReferenceCountsFromIndex_counterexample:
  "\<not> (\<forall>s entries h. map_ordered entries \<longrightarrow>
        sint (GetReferenceCount (LoadReferenceCountsFromIndex s entries) h)
          = int (length (filter (\<lambda>entry. snd entry = h) entries)))"
proof
  assume a: "\<forall>s entries h. map_ordered entries \<longrightarrow>
        sint (GetReferenceCount (LoadReferenceCountsFromIndex s entries) h)
          = int (length (filter (\<lambda>entry. snd entry = h) entries))"
  define N :: nat where "N = 2 ^ 31"
  define idx where "idx = map (\<lambda>n. (replicate n CHR ''a'', ''h'')) [0..<N]"
  have len: "length (filter (\<lambda>entry. snd entry = ''h'') idx) = N"
    by (simp add: idx_def filter_map comp_def)
  have "map_ordered idx"
    unfolding idx_def by (rule replicate_index_ordered)
  with a have "sint (GetReferenceCount (LoadReferenceCountsFromIndex undefined idx) ''h'')
          = int (length (filter (\<lambda>entry. snd entry = ''h'') idx))"
    by blast
  then have "sint (of_nat N :: 32 word) = int N"
    by (simp only: GetReferenceCount_Load len)
  then show False
    by (simp add: N_def)
qed

text \<open>
  C6, amended. After \<^verbatim>\<open>LoadReferenceCountsFromIndex\<close> the count of every fingerprint is the
  number of index entries carrying it, taken in the counter's 32-bit \<^verbatim>\<open>int\<close>: exactly that
  number when fewer than \<open>2^31\<close> entries carry the fingerprint. \<^verbatim>\<open>GetReferenceCount\<close> is 0
  for every fingerprint the map does not track, and after the rebuild for every fingerprint
  no index entry carries.
\<close>

theorem LoadReferenceCountsFromIndex_tally:
  "GetReferenceCount (LoadReferenceCountsFromIndex s entries) h
     = of_nat (length (filter (\<lambda>entry. snd entry = h) entries))
   \<and> (length (filter (\<lambda>entry. snd entry = h) entries) < 2 ^ 31 \<longrightarrow>
        sint (GetReferenceCount (LoadReferenceCountsFromIndex s entries) h)
          = int (length (filter (\<lambda>entry. snd entry = h) entries)))
   \<and> (map_of (referenceCount s) h = None \<longrightarrow> GetReferenceCount s h = 0)
   \<and> (h \<notin> snd ` set entries \<longrightarrow>
        GetReferenceCount (LoadReferenceCountsFromIndex s entries) h = 0)"
proof -
  have "filter (\<lambda>entry. snd entry = h) entries = []" if "h \<notin> snd ` set entries"
    using that by (auto simp: filter_empty_conv)
  then show ?thesis
    by (auto simp: GetReferenceCount_Load sint_of_nat_small) (simp add: GetReferenceCount_def)
qed

theorem LoadReferenceCountsFromIndex_tally_witness:
  "length (filter (\<lambda>entry. snd entry = ''g'') [(''a.txt'', ''g''), (''b.txt'', ''g''), (''c.txt'', ''k'')])
     < (2::nat) ^ 31
   \<and> sint (GetReferenceCount
             (LoadReferenceCountsFromIndex \<lparr>storePath = ''s'', referenceCount = [(''k'', 7)]\<rparr>
                [(''a.txt'', ''g''), (''b.txt'', ''g''), (''c.txt'', ''k'')]) ''g'') = 2
   \<and> map_of (referenceCount \<lparr>storePath = ''s'', referenceCount = [(''k'', 7)]\<rparr>) ''g'' = None
   \<and> GetReferenceCount \<lparr>storePath = ''s'', referenceCount = [(''k'', 7)]\<rparr> ''g'' = 0
   \<and> ''z'' \<notin> snd ` set [(''a.txt'', ''g''), (''b.txt'', ''g''), (''c.txt'', ''k'')]
   \<and> GetReferenceCount
         (LoadReferenceCountsFromIndex \<lparr>storePath = ''s'', referenceCount = [(''k'', 7)]\<rparr>
            [(''a.txt'', ''g''), (''b.txt'', ''g''), (''c.txt'', ''k'')]) ''z'' = 0"
  using LoadReferenceCountsFromIndex_tally
          [of "\<lparr>storePath = ''s'', referenceCount = [(''k'', 7)]\<rparr>"
              "[(''a.txt'', ''g''), (''b.txt'', ''g''), (''c.txt'', ''k'')]" "''g''"]
        LoadReferenceCountsFromIndex_tally
          [of "\<lparr>storePath = ''s'', referenceCount = [(''k'', 7)]\<rparr>"
              "[(''a.txt'', ''g''), (''b.txt'', ''g''), (''c.txt'', ''k'')]" "''z''"]
  by simp


subsection \<open>The manifest of phase 2\<close>

lemma map_subscript_present: "map_of m k = Some v \<Longrightarrow> map_subscript d k m = m"
  by (simp add: map_subscript_def)

lemma GetFileMetadata_present:
  "map_of (manifest mm) path = Some stored \<Longrightarrow> GetFileMetadata mm path = (stored, mm)"
  by (simp add: GetFileMetadata_def Let_def map_subscript_present map_value_def)

lemma GetFileMetadata_absent:
  "map_of (manifest mm) path = None \<Longrightarrow>
     GetFileMetadata mm path =
       (FileMetadata_default, mm\<lparr>manifest := map_assign path FileMetadata_default (manifest mm)\<rparr>)"
  by (simp add: GetFileMetadata_def Let_def map_subscript_def map_value_def map_of_map_assign)

text \<open>
  C9. \<^verbatim>\<open>GetFileMetadata\<close> on a path the manifest does not hold returns the
  value-initialised metadata (empty hash) and leaves that entry in the map: the path is now
  present, the map has one entry more, \<^verbatim>\<open>GetFileCount\<close> is one higher, and every other
  path maps as before. On a path the manifest holds it returns the stored metadata and the
  manifest is unchanged.
\<close>

theorem GetFileMetadata_inserts_default:
  "(\<not> HasFile mm path \<longrightarrow>
      fst (GetFileMetadata mm path) = FileMetadata_default
      \<and> hash (fst (GetFileMetadata mm path)) = []
      \<and> map_of (manifest (snd (GetFileMetadata mm path))) path = Some FileMetadata_default
      \<and> HasFile (snd (GetFileMetadata mm path)) path
      \<and> length (manifest (snd (GetFileMetadata mm path))) = Suc (length (manifest mm))
      \<and> GetFileCount (snd (GetFileMetadata mm path)) = GetFileCount mm + 1
      \<and> (\<forall>q. q \<noteq> path \<longrightarrow>
            map_of (manifest (snd (GetFileMetadata mm path))) q = map_of (manifest mm) q))
   \<and> (map_of (manifest mm) path = Some stored \<longrightarrow> GetFileMetadata mm path = (stored, mm))"
  by (auto simp: HasFile_def GetFileMetadata_present GetFileMetadata_absent map_of_map_assign
        length_map_assign_absent GetFileCount_def FileMetadata_default_def)

theorem GetFileMetadata_inserts_default_witness:
  "\<not> HasFile \<lparr>manifest = [(''a.txt'', \<lparr>hash = ''h'', fsize = 1, lastModified = 2\<rparr>)], manifestPath = ''m''\<rparr> ''b.txt''
   \<and> snd (GetFileMetadata \<lparr>manifest = [(''a.txt'', \<lparr>hash = ''h'', fsize = 1, lastModified = 2\<rparr>)], manifestPath = ''m''\<rparr> ''b.txt'')
       = \<lparr>manifest = [(''a.txt'', \<lparr>hash = ''h'', fsize = 1, lastModified = 2\<rparr>),
                      (''b.txt'', \<lparr>hash = [], fsize = 0, lastModified = 0\<rparr>)], manifestPath = ''m''\<rparr>
   \<and> GetFileCount (snd (GetFileMetadata \<lparr>manifest = [(''a.txt'', \<lparr>hash = ''h'', fsize = 1, lastModified = 2\<rparr>)], manifestPath = ''m''\<rparr> ''b.txt'')) = 2
   \<and> map_of (manifest \<lparr>manifest = [(''a.txt'', \<lparr>hash = ''h'', fsize = 1, lastModified = 2\<rparr>)], manifestPath = ''m''\<rparr>) ''a.txt''
       = Some \<lparr>hash = ''h'', fsize = 1, lastModified = 2\<rparr>
   \<and> GetFileMetadata \<lparr>manifest = [(''a.txt'', \<lparr>hash = ''h'', fsize = 1, lastModified = 2\<rparr>)], manifestPath = ''m''\<rparr> ''a.txt''
       = (\<lparr>hash = ''h'', fsize = 1, lastModified = 2\<rparr>,
          \<lparr>manifest = [(''a.txt'', \<lparr>hash = ''h'', fsize = 1, lastModified = 2\<rparr>)], manifestPath = ''m''\<rparr>)"
  using GetFileMetadata_inserts_default
     [of "\<lparr>manifest = [(''a.txt'', \<lparr>hash = ''h'', fsize = 1, lastModified = 2\<rparr>)], manifestPath = ''m''\<rparr>"
         "''b.txt''" undefined]
    GetFileMetadata_inserts_default
     [of "\<lparr>manifest = [(''a.txt'', \<lparr>hash = ''h'', fsize = 1, lastModified = 2\<rparr>)], manifestPath = ''m''\<rparr>"
         "''a.txt''" "\<lparr>hash = ''h'', fsize = 1, lastModified = 2\<rparr>"]
  by (simp add: HasFile_def GetFileMetadata_def map_subscript_def map_value_def FileMetadata_default_def GetFileCount_def)


subsection \<open>Change detection of phase 2\<close>

lemma ShouldCopyFile_new:
  "incrementalMode b \<Longrightarrow> \<not> HasFile (manifestMgr b) relativePath \<Longrightarrow>
     ShouldCopyFile sha256 calls bytes relativePath fileSize fileTime b =
       (True, CalculateHash sha256 calls bytes,
        b\<lparr>stats := (stats b)\<lparr>filesNew := filesNew (stats b) + 1\<rparr>\<rparr>)"
  by (simp add: ShouldCopyFile_def)

lemma ShouldCopyFile_same_metadata:
  "incrementalMode b \<Longrightarrow> map_of (manifest (manifestMgr b)) relativePath = Some old \<Longrightarrow>
   fsize old = fileSize \<Longrightarrow> lastModified old = fileTime \<Longrightarrow>
     ShouldCopyFile sha256 calls bytes relativePath fileSize fileTime b =
       (False, hash old, b\<lparr>stats := (stats b)\<lparr>filesSkipped := filesSkipped (stats b) + 1\<rparr>\<rparr>)"
  by (simp add: ShouldCopyFile_def HasFile_def GetFileMetadata_present)

lemma ShouldCopyFile_changed_metadata:
  "incrementalMode b \<Longrightarrow> map_of (manifest (manifestMgr b)) relativePath = Some old \<Longrightarrow>
   fsize old \<noteq> fileSize \<or> lastModified old \<noteq> fileTime \<Longrightarrow>
     ShouldCopyFile sha256 calls bytes relativePath fileSize fileTime b =
       (if CalculateHash sha256 calls bytes = hash old
        then (False, CalculateHash sha256 calls bytes,
              b\<lparr>stats := (stats b)\<lparr>filesSkipped := filesSkipped (stats b) + 1\<rparr>\<rparr>)
        else (True, CalculateHash sha256 calls bytes,
              b\<lparr>stats := (stats b)\<lparr>filesModified := filesModified (stats b) + 1\<rparr>\<rparr>))"
  by (auto simp: ShouldCopyFile_def HasFile_def GetFileMetadata_present Let_def)

lemma Inc_file_fs:
  "fst (Inc_BackupDirectory_file sha256 findData bytes calls relativePath destFullPath (fs, b)) =
     (if fst (ShouldCopyFile sha256 calls bytes relativePath (GetFileSize findData) (GetFileTime findData)
               (b\<lparr>stats := (stats b)\<lparr>totalBytes := totalBytes (stats b) + GetFileSize findData\<rparr>\<rparr>))
      then (case CopyFileA fs calls bytes destFullPath of Some fs' \<Rightarrow> fs' | None \<Rightarrow> fs)
      else fs)"
  by (simp add: Inc_BackupDirectory_file_def Let_def split: prod.splits option.splits bool.splits)


text \<open>
  C1. In incremental mode \<^verbatim>\<open>ShouldCopyFile\<close> decides in three ways. A path absent from the
  manifest: the fingerprint is computed, the file counts as new and the answer is to copy.
  A manifest entry whose size and time both equal the file's: the answer is not to copy, the
  file counts as skipped and the fingerprint handed back is the entry's, whatever the hasher
  and the file's bytes are (nothing is hashed). Otherwise the fingerprint is computed; if it
  equals the entry's the file counts as skipped and is not copied, else it counts as modified
  and the answer is to copy. The file branch of \<^verbatim>\<open>BackupDirectory\<close> calls \<^verbatim>\<open>CopyFileA\<close>
  exactly when the answer is to copy.
\<close>

theorem ShouldCopyFile_three_way:
  assumes "incrementalMode b"
  shows
  "(\<not> HasFile (manifestMgr b) relativePath \<longrightarrow>
      ShouldCopyFile sha256 calls bytes relativePath fileSize fileTime b =
        (True, CalculateHash sha256 calls bytes,
         b\<lparr>stats := (stats b)\<lparr>filesNew := filesNew (stats b) + 1\<rparr>\<rparr>))
   \<and> (map_of (manifest (manifestMgr b)) relativePath = Some old
        \<and> fsize old = fileSize \<and> lastModified old = fileTime \<longrightarrow>
      (\<forall>sha256' calls' bytes'.
         ShouldCopyFile sha256' calls' bytes' relativePath fileSize fileTime b =
           (False, hash old,
            b\<lparr>stats := (stats b)\<lparr>filesSkipped := filesSkipped (stats b) + 1\<rparr>\<rparr>)))
   \<and> (map_of (manifest (manifestMgr b)) relativePath = Some old
        \<and> (fsize old \<noteq> fileSize \<or> lastModified old \<noteq> fileTime)
        \<and> CalculateHash sha256 calls bytes = hash old \<longrightarrow>
      ShouldCopyFile sha256 calls bytes relativePath fileSize fileTime b =
        (False, CalculateHash sha256 calls bytes,
         b\<lparr>stats := (stats b)\<lparr>filesSkipped := filesSkipped (stats b) + 1\<rparr>\<rparr>))
   \<and> (map_of (manifest (manifestMgr b)) relativePath = Some old
        \<and> (fsize old \<noteq> fileSize \<or> lastModified old \<noteq> fileTime)
        \<and> CalculateHash sha256 calls bytes \<noteq> hash old \<longrightarrow>
      ShouldCopyFile sha256 calls bytes relativePath fileSize fileTime b =
        (True, CalculateHash sha256 calls bytes,
         b\<lparr>stats := (stats b)\<lparr>filesModified := filesModified (stats b) + 1\<rparr>\<rparr>))
   \<and> fst (Inc_BackupDirectory_file sha256 findData bytes calls relativePath destFullPath (fs, b)) =
       (if fst (ShouldCopyFile sha256 calls bytes relativePath (GetFileSize findData)
                  (GetFileTime findData)
                  (b\<lparr>stats := (stats b)\<lparr>totalBytes := totalBytes (stats b) + GetFileSize findData\<rparr>\<rparr>))
        then (case CopyFileA fs calls bytes destFullPath of Some fs' \<Rightarrow> fs' | None \<Rightarrow> fs)
        else fs)"
  using assms
  by (simp add: ShouldCopyFile_new ShouldCopyFile_same_metadata ShouldCopyFile_changed_metadata
        Inc_file_fs)

theorem ShouldCopyFile_three_way_witness:
  "incrementalMode (\<lparr>sourcePath = ''C:'' @ [BSLASH], destPath = ''D:'' @ [BSLASH], stats = BackupStats_init, manifestMgr = \<lparr>manifest = [(''a.txt'', \<lparr>hash = ''h'', fsize = 5, lastModified = 7\<rparr>)], manifestPath = ''m''\<rparr>, incrementalMode = True\<rparr>)
   \<and> \<not> HasFile (manifestMgr (\<lparr>sourcePath = ''C:'' @ [BSLASH], destPath = ''D:'' @ [BSLASH], stats = BackupStats_init, manifestMgr = \<lparr>manifest = [(''a.txt'', \<lparr>hash = ''h'', fsize = 5, lastModified = 7\<rparr>)], manifestPath = ''m''\<rparr>, incrementalMode = True\<rparr>)) ''b.txt''
   \<and> fst (ShouldCopyFile (\<lambda>bytes. 0) cannot_open ''x'' ''b.txt'' 5 7 (\<lparr>sourcePath = ''C:'' @ [BSLASH], destPath = ''D:'' @ [BSLASH], stats = BackupStats_init, manifestMgr = \<lparr>manifest = [(''a.txt'', \<lparr>hash = ''h'', fsize = 5, lastModified = 7\<rparr>)], manifestPath = ''m''\<rparr>, incrementalMode = True\<rparr>))
   \<and> filesNew (stats (snd (snd (ShouldCopyFile (\<lambda>bytes. 0) cannot_open ''x'' ''b.txt'' 5 7 (\<lparr>sourcePath = ''C:'' @ [BSLASH], destPath = ''D:'' @ [BSLASH], stats = BackupStats_init, manifestMgr = \<lparr>manifest = [(''a.txt'', \<lparr>hash = ''h'', fsize = 5, lastModified = 7\<rparr>)], manifestPath = ''m''\<rparr>, incrementalMode = True\<rparr>))))) = 1
   \<and> map_of (manifest (manifestMgr (\<lparr>sourcePath = ''C:'' @ [BSLASH], destPath = ''D:'' @ [BSLASH], stats = BackupStats_init, manifestMgr = \<lparr>manifest = [(''a.txt'', \<lparr>hash = ''h'', fsize = 5, lastModified = 7\<rparr>)], manifestPath = ''m''\<rparr>, incrementalMode = True\<rparr>))) ''a.txt'' = Some \<lparr>hash = ''h'', fsize = 5, lastModified = 7\<rparr>
   \<and> ShouldCopyFile (\<lambda>bytes. 1) all_succeed ''y'' ''a.txt'' 5 7 (\<lparr>sourcePath = ''C:'' @ [BSLASH], destPath = ''D:'' @ [BSLASH], stats = BackupStats_init, manifestMgr = \<lparr>manifest = [(''a.txt'', \<lparr>hash = ''h'', fsize = 5, lastModified = 7\<rparr>)], manifestPath = ''m''\<rparr>, incrementalMode = True\<rparr>)
       = (False, ''h'', (\<lparr>sourcePath = ''C:'' @ [BSLASH], destPath = ''D:'' @ [BSLASH], stats = BackupStats_init, manifestMgr = \<lparr>manifest = [(''a.txt'', \<lparr>hash = ''h'', fsize = 5, lastModified = 7\<rparr>)], manifestPath = ''m''\<rparr>, incrementalMode = True\<rparr>)\<lparr>stats := (stats (\<lparr>sourcePath = ''C:'' @ [BSLASH], destPath = ''D:'' @ [BSLASH], stats = BackupStats_init, manifestMgr = \<lparr>manifest = [(''a.txt'', \<lparr>hash = ''h'', fsize = 5, lastModified = 7\<rparr>)], manifestPath = ''m''\<rparr>, incrementalMode = True\<rparr>))\<lparr>filesSkipped := 1\<rparr>\<rparr>)
   \<and> CalculateHash (\<lambda>bytes. 0) cannot_open ''x'' \<noteq> ''h''
   \<and> ShouldCopyFile (\<lambda>bytes. 0) cannot_open ''x'' ''a.txt'' 6 7 (\<lparr>sourcePath = ''C:'' @ [BSLASH], destPath = ''D:'' @ [BSLASH], stats = BackupStats_init, manifestMgr = \<lparr>manifest = [(''a.txt'', \<lparr>hash = ''h'', fsize = 5, lastModified = 7\<rparr>)], manifestPath = ''m''\<rparr>, incrementalMode = True\<rparr>)
       = (True, [], (\<lparr>sourcePath = ''C:'' @ [BSLASH], destPath = ''D:'' @ [BSLASH], stats = BackupStats_init, manifestMgr = \<lparr>manifest = [(''a.txt'', \<lparr>hash = ''h'', fsize = 5, lastModified = 7\<rparr>)], manifestPath = ''m''\<rparr>, incrementalMode = True\<rparr>)\<lparr>stats := (stats (\<lparr>sourcePath = ''C:'' @ [BSLASH], destPath = ''D:'' @ [BSLASH], stats = BackupStats_init, manifestMgr = \<lparr>manifest = [(''a.txt'', \<lparr>hash = ''h'', fsize = 5, lastModified = 7\<rparr>)], manifestPath = ''m''\<rparr>, incrementalMode = True\<rparr>))\<lparr>filesModified := 1\<rparr>\<rparr>)"
  using ShouldCopyFile_three_way [of "(\<lparr>sourcePath = ''C:'' @ [BSLASH], destPath = ''D:'' @ [BSLASH], stats = BackupStats_init, manifestMgr = \<lparr>manifest = [(''a.txt'', \<lparr>hash = ''h'', fsize = 5, lastModified = 7\<rparr>)], manifestPath = ''m''\<rparr>, incrementalMode = True\<rparr>)" "''b.txt''" "\<lambda>bytes. 0" cannot_open "''x''" 5 7 undefined]
        ShouldCopyFile_three_way [of "(\<lparr>sourcePath = ''C:'' @ [BSLASH], destPath = ''D:'' @ [BSLASH], stats = BackupStats_init, manifestMgr = \<lparr>manifest = [(''a.txt'', \<lparr>hash = ''h'', fsize = 5, lastModified = 7\<rparr>)], manifestPath = ''m''\<rparr>, incrementalMode = True\<rparr>)" "''a.txt''" "\<lambda>bytes. 0" cannot_open "''x''" 5 7
           "\<lparr>hash = ''h'', fsize = 5, lastModified = 7\<rparr>"]
        ShouldCopyFile_three_way [of "(\<lparr>sourcePath = ''C:'' @ [BSLASH], destPath = ''D:'' @ [BSLASH], stats = BackupStats_init, manifestMgr = \<lparr>manifest = [(''a.txt'', \<lparr>hash = ''h'', fsize = 5, lastModified = 7\<rparr>)], manifestPath = ''m''\<rparr>, incrementalMode = True\<rparr>)" "''a.txt''" "\<lambda>bytes. 0" cannot_open "''x''" 6 7
           "\<lparr>hash = ''h'', fsize = 5, lastModified = 7\<rparr>"]
  by (simp add: HasFile_def BackupStats_init_def CalculateHash_def cannot_open_def all_succeed_def)


subsection \<open>A failed copy\<close>

lemma hash_loop_read_error:
  "(\<forall>i<n. ReadFile_ok calls (k + i) \<and> CryptHashData_ok calls (k + i)) \<Longrightarrow>
   \<not> ReadFile_ok calls (k + n) \<Longrightarrow>
     hash_loop calls k hashed rest = Some (hashed @ take (8192 * n) rest)"
proof (induction n arbitrary: k hashed rest)
  case 0
  then show ?case
    by (subst hash_loop.simps) simp
next
  case (Suc n)
  have ok: "ReadFile_ok calls k" "CryptHashData_ok calls k"
    using Suc.prems(1) [rule_format, of 0] by simp_all
  have later: "\<forall>i<n. ReadFile_ok calls (Suc k + i) \<and> CryptHashData_ok calls (Suc k + i)"
    using Suc.prems(1) by auto
  have stop: "\<not> ReadFile_ok calls (Suc k + n)"
    using Suc.prems(2) by simp
  have t: "take (8192 + 8192 * n) rest = take 8192 rest @ take (8192 * n) (drop 8192 rest)"
    by (rule take_add)
  show ?case
  proof (cases "rest = []")
    case True
    then show ?thesis
      by (subst hash_loop.simps) simp
  next
    case False
    then have "hash_loop calls k hashed rest
                 = hash_loop calls (Suc k) (hashed @ take 8192 rest) (drop 8192 rest)"
      using ok by (subst hash_loop.simps) simp
    also have "\<dots> = Some ((hashed @ take 8192 rest) @ take (8192 * n) (drop 8192 rest))"
      using later stop by (rule Suc.IH)
    finally show ?thesis
      using t by simp
  qed
qed

lemma hash_loop_all:
  "\<forall>i. ReadFile_ok calls i \<and> CryptHashData_ok calls i \<Longrightarrow>
     hash_loop calls k hashed rest = Some (hashed @ rest)"
proof (induction "length rest" arbitrary: k hashed rest rule: less_induct)
  case less
  show ?case
  proof (cases "rest = []")
    case True
    then show ?thesis
      by (subst hash_loop.simps) simp
  next
    case False
    then have "length (drop 8192 rest) < length rest"
      by simp
    then have "hash_loop calls (Suc k) (hashed @ take 8192 rest) (drop 8192 rest)
                 = Some ((hashed @ take 8192 rest) @ drop 8192 rest)"
      using less.prems by (rule less.hyps)
    then show ?thesis
      using False less.prems by (subst hash_loop.simps) simp
  qed
qed

lemma length_hex: "length (concat (map (\<lambda>i. hex_byte (hashResult digest i)) [0..<32])) = 64"
  by (simp add: length_concat comp_def hex_byte_def sum_list_triv)

lemma CalculateHash_all_succeed:
  "CalculateHash sha256 all_succeed bytes =
     concat (map (\<lambda>i. hex_byte (hashResult (sha256 bytes) i)) [0..<32])"
  by (simp add: CalculateHash_def all_succeed_def hash_loop_all)

lemma CalculateHash_length: "length (CalculateHash sha256 all_succeed bytes) = 64"
  unfolding CalculateHash_all_succeed by (rule length_hex)

lemma CalculateHash_nonempty: "CalculateHash sha256 all_succeed bytes \<noteq> []"
  using CalculateHash_length [of sha256 bytes] by auto


lemma CopyFileA_reads_all_succeed: "CopyFileA_reads all_succeed"
  by (simp add: all_succeed_def)



lemma CalculateHash_read_error:
  assumes "CreateFileA_ok calls" "CryptAcquireContext_ok calls" "CryptCreateHash_ok calls"
    "CryptGetHashParam_ok calls"
    "\<forall>i<n. ReadFile_ok calls i \<and> CryptHashData_ok calls i" "\<not> ReadFile_ok calls n"
  shows "CalculateHash sha256 calls bytes = CalculateHash sha256 all_succeed (take (8192 * n) bytes)"
proof -
  have "hash_loop calls 0 [] bytes = Some ([] @ take (8192 * n) bytes)"
    using assms(5,6) by (intro hash_loop_read_error) simp_all
  then show ?thesis
    using assms(1-4) by (simp add: CalculateHash_all_succeed) (simp add: CalculateHash_def)
qed

lemma Dedup_file_copy_fails:
  "CalculateHash sha256 calls bytes \<noteq> [] \<Longrightarrow>
   \<not> ContentExists fs (store b) (CalculateHash sha256 calls bytes) \<Longrightarrow>
   CopyFileA fs calls bytes (GetContentPath (store b) (CalculateHash sha256 calls bytes)) = None \<Longrightarrow>
     Dedup_BackupDirectory_file sha256 findData bytes calls relativePath (fs, b) =
       (fs, b\<lparr>stats := (stats b)\<lparr>totalBytes := totalBytes (stats b) + GetFileSize findData,
                                  errors := errors (stats b) + 1\<rparr>\<rparr>)"
  by (simp add: Dedup_BackupDirectory_file_def Let_def StoreContent_def)


lemma ShouldCopyFile_manifestMgr:
  "manifestMgr (snd (snd (ShouldCopyFile sha256 calls bytes relativePath fileSize fileTime b)))
     = manifestMgr b"
  by (cases "map_of (manifest (manifestMgr b)) relativePath")
     (auto simp: ShouldCopyFile_def HasFile_def GetFileMetadata_present Let_def)

lemma ShouldCopyFile_errors:
  "errors (stats (snd (snd (ShouldCopyFile sha256 calls bytes relativePath fileSize fileTime b))))
     = errors (stats b)"
  by (cases "map_of (manifest (manifestMgr b)) relativePath")
     (auto simp: ShouldCopyFile_def HasFile_def GetFileMetadata_present Let_def)

lemma ShouldCopyFile_incrementalMode:
  "incrementalMode (snd (snd (ShouldCopyFile sha256 calls bytes relativePath fileSize fileTime b)))
     = incrementalMode b"
  by (cases "map_of (manifest (manifestMgr b)) relativePath")
     (auto simp: ShouldCopyFile_def HasFile_def GetFileMetadata_present Let_def)

lemma ShouldCopyFile_decision_depends:
  "manifestMgr b' = manifestMgr b \<Longrightarrow> incrementalMode b' = incrementalMode b \<Longrightarrow>
     fst (ShouldCopyFile sha256 calls bytes relativePath fileSize fileTime b')
       = fst (ShouldCopyFile sha256 calls bytes relativePath fileSize fileTime b)"
  by (cases "map_of (manifest (manifestMgr b)) relativePath")
     (auto simp: ShouldCopyFile_def HasFile_def GetFileMetadata_present Let_def)

lemma Inc_file_copy_fails:
  "ShouldCopyFile sha256 calls bytes relativePath (GetFileSize findData) (GetFileTime findData)
      (b\<lparr>stats := (stats b)\<lparr>totalBytes := totalBytes (stats b) + GetFileSize findData\<rparr>\<rparr>)
     = (True, fileHash, b2) \<Longrightarrow>
   CopyFileA fs calls bytes destFullPath = None \<Longrightarrow>
     Inc_BackupDirectory_file sha256 findData bytes calls relativePath destFullPath (fs, b) =
       (fs, b2\<lparr>stats := (stats b2)\<lparr>errors := errors (stats b2) + 1\<rparr>\<rparr>)"
  by (simp add: Inc_BackupDirectory_file_def Let_def)

lemma Inc_file_copy_fails_frame:
  assumes sc: "ShouldCopyFile sha256 calls bytes relativePath (GetFileSize findData)
      (GetFileTime findData)
      (b\<lparr>stats := (stats b)\<lparr>totalBytes := totalBytes (stats b) + GetFileSize findData\<rparr>\<rparr>)
     = (True, fileHash, b2)"
    and cp: "CopyFileA fs calls bytes destFullPath = None"
  shows "fst (Inc_BackupDirectory_file sha256 findData bytes calls relativePath destFullPath (fs, b)) = fs"
    and "manifestMgr (snd (Inc_BackupDirectory_file sha256 findData bytes calls relativePath destFullPath (fs, b)))
           = manifestMgr b"
    and "errors (stats (snd (Inc_BackupDirectory_file sha256 findData bytes calls relativePath destFullPath (fs, b))))
           = errors (stats b) + 1"
    and "fst (ShouldCopyFile sha256 calls bytes relativePath (GetFileSize findData) (GetFileTime findData)
           (snd (Inc_BackupDirectory_file sha256 findData bytes calls relativePath destFullPath (fs, b))))"
proof -
  let ?b1 = "b\<lparr>stats := (stats b)\<lparr>totalBytes := totalBytes (stats b) + GetFileSize findData\<rparr>\<rparr>"
  have r: "Inc_BackupDirectory_file sha256 findData bytes calls relativePath destFullPath (fs, b) =
       (fs, b2\<lparr>stats := (stats b2)\<lparr>errors := errors (stats b2) + 1\<rparr>\<rparr>)"
    using sc cp by (rule Inc_file_copy_fails)
  have m: "manifestMgr b2 = manifestMgr b"
    using ShouldCopyFile_manifestMgr [of sha256 calls bytes relativePath "GetFileSize findData"
        "GetFileTime findData" ?b1] sc by simp
  have i: "incrementalMode b2 = incrementalMode b"
    using ShouldCopyFile_incrementalMode [of sha256 calls bytes relativePath "GetFileSize findData"
        "GetFileTime findData" ?b1] sc by simp
  have e: "errors (stats b2) = errors (stats b)"
    using ShouldCopyFile_errors [of sha256 calls bytes relativePath "GetFileSize findData"
        "GetFileTime findData" ?b1] sc by simp
  show "fst (Inc_BackupDirectory_file sha256 findData bytes calls relativePath destFullPath (fs, b)) = fs"
    by (simp add: r)
  show "manifestMgr (snd (Inc_BackupDirectory_file sha256 findData bytes calls relativePath destFullPath (fs, b)))
           = manifestMgr b"
    by (simp add: r m)
  show "errors (stats (snd (Inc_BackupDirectory_file sha256 findData bytes calls relativePath destFullPath (fs, b))))
           = errors (stats b) + 1"
    by (simp add: r e)
  have "fst (ShouldCopyFile sha256 calls bytes relativePath (GetFileSize findData) (GetFileTime findData)
           (b2\<lparr>stats := (stats b2)\<lparr>errors := errors (stats b2) + 1\<rparr>\<rparr>))
        = fst (ShouldCopyFile sha256 calls bytes relativePath (GetFileSize findData) (GetFileTime findData) ?b1)"
    by (rule ShouldCopyFile_decision_depends) (simp_all add: m i)
  then show "fst (ShouldCopyFile sha256 calls bytes relativePath (GetFileSize findData) (GetFileTime findData)
           (snd (Inc_BackupDirectory_file sha256 findData bytes calls relativePath destFullPath (fs, b))))"
    by (simp add: r sc)
qed


text \<open>
  C5. When the copy fails, the entry is skipped with one more error and the bookkeeping for
  its path is untouched. Phase 3: a file whose fingerprint was computed and whose content is
  not yet in the store, with \<^verbatim>\<open>CopyFileA\<close> into the store failing, leaves the file system,
  the store and the index as they were; only \<^verbatim>\<open>totalBytes\<close> and \<^verbatim>\<open>errors\<close> change. Phase 2:
  a file that \<^verbatim>\<open>ShouldCopyFile\<close> says to copy, with \<^verbatim>\<open>CopyFileA\<close> failing, leaves the file
  system and the manifest as they were and counts one more error, so \<^verbatim>\<open>ShouldCopyFile\<close>
  asked again about the same file still says to copy.
\<close>

theorem copy_failure_keeps_entry:
  "(CalculateHash sha256 calls bytes \<noteq> []
    \<and> \<not> ContentExists fs (store b) (CalculateHash sha256 calls bytes)
    \<and> CopyFileA fs calls bytes (GetContentPath (store b) (CalculateHash sha256 calls bytes)) = None
    \<longrightarrow>
      Dedup_BackupDirectory_file sha256 findData bytes calls relativePath (fs, b) =
        (fs, b\<lparr>stats := (stats b)\<lparr>totalBytes := totalBytes (stats b) + GetFileSize findData,
                                   errors := errors (stats b) + 1\<rparr>\<rparr>)
      \<and> index (snd (Dedup_BackupDirectory_file sha256 findData bytes calls relativePath (fs, b)))
            = index b)
   \<and> (fst (ShouldCopyFile sha256 calls bytes relativePath (GetFileSize findData)
              (GetFileTime findData)
              (ib\<lparr>stats := (stats ib)\<lparr>totalBytes := totalBytes (stats ib) + GetFileSize findData\<rparr>\<rparr>))
       \<and> CopyFileA fs calls bytes destFullPath = None
    \<longrightarrow>
      fst (Inc_BackupDirectory_file sha256 findData bytes calls relativePath destFullPath (fs, ib)) = fs
      \<and> manifestMgr (snd (Inc_BackupDirectory_file sha256 findData bytes calls relativePath
                              destFullPath (fs, ib))) = manifestMgr ib
      \<and> errors (stats (snd (Inc_BackupDirectory_file sha256 findData bytes calls relativePath
                                destFullPath (fs, ib)))) = errors (stats ib) + 1
      \<and> fst (ShouldCopyFile sha256 calls bytes relativePath (GetFileSize findData)
                (GetFileTime findData)
                (snd (Inc_BackupDirectory_file sha256 findData bytes calls relativePath
                        destFullPath (fs, ib)))))"
proof (intro conjI impI)
  assume a: "CalculateHash sha256 calls bytes \<noteq> []
    \<and> \<not> ContentExists fs (store b) (CalculateHash sha256 calls bytes)
    \<and> CopyFileA fs calls bytes (GetContentPath (store b) (CalculateHash sha256 calls bytes)) = None"
  then show r: "Dedup_BackupDirectory_file sha256 findData bytes calls relativePath (fs, b) =
        (fs, b\<lparr>stats := (stats b)\<lparr>totalBytes := totalBytes (stats b) + GetFileSize findData,
                                   errors := errors (stats b) + 1\<rparr>\<rparr>)"
    by (simp add: Dedup_file_copy_fails)
  show "index (snd (Dedup_BackupDirectory_file sha256 findData bytes calls relativePath (fs, b)))
          = index b"
    by (simp add: r)
next
  assume a: "fst (ShouldCopyFile sha256 calls bytes relativePath (GetFileSize findData)
              (GetFileTime findData)
              (ib\<lparr>stats := (stats ib)\<lparr>totalBytes := totalBytes (stats ib) + GetFileSize findData\<rparr>\<rparr>))
       \<and> CopyFileA fs calls bytes destFullPath = None"
  then obtain fileHash b2 where sc:
    "ShouldCopyFile sha256 calls bytes relativePath (GetFileSize findData) (GetFileTime findData)
       (ib\<lparr>stats := (stats ib)\<lparr>totalBytes := totalBytes (stats ib) + GetFileSize findData\<rparr>\<rparr>)
     = (True, fileHash, b2)"
    by (cases "ShouldCopyFile sha256 calls bytes relativePath (GetFileSize findData) (GetFileTime findData) (ib\<lparr>stats := (stats ib)\<lparr>totalBytes := totalBytes (stats ib) + GetFileSize findData\<rparr>\<rparr>)") auto
  from a have cp: "CopyFileA fs calls bytes destFullPath = None"
    by simp
  show "fst (Inc_BackupDirectory_file sha256 findData bytes calls relativePath destFullPath (fs, ib)) = fs"
    using sc cp by (rule Inc_file_copy_fails_frame)
  show "manifestMgr (snd (Inc_BackupDirectory_file sha256 findData bytes calls relativePath
                              destFullPath (fs, ib))) = manifestMgr ib"
    using sc cp by (rule Inc_file_copy_fails_frame)
  show "errors (stats (snd (Inc_BackupDirectory_file sha256 findData bytes calls relativePath
                                destFullPath (fs, ib)))) = errors (stats ib) + 1"
    using sc cp by (rule Inc_file_copy_fails_frame)
  show "fst (ShouldCopyFile sha256 calls bytes relativePath (GetFileSize findData)
                (GetFileTime findData)
                (snd (Inc_BackupDirectory_file sha256 findData bytes calls relativePath
                        destFullPath (fs, ib))))"
    using sc cp by (rule Inc_file_copy_fails_frame)
qed



theorem copy_failure_keeps_entry_witness:
  "CalculateHash (\<lambda>bytes. 0) all_succeed ''hello'' \<noteq> []
   \<and> \<not> ContentExists \<lparr>nodes = Map.empty, denied = (\<lambda>p. True)\<rparr> (store (DeduplicationBackup_new ''C:'' ''D:'')) (CalculateHash (\<lambda>bytes. 0) all_succeed ''hello'')
   \<and> CopyFileA \<lparr>nodes = Map.empty, denied = (\<lambda>p. True)\<rparr> all_succeed ''hello'' (GetContentPath (store (DeduplicationBackup_new ''C:'' ''D:'')) (CalculateHash (\<lambda>bytes. 0) all_succeed ''hello'')) = None
   \<and> errors (stats (snd (Dedup_BackupDirectory_file (\<lambda>bytes. 0) \<lparr>nFileSizeLow = 5, nFileSizeHigh = 0, dwLowDateTime = 0, dwHighDateTime = 0\<rparr> ''hello'' all_succeed ''a.txt'' (\<lparr>nodes = Map.empty, denied = (\<lambda>p. True)\<rparr>, (DeduplicationBackup_new ''C:'' ''D:''))))) = 1
   \<and> index (snd (Dedup_BackupDirectory_file (\<lambda>bytes. 0) \<lparr>nFileSizeLow = 5, nFileSizeHigh = 0, dwLowDateTime = 0, dwHighDateTime = 0\<rparr> ''hello'' all_succeed ''a.txt'' (\<lparr>nodes = Map.empty, denied = (\<lambda>p. True)\<rparr>, (DeduplicationBackup_new ''C:'' ''D:''))))
        = DeduplicationIndex_new ''D:''
   \<and> fst (ShouldCopyFile (\<lambda>bytes. 0) all_succeed ''hello'' ''a.txt'' (GetFileSize \<lparr>nFileSizeLow = 5, nFileSizeHigh = 0, dwLowDateTime = 0, dwHighDateTime = 0\<rparr>) (GetFileTime \<lparr>nFileSizeLow = 5, nFileSizeHigh = 0, dwLowDateTime = 0, dwHighDateTime = 0\<rparr>)
            ((IncrementalBackup_new ''C:'' ''D:'' True)\<lparr>stats := (stats (IncrementalBackup_new ''C:'' ''D:'' True))\<lparr>totalBytes := totalBytes (stats (IncrementalBackup_new ''C:'' ''D:'' True)) + GetFileSize \<lparr>nFileSizeLow = 5, nFileSizeHigh = 0, dwLowDateTime = 0, dwHighDateTime = 0\<rparr>\<rparr>\<rparr>))
   \<and> CopyFileA \<lparr>nodes = Map.empty, denied = (\<lambda>p. True)\<rparr> all_succeed ''hello'' (''D:'' @ [BSLASH] @ ''a.txt'') = None
   \<and> manifest (manifestMgr (snd (Inc_BackupDirectory_file (\<lambda>bytes. 0) \<lparr>nFileSizeLow = 5, nFileSizeHigh = 0, dwLowDateTime = 0, dwHighDateTime = 0\<rparr> ''hello'' all_succeed ''a.txt''
                                   (''D:'' @ [BSLASH] @ ''a.txt'') (\<lparr>nodes = Map.empty, denied = (\<lambda>p. True)\<rparr>, (IncrementalBackup_new ''C:'' ''D:'' True))))) = []
   \<and> errors (stats (snd (Inc_BackupDirectory_file (\<lambda>bytes. 0) \<lparr>nFileSizeLow = 5, nFileSizeHigh = 0, dwLowDateTime = 0, dwHighDateTime = 0\<rparr> ''hello'' all_succeed ''a.txt''
                            (''D:'' @ [BSLASH] @ ''a.txt'') (\<lparr>nodes = Map.empty, denied = (\<lambda>p. True)\<rparr>, (IncrementalBackup_new ''C:'' ''D:'' True))))) = 1"
  using copy_failure_keeps_entry
          [of "\<lambda>bytes. 0" all_succeed "''hello''" "\<lparr>nodes = Map.empty, denied = (\<lambda>p. True)\<rparr>" "(DeduplicationBackup_new ''C:'' ''D:'')" "\<lparr>nFileSizeLow = 5, nFileSizeHigh = 0, dwLowDateTime = 0, dwHighDateTime = 0\<rparr>" "''a.txt''" "(IncrementalBackup_new ''C:'' ''D:'' True)" "''D:'' @ [BSLASH] @ ''a.txt''"]
  by (simp add: CalculateHash_nonempty ContentExists_def GetFileAttributesA_def CopyFileA_def
        CopyFileA_reads_all_succeed
        write_file_def DeduplicationBackup_new_def IncrementalBackup_new_def BackupStats_init_def
        ShouldCopyFile_def HasFile_def ManifestManager_new_def)



subsection \<open>Paths\<close>

lemma split_path_plain:
  "\<forall>c\<in>set name. \<not> is_sep c \<Longrightarrow>
     split_path cur name = (if cur @ name = [] then [] else [cur @ name])"
  by (induction name arbitrary: cur) auto

lemma split_path_sep:
  "is_sep s \<Longrightarrow> split_path cur (p @ s # q) = split_path cur p @ split_path [] q"
  by (induction p arbitrary: cur) auto

lemma components_child:
  assumes "is_sep s" "\<forall>c\<in>set name. \<not> is_sep c" "name \<noteq> []"
  shows "components (p @ [s] @ name) = components p @ [name]"
  using assms by (simp add: components_def split_path_sep split_path_plain)

lemma components_trailing: "is_sep s \<Longrightarrow> components (p @ [s]) = components p"
  by (simp add: components_def split_path_sep)

lemma join_path_snoc: "cs \<noteq> [] \<Longrightarrow> join_path (cs @ [name]) = join_path cs @ [BSLASH] @ name"
  by (induction cs rule: join_path.induct) auto

lemma canon_trailing: "is_sep s \<Longrightarrow> canon (p @ [s]) = canon p"
  by (simp add: canon_def components_trailing)

lemma dirname_trailing: "is_sep s \<Longrightarrow> dirname (p @ [s]) = dirname p"
  by (simp add: dirname_def components_trailing)

lemma canon_nonempty: "canon p \<noteq> [] \<Longrightarrow> components p \<noteq> []"
  by (auto simp: canon_def)

lemma canon_child:
  assumes "is_sep s" "\<forall>c\<in>set name. \<not> is_sep c" "name \<noteq> []" "canon p \<noteq> []"
  shows "canon (p @ [s] @ name) = canon p @ [BSLASH] @ name"
proof -
  have "components (p @ [s] @ name) = components p @ [name]"
    using assms(1-3) by (rule components_child)
  moreover have "components p \<noteq> []"
    using assms(4) by (rule canon_nonempty)
  ultimately show ?thesis
    unfolding canon_def using join_path_snoc [of "components p" name] by simp
qed

lemma dirname_child:
  assumes "is_sep s" "\<forall>c\<in>set name. \<not> is_sep c" "name \<noteq> []"
  shows "dirname (p @ [s] @ name) = canon p"
proof -
  have "components (p @ [s] @ name) = components p @ [name]"
    using assms(1-3) by (rule components_child)
  then show ?thesis
    unfolding canon_def dirname_def by (simp only: butlast_snoc)
qed

lemma canon_NormalizePath: "canon (NormalizePath d) = canon d"
  by (simp add: NormalizePath_def canon_trailing is_sep_def)

lemma NormalizePath_sep: "d \<noteq> [] \<Longrightarrow> \<exists>p. NormalizePath d = p @ [BSLASH]"
proof (cases "last d = BSLASH")
  case True
  assume "d \<noteq> []"
  then have "d = butlast d @ [last d]"
    by simp
  with True have "NormalizePath d = butlast d @ [BSLASH]"
    by (simp add: NormalizePath_def)
  then show ?thesis ..
next
  case False
  assume "d \<noteq> []"
  with False show ?thesis
    by (simp add: NormalizePath_def)
qed

lemma hex_digit_no_sep: "\<not> is_sep (hex_digit n)"
proof -
  have "hex_digit n \<in> set ''0123456789abcdef''"
    unfolding hex_digit_def by (rule nth_mem) simp
  moreover have "\<forall>c\<in>set ''0123456789abcdef''. \<not> is_sep c"
    by (simp add: is_sep_def)
  ultimately show ?thesis
    by blast
qed

lemma CalculateHash_no_sep: "c \<in> set (CalculateHash sha256 calls bytes) \<Longrightarrow> \<not> is_sep c"
  by (auto simp: CalculateHash_def hex_byte_def hex_digit_no_sep split: if_splits option.splits)

lemma GetRelativePath_append: "GetRelativePath (base @ name) base = name"
  by (simp add: GetRelativePath_def)

subsection \<open>The walk of phase 3\<close>

lemma Dedup_file_stored:
  "CalculateHash sha256 calls bytes \<noteq> [] \<Longrightarrow>
   \<not> ContentExists fs (store b) (CalculateHash sha256 calls bytes) \<Longrightarrow>
   CopyFileA fs calls bytes (GetContentPath (store b) (CalculateHash sha256 calls bytes)) = Some fs' \<Longrightarrow>
     Dedup_BackupDirectory_file sha256 findData bytes calls relativePath (fs, b) =
       (fs', b\<lparr>stats := (stats b)\<lparr>totalBytes := totalBytes (stats b) + GetFileSize findData,
                                   filesCopied := filesCopied (stats b) + 1,
                                   bytesCopied := bytesCopied (stats b) + GetFileSize findData\<rparr>,
                store := (store b)\<lparr>referenceCount :=
                           map_assign (CalculateHash sha256 calls bytes) 1 (referenceCount (store b))\<rparr>,
                index := AddFile (index b) relativePath (CalculateHash sha256 calls bytes)\<rparr>)"
  by (simp add: Dedup_BackupDirectory_file_def Let_def StoreContent_def)

lemma Dedup_file_deduplicated:
  "CalculateHash sha256 calls bytes \<noteq> [] \<Longrightarrow>
   ContentExists fs (store b) (CalculateHash sha256 calls bytes) \<Longrightarrow>
     Dedup_BackupDirectory_file sha256 findData bytes calls relativePath (fs, b) =
       (fs, b\<lparr>stats := (stats b)\<lparr>totalBytes := totalBytes (stats b) + GetFileSize findData,
                                  filesDeduped := filesDeduped (stats b) + 1,
                                  bytesDeduplicated := bytesDeduplicated (stats b) + GetFileSize findData\<rparr>,
               store := IncrementReference (store b) (CalculateHash sha256 calls bytes),
               index := AddFile (index b) relativePath (CalculateHash sha256 calls bytes)\<rparr>)"
  by (simp add: Dedup_BackupDirectory_file_def Let_def)

lemma Dedup_entries_dot:
  "fileName = ''.'' \<or> fileName = ''..'' \<Longrightarrow>
     Dedup_entries sha256 ((fileName, node) # rest) sourceDir destDir st =
       Dedup_entries sha256 rest sourceDir destDir st"
  by simp

lemma Dedup_entries_file:
  "fileName \<noteq> ''.'' \<Longrightarrow> fileName \<noteq> ''..'' \<Longrightarrow>
     Dedup_entries sha256 ((fileName, SrcFile findData bytes calls) # rest) sourceDir destDir (fs, b) =
       Dedup_entries sha256 rest sourceDir destDir
         (Dedup_BackupDirectory_file sha256 findData bytes calls
            (GetRelativePath (sourceDir @ fileName) (sourcePath b))
            (fs, b\<lparr>stats := (stats b)\<lparr>filesProcessed := filesProcessed (stats b) + 1\<rparr>\<rparr>))"
  by (simp add: Let_def)

lemma Dedup_entries_dir:
  "fileName \<noteq> ''.'' \<Longrightarrow> fileName \<noteq> ''..'' \<Longrightarrow>
     Dedup_entries sha256 ((fileName, SrcDir listing) # rest) sourceDir destDir (fs, b) =
       (case Dedup_BackupDirectory sha256 listing (sourceDir @ fileName @ [BSLASH])
               (destDir @ fileName @ [BSLASH])
               (fs, b\<lparr>stats := (stats b)\<lparr>filesProcessed := filesProcessed (stats b) + 1\<rparr>\<rparr>) of
          None \<Rightarrow> None
        | Some (result, st') \<Rightarrow> Dedup_entries sha256 rest sourceDir destDir st')"
  by (simp add: Let_def del: Dedup_BackupDirectory.simps)

lemma canon_Nil: "canon [] = []"
  by (simp add: canon_def components_def)

text \<open>The paths below a destination root \<open>d\<close>, however \<open>d\<close> is spelled.\<close>

lemma dest_paths:
  assumes d: "canon d \<noteq> []"
  shows "canon (NormalizePath d) = canon d"
    and "canon (NormalizePath d @ ''.dedup_store'' @ [BSLASH]) = canon d @ [BSLASH] @ ''.dedup_store''"
    and "dirname (NormalizePath d @ ''.dedup_store'' @ [BSLASH]) = canon d"
    and "\<not> length (NormalizePath d @ ''.dedup_store'' @ [BSLASH]) < 14"
    and "canon (take (length (NormalizePath d @ ''.dedup_store'' @ [BSLASH]) - 14)
                  (NormalizePath d @ ''.dedup_store'' @ [BSLASH])) = canon d"
    and "canon (NormalizePath d @ ''.dedup_index.txt'') = canon d @ [BSLASH] @ ''.dedup_index.txt''"
    and "dirname (NormalizePath d @ ''.dedup_index.txt'') = canon d"
    and "\<forall>c\<in>set h. \<not> is_sep c \<Longrightarrow>
           canon ((NormalizePath d @ ''.dedup_store'' @ [BSLASH]) @ h @ ''.bin'')
             = canon d @ [BSLASH] @ ''.dedup_store'' @ [BSLASH] @ h @ ''.bin''"
    and "\<forall>c\<in>set h. \<not> is_sep c \<Longrightarrow>
           dirname ((NormalizePath d @ ''.dedup_store'' @ [BSLASH]) @ h @ ''.bin'')
             = canon d @ [BSLASH] @ ''.dedup_store''"
proof -
  have "d \<noteq> []"
    using d canon_Nil by auto
  then obtain p where N: "NormalizePath d = p @ [BSLASH]"
    using NormalizePath_sep by blast
  have sep: "is_sep BSLASH"
    by (simp add: is_sep_def)
  have cp: "canon p = canon d"
    using canon_NormalizePath [of d] canon_trailing [OF sep, of p] by (simp add: N)
  have plain: "\<forall>c\<in>set ''.dedup_store''. \<not> is_sep c" "\<forall>c\<in>set ''.dedup_index.txt''. \<not> is_sep c"
    by (simp_all add: is_sep_def)
  have sd: "canon (p @ [BSLASH] @ ''.dedup_store'') = canon d @ [BSLASH] @ ''.dedup_store''"
    using canon_child [OF sep plain(1), of p] d cp by simp
  show "canon (NormalizePath d) = canon d"
    by (rule canon_NormalizePath)
  show "canon (NormalizePath d @ ''.dedup_store'' @ [BSLASH]) = canon d @ [BSLASH] @ ''.dedup_store''"
    using canon_trailing [OF sep, of "p @ [BSLASH] @ ''.dedup_store''"] sd by (simp add: N)
  show "dirname (NormalizePath d @ ''.dedup_store'' @ [BSLASH]) = canon d"
    using dirname_trailing [OF sep, of "p @ [BSLASH] @ ''.dedup_store''"]
      dirname_child [OF sep plain(1), of p] cp by (simp add: N)
  show "\<not> length (NormalizePath d @ ''.dedup_store'' @ [BSLASH]) < 14"
    by (simp add: N)
  show "canon (take (length (NormalizePath d @ ''.dedup_store'' @ [BSLASH]) - 14)
                  (NormalizePath d @ ''.dedup_store'' @ [BSLASH])) = canon d"
    using cp by (simp add: N)
  show "canon (NormalizePath d @ ''.dedup_index.txt'') = canon d @ [BSLASH] @ ''.dedup_index.txt''"
    using canon_child [OF sep plain(2), of p] d cp by (simp add: N)
  show "dirname (NormalizePath d @ ''.dedup_index.txt'') = canon d"
    using dirname_child [OF sep plain(2), of p] cp by (simp add: N)
  assume h: "\<forall>c\<in>set h. \<not> is_sep c"
  then have hb: "\<forall>c\<in>set (h @ ''.bin''). \<not> is_sep c"
    by (simp add: is_sep_def)
  have ne: "canon (p @ [BSLASH] @ ''.dedup_store'') \<noteq> []"
    using sd by simp
  show "canon ((NormalizePath d @ ''.dedup_store'' @ [BSLASH]) @ h @ ''.bin'')
             = canon d @ [BSLASH] @ ''.dedup_store'' @ [BSLASH] @ h @ ''.bin''"
    using canon_child [OF sep hb _ ne] sd by (simp add: N)
  show "dirname ((NormalizePath d @ ''.dedup_store'' @ [BSLASH]) @ h @ ''.bin'')
             = canon d @ [BSLASH] @ ''.dedup_store''"
    using dirname_child [OF sep hb, of "p @ [BSLASH] @ ''.dedup_store''"] sd by (simp add: N)
qed

lemma CreateDestDirectory_exists:
  "GetFileAttributesA fs path = Some True \<Longrightarrow> CreateDestDirectory path (fs, b) = Some (True, fs, b)"
  by (subst CreateDestDirectory.simps) simp

lemma AddFile_fileHashMap: "fileHashMap (AddFile idx p h) = map_assign p h (fileHashMap idx)"
  by (simp add: AddFile_def)

lemma AddFile_indexPath: "indexPath (AddFile idx p h) = indexPath idx"
  by (simp add: AddFile_def)

lemma IncrementReference_storePath: "storePath (IncrementReference s h) = storePath s"
  by (simp add: IncrementReference_def Let_def)

text \<open>
  C2. A run of phase 3 over a source directory whose enumeration yields \<^verbatim>\<open>.\<close>, \<^verbatim>\<open>..\<close> and
  two files of the same bytes on which every call succeeds, into a destination \<open>d\<close> that
  names an existing directory (\<open>canon d\<close> is its canonical spelling) with nothing below it
  and which can be written: the run returns true; the file system gains the store directory,
  one blob named by the shared fingerprint and holding the bytes, and the index file, and
  nothing else; the blob is the only node below the store directory; the reference count of
  the fingerprint is 2; the index maps both names, and only them, to the fingerprint;
  \<^verbatim>\<open>filesCopied\<close> is 1, \<^verbatim>\<open>filesDeduped\<close> is 1 and there is no error.
\<close>

theorem two_identical_files:
  fixes d :: string
  assumes d: "canon d \<noteq> []"
    and names: "nameA \<noteq> nameB" "nameA \<noteq> ''.''" "nameA \<noteq> ''..''" "nameB \<noteq> ''.''" "nameB \<noteq> ''..''"
    and root: "nodes fs (canon d) = Some Directory"
    and empty: "\<forall>q. take (Suc (length (canon d))) q = canon d @ [BSLASH] \<longrightarrow>
                  nodes fs q = None \<and> \<not> denied fs q"
  shows "\<exists>fs' b'.
      Dedup_StartBackup sha256
          (Some (SrcDir (Some [(''.'', dot), (''..'', dotdot),
                               (nameA, SrcFile fdA bytes all_succeed),
                               (nameB, SrcFile fdB bytes all_succeed)])))
          (fs, DeduplicationBackup_new src d) = Some (True, fs', b')
      \<and> nodes fs' =
          (nodes fs)
            (canon d @ [BSLASH] @ ''.dedup_store'' \<mapsto> Directory,
             canon d @ [BSLASH] @ ''.dedup_store'' @ [BSLASH] @ CalculateHash sha256 all_succeed bytes @ ''.bin''
               \<mapsto> RegularFile bytes,
             canon d @ [BSLASH] @ ''.dedup_index.txt'' \<mapsto> RegularFile (index_text (fileHashMap (index b'))))
      \<and> (\<forall>q. take (length (canon d) + 14) q = canon d @ [BSLASH] @ ''.dedup_store'' @ [BSLASH] \<longrightarrow>
             (nodes fs' q \<noteq> None) =
             (q = canon d @ [BSLASH] @ ''.dedup_store'' @ [BSLASH] @ CalculateHash sha256 all_succeed bytes @ ''.bin''))
      \<and> referenceCount (store b') = [(CalculateHash sha256 all_succeed bytes, 2)]
      \<and> GetReferenceCount (store b') (CalculateHash sha256 all_succeed bytes) = 2
      \<and> map_of (fileHashMap (index b')) nameA = Some (CalculateHash sha256 all_succeed bytes)
      \<and> map_of (fileHashMap (index b')) nameB = Some (CalculateHash sha256 all_succeed bytes)
      \<and> length (fileHashMap (index b')) = 2
      \<and> filesCopied (stats b') = 1
      \<and> filesDeduped (stats b') = 1
      \<and> errors (stats b') = 0"
proof -
  define D where "D = canon d"
  define H where "H = CalculateHash sha256 all_succeed bytes"
  define SD where "SD = D @ [BSLASH] @ ''.dedup_store''"
  define BL where "BL = SD @ [BSLASH] @ H @ ''.bin''"
  define IX where "IX = D @ [BSLASH] @ ''.dedup_index.txt''"
  define b0 where "b0 = DeduplicationBackup_new src d"
  define SP where "SP = NormalizePath d @ ''.dedup_store'' @ [BSLASH]"
  define BLr where "BLr = SP @ H @ ''.bin''"
  define IXr where "IXr = NormalizePath d @ ''.dedup_index.txt''"
  define DP where "DP = NormalizePath d"
  define fs1 where "fs1 = fs\<lparr>nodes := (nodes fs)(SD \<mapsto> Directory)\<rparr>"
  define fs2 where "fs2 = fs1\<lparr>nodes := (nodes fs1)(BL \<mapsto> RegularFile bytes)\<rparr>"
  have H: "H \<noteq> []" and Hsep: "\<forall>c\<in>set H. \<not> is_sep c"
    by (auto simp: H_def CalculateHash_nonempty dest: CalculateHash_no_sep)
  have canon: "canon DP = D" "canon SP = SD" "canon IXr = IX" "canon BLr = BL"
    and dn: "dirname SP = D" "dirname IXr = D" "dirname BLr = SD"
    and parent: "\<not> length SP < 14" "canon (take (length SP - 14) SP) = D"
    using dest_paths [OF d] dest_paths(8,9) [OF d Hsep]
    by (simp_all add: DP_def SP_def IXr_def BLr_def D_def SD_def IX_def BL_def)
  have root': "nodes fs D = Some Directory"
    using root by (simp add: D_def)
  have under: "nodes fs SD = None" "nodes fs BL = None" "nodes fs IX = None"
      "\<not> denied fs SD" "\<not> denied fs BL" "\<not> denied fs IX"
    using empty by (simp_all add: SD_def BL_def IX_def D_def)
  have neq: "SD \<noteq> D" "BL \<noteq> D" "IX \<noteq> D" "BL \<noteq> SD" "IX \<noteq> SD" "IX \<noteq> BL"
    by (simp_all add: SD_def BL_def IX_def)
  have sp: "storePath (store b0) = SP" "referenceCount (store b0) = []"
      "fileHashMap (index b0) = []" "indexPath (index b0) = IXr" "stats b0 = BackupStats_init"
      "destPath b0 = DP"
    by (simp_all add: b0_def DeduplicationBackup_new_def DeduplicationStore_new_def
        DeduplicationIndex_new_def SP_def IXr_def DP_def)
  have init: "Initialize fs (store b0) = (True, fs1)"
    using root' under(1,4) parent
    by (simp add: Initialize_def Let_def sp GetFileAttributesA_def CreateDirectoryA_def canon dn
          fs1_def)
  have load: "DeduplicationIndex_Load fs1 (index b0) = (False, index b0)"
    using under neq by (simp add: DeduplicationIndex_Load_def read_file_def sp canon fs1_def)
  have cdd: "CreateDestDirectory DP (fs1, b0) = Some (True, fs1, b0)"
    using root' neq
    by (intro CreateDestDirectory_exists) (simp add: GetFileAttributesA_def canon fs1_def)
  define bA where "bA = b0\<lparr>stats := (stats b0)\<lparr>filesProcessed := filesProcessed (stats b0) + 1\<rparr>\<rparr>"
  define bB where "bB = bA\<lparr>stats := (stats bA)\<lparr>totalBytes := totalBytes (stats bA) + GetFileSize fdA,
                                   filesCopied := filesCopied (stats bA) + 1,
                                   bytesCopied := bytesCopied (stats bA) + GetFileSize fdA\<rparr>,
                store := (store bA)\<lparr>referenceCount := map_assign H 1 (referenceCount (store bA))\<rparr>,
                index := AddFile (index bA) nameA H\<rparr>"
  define bC where "bC = bB\<lparr>stats := (stats bB)\<lparr>filesProcessed := filesProcessed (stats bB) + 1\<rparr>\<rparr>"
  define bD where "bD = bC\<lparr>stats := (stats bC)\<lparr>totalBytes := totalBytes (stats bC) + GetFileSize fdB,
                                  filesDeduped := filesDeduped (stats bC) + 1,
                                  bytesDeduplicated := bytesDeduplicated (stats bC) + GetFileSize fdB\<rparr>,
               store := IncrementReference (store bC) H,
               index := AddFile (index bC) nameB H\<rparr>"
  have cp: "GetContentPath (store bA) H = BLr" "GetContentPath (store bC) H = BLr"
    by (simp_all add: GetContentPath_def bA_def bB_def bC_def sp BLr_def)
  have step1: "Dedup_BackupDirectory_file sha256 fdA bytes all_succeed nameA (fs1, bA) = (fs2, bB)"
    unfolding bB_def H_def
  proof (rule Dedup_file_stored)
    show "CalculateHash sha256 all_succeed bytes \<noteq> []"
      using H by (simp add: H_def)
    show "\<not> ContentExists fs1 (store bA) (CalculateHash sha256 all_succeed bytes)"
      using under neq cp
      by (simp add: ContentExists_def GetFileAttributesA_def canon fs1_def H_def [symmetric])
    show "CopyFileA fs1 all_succeed bytes (GetContentPath (store bA) (CalculateHash sha256 all_succeed bytes)) = Some fs2"
      using under neq cp
      by (simp add: CopyFileA_def CopyFileA_reads_all_succeed write_file_def canon dn fs1_def
            fs2_def H_def [symmetric])
  qed
  have step2: "Dedup_BackupDirectory_file sha256 fdB bytes all_succeed nameB (fs2, bC) = (fs2, bD)"
    unfolding bD_def H_def
  proof (rule Dedup_file_deduplicated)
    show "CalculateHash sha256 all_succeed bytes \<noteq> []"
      using H by (simp add: H_def)
    show "ContentExists fs2 (store bC) (CalculateHash sha256 all_succeed bytes)"
      using cp by (simp add: ContentExists_def GetFileAttributesA_def canon fs2_def H_def [symmetric])
  qed
  have sps: "sourcePath bA = sourcePath b0" "sourcePath bB = sourcePath b0"
      "sourcePath bC = sourcePath b0"
    by (simp_all add: bA_def bB_def bC_def)
  have entries: "Dedup_entries sha256
          [(''.'', dot), (''..'', dotdot), (nameA, SrcFile fdA bytes all_succeed),
           (nameB, SrcFile fdB bytes all_succeed)]
          (sourcePath b0) DP (fs1, b0) = Some (fs2, bD)"
    using names step1 step2
    by (simp add: Dedup_entries_file GetRelativePath_append bA_def [symmetric] sps
          bC_def [symmetric])
  have walk: "Dedup_BackupDirectory sha256
          (Some [(''.'', dot), (''..'', dotdot), (nameA, SrcFile fdA bytes all_succeed),
                 (nameB, SrcFile fdB bytes all_succeed)])
          (sourcePath b0) (destPath b0) (fs1, b0) = Some (True, fs2, bD)"
    by (subst Dedup_BackupDirectory.simps)
       (simp add: FindFirstFileA_def sp(6) cdd entries del: Dedup_entries.simps)
  have idx: "fileHashMap (index bD) = map_assign nameB H [(nameA, H)]" "indexPath (index bD) = IXr"
    by (simp_all add: bD_def bC_def bB_def bA_def AddFile_def sp)
  define fs3 where "fs3 = fs2\<lparr>nodes := (nodes fs2)(IX \<mapsto> RegularFile (index_text (fileHashMap (index bD))))\<rparr>"
  have save: "DeduplicationIndex_Save fs2 (index bD) = (True, fs3)"
    using under neq root'
    by (simp add: DeduplicationIndex_Save_def write_file_def idx(2) canon dn fs1_def fs2_def fs3_def)
  have run: "Dedup_StartBackup sha256
          (Some (SrcDir (Some [(''.'', dot), (''..'', dotdot),
                               (nameA, SrcFile fdA bytes all_succeed),
                               (nameB, SrcFile fdB bytes all_succeed)])))
          (fs, b0) = Some (True, fs3, bD)"
    by (simp add: Dedup_StartBackup_def init load walk save)
  have nodes3: "nodes fs3 = (nodes fs)(SD \<mapsto> Directory, BL \<mapsto> RegularFile bytes,
          IX \<mapsto> RegularFile (index_text (fileHashMap (index bD))))"
    by (simp add: fs3_def fs2_def fs1_def)
  have rc: "referenceCount (store bD) = [(H, 2)]"
    by (simp add: bD_def bC_def bB_def bA_def sp IncrementReference_def Let_def
          map_subscript_def map_value_def)
  have one_blob: "(nodes fs3 q \<noteq> None) = (q = BL)" if "take (length D + 14) q = SD @ [BSLASH]" for q
  proof -
    have q: "take (Suc (length D)) q = D @ [BSLASH]"
    proof -
      have "take (Suc (length D)) (take (length D + 14) q) = take (Suc (length D)) (SD @ [BSLASH])"
        using that by simp
      then show ?thesis
        by (simp add: SD_def min_def)
    qed
    then have "nodes fs q = None"
      using empty by (simp add: D_def)
    moreover have "q \<noteq> SD" "q \<noteq> IX"
      using that by (auto simp: SD_def IX_def)
    ultimately show ?thesis
      by (simp add: nodes3)
  qed
  have stats: "filesCopied (stats bD) = 1" "filesDeduped (stats bD) = 1" "errors (stats bD) = 0"
    by (simp_all add: bD_def bC_def bB_def bA_def sp BackupStats_init_def)
  have maps: "map_of (fileHashMap (index bD)) nameA = Some H" "map_of (fileHashMap (index bD)) nameB = Some H"
      "length (fileHashMap (index bD)) = 2"
    using names by (simp_all add: idx)
  have one: "\<forall>q. take (length D + 14) q = SD @ [BSLASH] \<longrightarrow> (nodes fs3 q \<noteq> None) = (q = BL)"
    using one_blob by blast
  have "GetReferenceCount (store bD) H = 2"
    by (simp add: GetReferenceCount_def rc)
  with run nodes3 one rc stats maps show ?thesis
    unfolding b0_def SD_def BL_def IX_def H_def D_def
    by (intro exI [of _ fs3] exI [of _ bD]) (simp only: append_assoc simp_thms)
qed


theorem two_identical_files_witness:
  "\<exists>fs' b'.
      Dedup_StartBackup (\<lambda>bytes. 0)
          (Some (SrcDir (Some [(''.'', (SrcDir None)), (''..'', (SrcDir None)),
                               (''a.txt'', SrcFile \<lparr>nFileSizeLow = 5, nFileSizeHigh = 0, dwLowDateTime = 0, dwHighDateTime = 0\<rparr> ''hello'' all_succeed),
                               (''b.txt'', SrcFile \<lparr>nFileSizeLow = 5, nFileSizeHigh = 0, dwLowDateTime = 0, dwHighDateTime = 0\<rparr> ''hello'' all_succeed)])))
          (\<lparr>nodes = [(''D:'' @ [BSLASH] @ ''bk'') \<mapsto> Directory], denied = (\<lambda>p. False)\<rparr>, DeduplicationBackup_new (''C:'' @ [BSLASH] @ ''src'') (''D:'' @ [BSLASH] @ ''bk'' @ [BSLASH])) = Some (True, fs', b')
      \<and> nodes fs' =
          (nodes (\<lparr>nodes = [(''D:'' @ [BSLASH] @ ''bk'') \<mapsto> Directory], denied = (\<lambda>p. False)\<rparr>))
            ((''D:'' @ [BSLASH] @ ''bk'') @ [BSLASH] @ ''.dedup_store'' \<mapsto> Directory,
             (''D:'' @ [BSLASH] @ ''bk'') @ [BSLASH] @ ''.dedup_store'' @ [BSLASH] @ CalculateHash (\<lambda>bytes. 0) all_succeed ''hello'' @ ''.bin''
               \<mapsto> RegularFile ''hello'',
             (''D:'' @ [BSLASH] @ ''bk'') @ [BSLASH] @ ''.dedup_index.txt'' \<mapsto> RegularFile (index_text (fileHashMap (index b'))))
      \<and> (\<forall>q. take (length (''D:'' @ [BSLASH] @ ''bk'') + 14) q = (''D:'' @ [BSLASH] @ ''bk'') @ [BSLASH] @ ''.dedup_store'' @ [BSLASH] \<longrightarrow>
             (nodes fs' q \<noteq> None) =
             (q = (''D:'' @ [BSLASH] @ ''bk'') @ [BSLASH] @ ''.dedup_store'' @ [BSLASH] @ CalculateHash (\<lambda>bytes. 0) all_succeed ''hello'' @ ''.bin''))
      \<and> referenceCount (store b') = [(CalculateHash (\<lambda>bytes. 0) all_succeed ''hello'', 2)]
      \<and> GetReferenceCount (store b') (CalculateHash (\<lambda>bytes. 0) all_succeed ''hello'') = 2
      \<and> map_of (fileHashMap (index b')) ''a.txt'' = Some (CalculateHash (\<lambda>bytes. 0) all_succeed ''hello'')
      \<and> map_of (fileHashMap (index b')) ''b.txt'' = Some (CalculateHash (\<lambda>bytes. 0) all_succeed ''hello'')
      \<and> length (fileHashMap (index b')) = 2
      \<and> filesCopied (stats b') = 1
      \<and> filesDeduped (stats b') = 1
      \<and> errors (stats b') = 0"
proof -
  have c: "canon (''D:'' @ [BSLASH] @ ''bk'' @ [BSLASH]) = ''D:'' @ [BSLASH] @ ''bk''"
    by (simp add: canon_def components_def is_sep_def)
  have a: "canon (''D:'' @ [BSLASH] @ ''bk'' @ [BSLASH]) \<noteq> []" "''a.txt'' \<noteq> ''b.txt''"
      "''a.txt'' \<noteq> ''.''" "''a.txt'' \<noteq> ''..''" "''b.txt'' \<noteq> ''.''" "''b.txt'' \<noteq> ''..''"
      "nodes (\<lparr>nodes = [(''D:'' @ [BSLASH] @ ''bk'') \<mapsto> Directory], denied = (\<lambda>p. False)\<rparr>) (canon (''D:'' @ [BSLASH] @ ''bk'' @ [BSLASH])) = Some Directory"
    using c by simp_all
  have b: "\<forall>q. take (Suc (length (canon (''D:'' @ [BSLASH] @ ''bk'' @ [BSLASH])))) q = canon (''D:'' @ [BSLASH] @ ''bk'' @ [BSLASH]) @ [BSLASH] \<longrightarrow>
             nodes (\<lparr>nodes = [(''D:'' @ [BSLASH] @ ''bk'') \<mapsto> Directory], denied = (\<lambda>p. False)\<rparr>) q = None \<and> \<not> denied (\<lparr>nodes = [(''D:'' @ [BSLASH] @ ''bk'') \<mapsto> Directory], denied = (\<lambda>p. False)\<rparr>) q"
    unfolding c by auto
  show ?thesis
    by (rule two_identical_files [OF a b, unfolded c])
qed


subsection \<open>The outcome of a run of phase 3\<close>

text \<open>
  C3 says that a run whose source root does not exist fails before any entry is processed
  and creates no directory in the destination. The run of phase 3 does fail and processes
  nothing, but \<^verbatim>\<open>StartBackup\<close> calls \<^verbatim>\<open>store.Initialize()\<close> before it looks at the source:
  with the destination \<^verbatim>\<open>D:\bk\<close> not yet there, the failed run leaves the directories
  \<^verbatim>\<open>D:\bk\<close> and \<^verbatim>\<open>D:\bk\.dedup_store\<close> behind.
\<close>

theorem missing_source_creates_directories:
  "Dedup_StartBackup sha256 None
     (\<lparr>nodes = [''D:'' \<mapsto> Directory], denied = (\<lambda>p. False)\<rparr>,
      DeduplicationBackup_new (''C:'' @ [BSLASH] @ ''missing'') (''D:'' @ [BSLASH] @ ''bk''))
   = Some (False,
       \<lparr>nodes = [''D:'' \<mapsto> Directory,
                 ''D:'' @ [BSLASH] @ ''bk'' \<mapsto> Directory,
                 ''D:'' @ [BSLASH] @ ''bk'' @ [BSLASH] @ ''.dedup_store'' \<mapsto> Directory],
        denied = (\<lambda>p. False)\<rparr>,
       DeduplicationBackup_new (''C:'' @ [BSLASH] @ ''missing'') (''D:'' @ [BSLASH] @ ''bk''))"
  by (simp add: Dedup_StartBackup_def Initialize_def DeduplicationBackup_new_def
        DeduplicationStore_new_def DeduplicationIndex_new_def NormalizePath_def
        GetFileAttributesA_def CreateDirectoryA_def canon_def components_def dirname_def is_sep_def Let_def
        DeduplicationIndex_Load_def read_file_def)






lemma last_filter_upt:
  assumes "m < n" "P m" "\<forall>i. m < i \<and> i < n \<longrightarrow> \<not> P i"
  shows "filter P [0..<n] \<noteq> [] \<and> last (filter P [0..<n]) = m"
proof -
  have "[0..<n] = [0..<m] @ m # [Suc m..<n]"
    using assms(1) by (metis le_add1 less_imp_add_positive upt_add_eq_append upt_conv_Cons plus_nat.add_0)
  moreover have "filter P [Suc m..<n] = []"
    using assms(3) by (auto simp: filter_empty_conv)
  ultimately show ?thesis
    using assms(2) by simp
qed

lemma find_last_of_sep_entry:
  assumes "is_sep s" "\<forall>c\<in>set name. \<not> is_sep c" "name \<noteq> []"
  shows "find_last_of_sep (dd @ [s] @ name @ [BSLASH]) = Some (length dd)"
proof -
  let ?path = "dd @ [s] @ name @ [BSLASH]"
  let ?n = "Suc (length dd + length name)"
  have range: "min (Suc (length ?path - 2)) (length ?path) = ?n" "\<not> length ?path < 2"
    using assms(3) by (simp_all add: min_def)
  have at: "is_sep (?path ! length dd)"
    using assms(1) by (simp add: nth_append)
  have "\<not> is_sep (?path ! i)" if "length dd < i \<and> i < ?n" for i
  proof -
    have "?path ! i = name ! (i - Suc (length dd))"
      using that by (auto simp: nth_append nth_Cons')
    moreover have "i - Suc (length dd) < length name"
      using that by auto
    ultimately show ?thesis
      using assms(2) by (metis nth_mem)
  qed
  then have "filter (\<lambda>i. is_sep (?path ! i)) [0..<?n] \<noteq> []
      \<and> last (filter (\<lambda>i. is_sep (?path ! i)) [0..<?n]) = length dd"
    using at by (intro last_filter_upt) auto
  then show ?thesis
    unfolding find_last_of_sep_def Let_def range using range(2) by (simp del: append.simps)
qed

text \<open>The destination path of a subdirectory entry, as \<^verbatim>\<open>CreateDestDirectory\<close> sees it.\<close>

lemma entry_dest_paths:
  assumes "destDir \<noteq> []" "is_sep (last destDir)" "\<forall>c\<in>set fileName. \<not> is_sep c" "fileName \<noteq> []"
  shows "canon (destDir @ fileName @ [BSLASH]) = canon (destDir @ fileName)"
    and "dirname (destDir @ fileName @ [BSLASH]) = canon destDir"
    and "\<exists>pos. find_last_of_sep (destDir @ fileName @ [BSLASH]) = Some pos
           \<and> canon (take pos (destDir @ fileName @ [BSLASH])) = canon destDir"
proof -
  define dd where "dd = butlast destDir"
  define s where "s = last destDir"
  have dd: "destDir = dd @ [s]" and s: "is_sep s"
    using assms(1,2) by (simp_all add: dd_def s_def)
  have sep: "is_sep BSLASH"
    by (simp add: is_sep_def)
  have cd: "canon destDir = canon dd"
    using canon_trailing [OF s, of dd] by (simp add: dd)
  show "canon (destDir @ fileName @ [BSLASH]) = canon (destDir @ fileName)"
    using canon_trailing [OF sep, of "destDir @ fileName"] by simp
  show "dirname (destDir @ fileName @ [BSLASH]) = canon destDir"
    using dirname_trailing [OF sep, of "destDir @ fileName"]
      dirname_child [OF s assms(3,4), of dd] cd by (simp add: dd)
  have "find_last_of_sep (destDir @ fileName @ [BSLASH]) = Some (length dd)"
    using find_last_of_sep_entry [OF s assms(3,4), of dd] by (simp add: dd)
  moreover have "canon (take (length dd) (destDir @ fileName @ [BSLASH])) = canon destDir"
    using cd by (simp add: dd)
  ultimately show "\<exists>pos. find_last_of_sep (destDir @ fileName @ [BSLASH]) = Some pos
           \<and> canon (take pos (destDir @ fileName @ [BSLASH])) = canon destDir"
    by blast
qed



lemma CreateDestDirectory_is_file:
  "nodes fs (canon path) = Some (RegularFile content) \<Longrightarrow>
     CreateDestDirectory path (fs, b) = Some (True, fs, b)"
  by (subst CreateDestDirectory.simps) (simp add: GetFileAttributesA_def CreateDirectoryA_def)






subsection \<open>Failures the walk does not detect\<close>

text \<open>
  A failing \<^verbatim>\<open>ReadFile\<close> only ends the read loop of \<^verbatim>\<open>CalculateHash\<close>. With the first
  failure in round \<open>n\<close> the fingerprint is that of the first \<open>8192 * n\<close> bytes of the file
  and is not empty (\<open>CalculateHash_read_error\<close>), so the entry goes the way of a file that
  was hashed: it is recorded under that fingerprint, without an error, when a blob of that
  name is in the store, and is copied under that name otherwise.
\<close>

lemma Dedup_entries_deduplicated:
  assumes "fileName \<noteq> ''.''" "fileName \<noteq> ''..''" "CalculateHash sha256 calls bytes \<noteq> []"
    and "ContentExists fs (store b) (CalculateHash sha256 calls bytes)"
  shows "Dedup_entries sha256 ((fileName, SrcFile findData bytes calls) # rest) sourceDir destDir (fs, b) =
     Dedup_entries sha256 rest sourceDir destDir
       (fs, b\<lparr>stats := (stats b)\<lparr>filesProcessed := filesProcessed (stats b) + 1,
                                  totalBytes := totalBytes (stats b) + GetFileSize findData,
                                  filesDeduped := filesDeduped (stats b) + 1,
                                  bytesDeduplicated := bytesDeduplicated (stats b) + GetFileSize findData\<rparr>,
               store := IncrementReference (store b) (CalculateHash sha256 calls bytes),
               index := AddFile (index b) (GetRelativePath (sourceDir @ fileName) (sourcePath b))
                          (CalculateHash sha256 calls bytes)\<rparr>)"
  using assms
  by (simp add: Dedup_entries_file Dedup_file_deduplicated del: Dedup_entries.simps)

lemma Dedup_entries_stored:
  assumes "fileName \<noteq> ''.''" "fileName \<noteq> ''..''" "CalculateHash sha256 calls bytes \<noteq> []"
    and "\<not> ContentExists fs (store b) (CalculateHash sha256 calls bytes)"
    and "CopyFileA fs calls bytes (GetContentPath (store b) (CalculateHash sha256 calls bytes)) = Some fs'"
  shows "Dedup_entries sha256 ((fileName, SrcFile findData bytes calls) # rest) sourceDir destDir (fs, b) =
     Dedup_entries sha256 rest sourceDir destDir
       (fs', b\<lparr>stats := (stats b)\<lparr>filesProcessed := filesProcessed (stats b) + 1,
                                   totalBytes := totalBytes (stats b) + GetFileSize findData,
                                   filesCopied := filesCopied (stats b) + 1,
                                   bytesCopied := bytesCopied (stats b) + GetFileSize findData\<rparr>,
                store := (store b)\<lparr>referenceCount :=
                           map_assign (CalculateHash sha256 calls bytes) 1 (referenceCount (store b))\<rparr>,
                index := AddFile (index b) (GetRelativePath (sourceDir @ fileName) (sourcePath b))
                           (CalculateHash sha256 calls bytes)\<rparr>)"
  using assms
  by (simp add: Dedup_entries_file Dedup_file_stored del: Dedup_entries.simps)

text \<open>
  Whatever the digest function, a file of five bytes whose first \<^verbatim>\<open>ReadFile\<close> fails gets
  the fingerprint of the empty file. With a blob of the empty file in the store, the entry
  is recorded as deduplicated against it and no error is counted.
\<close>

lemma read_error_is_recorded_as_deduplicated:
  "CalculateHash sha256 (all_succeed\<lparr>ReadFile_ok := (\<lambda>n. False)\<rparr>) ''hello'' = CalculateHash sha256 all_succeed []
   \<and> Dedup_entries sha256 [(''r.txt'', SrcFile \<lparr>nFileSizeLow = 5, nFileSizeHigh = 0, dwLowDateTime = 0, dwHighDateTime = 0\<rparr> ''hello'' (all_succeed\<lparr>ReadFile_ok := (\<lambda>n. False)\<rparr>))] (sourcePath (DeduplicationBackup_new (''C:'' @ [BSLASH] @ ''src'') (''D:'' @ [BSLASH] @ ''bk''))) (destPath (DeduplicationBackup_new (''C:'' @ [BSLASH] @ ''src'') (''D:'' @ [BSLASH] @ ''bk''))) (\<lparr>nodes = [(''D:'' @ [BSLASH] @ ''bk'') \<mapsto> Directory, (''D:'' @ [BSLASH] @ ''bk'') @ [BSLASH] @ ''.dedup_store'' \<mapsto> Directory, (''D:'' @ [BSLASH] @ ''bk'') @ [BSLASH] @ ''.dedup_store'' @ [BSLASH] @ CalculateHash sha256 all_succeed [] @ ''.bin'' \<mapsto> RegularFile []], denied = (\<lambda>p. True)\<rparr>, (DeduplicationBackup_new (''C:'' @ [BSLASH] @ ''src'') (''D:'' @ [BSLASH] @ ''bk'')))
     = Some (\<lparr>nodes = [(''D:'' @ [BSLASH] @ ''bk'') \<mapsto> Directory, (''D:'' @ [BSLASH] @ ''bk'') @ [BSLASH] @ ''.dedup_store'' \<mapsto> Directory, (''D:'' @ [BSLASH] @ ''bk'') @ [BSLASH] @ ''.dedup_store'' @ [BSLASH] @ CalculateHash sha256 all_succeed [] @ ''.bin'' \<mapsto> RegularFile []], denied = (\<lambda>p. True)\<rparr>, ((DeduplicationBackup_new (''C:'' @ [BSLASH] @ ''src'') (''D:'' @ [BSLASH] @ ''bk''))\<lparr>stats := BackupStats_init\<lparr>filesProcessed := 1, totalBytes := 5, filesDeduped := 1, bytesDeduplicated := 5\<rparr>, store := (store (DeduplicationBackup_new (''C:'' @ [BSLASH] @ ''src'') (''D:'' @ [BSLASH] @ ''bk'')))\<lparr>referenceCount := [(CalculateHash sha256 all_succeed [], 1)]\<rparr>, index := (index (DeduplicationBackup_new (''C:'' @ [BSLASH] @ ''src'') (''D:'' @ [BSLASH] @ ''bk'')))\<lparr>fileHashMap := [(''r.txt'', CalculateHash sha256 all_succeed [])]\<rparr>\<rparr>))"
proof -
  have paths: "destPath (DeduplicationBackup_new (''C:'' @ [BSLASH] @ ''src'') (''D:'' @ [BSLASH] @ ''bk'')) = (''D:'' @ [BSLASH] @ ''bk'') @ [BSLASH]" "sourcePath (DeduplicationBackup_new (''C:'' @ [BSLASH] @ ''src'') (''D:'' @ [BSLASH] @ ''bk'')) = (''C:'' @ [BSLASH] @ ''src'') @ [BSLASH]"
      "storePath (store (DeduplicationBackup_new (''C:'' @ [BSLASH] @ ''src'') (''D:'' @ [BSLASH] @ ''bk''))) = NormalizePath (''D:'' @ [BSLASH] @ ''bk'') @ ''.dedup_store'' @ [BSLASH]"
      "indexPath (index (DeduplicationBackup_new (''C:'' @ [BSLASH] @ ''src'') (''D:'' @ [BSLASH] @ ''bk''))) = (''D:'' @ [BSLASH] @ ''bk'') @ [BSLASH] @ ''.dedup_index.txt''"
    by (simp_all add: DeduplicationBackup_new_def DeduplicationStore_new_def
          DeduplicationIndex_new_def NormalizePath_def)
  have st: "stats (DeduplicationBackup_new (''C:'' @ [BSLASH] @ ''src'') (''D:'' @ [BSLASH] @ ''bk'')) = BackupStats_init" "referenceCount (store (DeduplicationBackup_new (''C:'' @ [BSLASH] @ ''src'') (''D:'' @ [BSLASH] @ ''bk''))) = []"
      "fileHashMap (index (DeduplicationBackup_new (''C:'' @ [BSLASH] @ ''src'') (''D:'' @ [BSLASH] @ ''bk''))) = []"
      "store ((DeduplicationBackup_new (''C:'' @ [BSLASH] @ ''src'') (''D:'' @ [BSLASH] @ ''bk''))\<lparr>stats := BackupStats_init\<lparr>filesProcessed := 2, totalBytes := 5, errors := 2\<rparr>\<rparr>) = store (DeduplicationBackup_new (''C:'' @ [BSLASH] @ ''src'') (''D:'' @ [BSLASH] @ ''bk''))"
    by (simp_all add: DeduplicationBackup_new_def DeduplicationStore_new_def
          DeduplicationIndex_new_def)
  have cd: "canon (''D:'' @ [BSLASH] @ ''bk'') = (''D:'' @ [BSLASH] @ ''bk'')"
    by (simp add: canon_def components_def is_sep_def)
  have cdne: "canon (''D:'' @ [BSLASH] @ ''bk'') \<noteq> []"
    using cd by simp
  have blob: "canon (GetContentPath (store (DeduplicationBackup_new (''C:'' @ [BSLASH] @ ''src'') (''D:'' @ [BSLASH] @ ''bk''))) h) = (''D:'' @ [BSLASH] @ ''bk'') @ [BSLASH] @ ''.dedup_store'' @ [BSLASH] @ h @ ''.bin''"
    if "\<forall>c\<in>set h. \<not> is_sep c" for h
    unfolding GetContentPath_def paths(3) using dest_paths(8) [OF cdne that] cd by simp
  have nosep: "\<forall>c\<in>set (CalculateHash sha256 calls bytes). \<not> is_sep c" for calls bytes
    using CalculateHash_no_sep by blast
  have same: "(DeduplicationBackup_new (''C:'' @ [BSLASH] @ ''src'') (''D:'' @ [BSLASH] @ ''bk''))\<lparr>index := index (DeduplicationBackup_new (''C:'' @ [BSLASH] @ ''src'') (''D:'' @ [BSLASH] @ ''bk'')), store := store (DeduplicationBackup_new (''C:'' @ [BSLASH] @ ''src'') (''D:'' @ [BSLASH] @ ''bk''))\<rparr> = (DeduplicationBackup_new (''C:'' @ [BSLASH] @ ''src'') (''D:'' @ [BSLASH] @ ''bk''))"
    by simp
  have h: "CalculateHash sha256 (all_succeed\<lparr>ReadFile_ok := (\<lambda>n. False)\<rparr>) ''hello'' = CalculateHash sha256 all_succeed []"
    using CalculateHash_read_error [of "(all_succeed\<lparr>ReadFile_ok := (\<lambda>n. False)\<rparr>)" 0 "sha256" "''hello''"]
    by (simp add: all_succeed_def)
  have ceB: "ContentExists (\<lparr>nodes = [(''D:'' @ [BSLASH] @ ''bk'') \<mapsto> Directory, (''D:'' @ [BSLASH] @ ''bk'') @ [BSLASH] @ ''.dedup_store'' \<mapsto> Directory, (''D:'' @ [BSLASH] @ ''bk'') @ [BSLASH] @ ''.dedup_store'' @ [BSLASH] @ CalculateHash sha256 all_succeed [] @ ''.bin'' \<mapsto> RegularFile []], denied = (\<lambda>p. True)\<rparr>) (store (DeduplicationBackup_new (''C:'' @ [BSLASH] @ ''src'') (''D:'' @ [BSLASH] @ ''bk''))) (CalculateHash sha256 all_succeed [])"
    using blob [OF nosep, of all_succeed "[]"]
    by (simp add: ContentExists_def GetFileAttributesA_def)
  have r: "Dedup_entries sha256 [(''r.txt'', SrcFile \<lparr>nFileSizeLow = 5, nFileSizeHigh = 0, dwLowDateTime = 0, dwHighDateTime = 0\<rparr> ''hello'' (all_succeed\<lparr>ReadFile_ok := (\<lambda>n. False)\<rparr>))] (sourcePath (DeduplicationBackup_new (''C:'' @ [BSLASH] @ ''src'') (''D:'' @ [BSLASH] @ ''bk''))) (destPath (DeduplicationBackup_new (''C:'' @ [BSLASH] @ ''src'') (''D:'' @ [BSLASH] @ ''bk''))) (\<lparr>nodes = [(''D:'' @ [BSLASH] @ ''bk'') \<mapsto> Directory, (''D:'' @ [BSLASH] @ ''bk'') @ [BSLASH] @ ''.dedup_store'' \<mapsto> Directory, (''D:'' @ [BSLASH] @ ''bk'') @ [BSLASH] @ ''.dedup_store'' @ [BSLASH] @ CalculateHash sha256 all_succeed [] @ ''.bin'' \<mapsto> RegularFile []], denied = (\<lambda>p. True)\<rparr>, (DeduplicationBackup_new (''C:'' @ [BSLASH] @ ''src'') (''D:'' @ [BSLASH] @ ''bk'')))
            = Dedup_entries sha256 [] (sourcePath (DeduplicationBackup_new (''C:'' @ [BSLASH] @ ''src'') (''D:'' @ [BSLASH] @ ''bk''))) (destPath (DeduplicationBackup_new (''C:'' @ [BSLASH] @ ''src'') (''D:'' @ [BSLASH] @ ''bk''))) (\<lparr>nodes = [(''D:'' @ [BSLASH] @ ''bk'') \<mapsto> Directory, (''D:'' @ [BSLASH] @ ''bk'') @ [BSLASH] @ ''.dedup_store'' \<mapsto> Directory, (''D:'' @ [BSLASH] @ ''bk'') @ [BSLASH] @ ''.dedup_store'' @ [BSLASH] @ CalculateHash sha256 all_succeed [] @ ''.bin'' \<mapsto> RegularFile []], denied = (\<lambda>p. True)\<rparr>, ((DeduplicationBackup_new (''C:'' @ [BSLASH] @ ''src'') (''D:'' @ [BSLASH] @ ''bk''))\<lparr>stats := BackupStats_init\<lparr>filesProcessed := 1, totalBytes := 5, filesDeduped := 1, bytesDeduplicated := 5\<rparr>, store := (store (DeduplicationBackup_new (''C:'' @ [BSLASH] @ ''src'') (''D:'' @ [BSLASH] @ ''bk'')))\<lparr>referenceCount := [(CalculateHash sha256 all_succeed [], 1)]\<rparr>, index := (index (DeduplicationBackup_new (''C:'' @ [BSLASH] @ ''src'') (''D:'' @ [BSLASH] @ ''bk'')))\<lparr>fileHashMap := [(''r.txt'', CalculateHash sha256 all_succeed [])]\<rparr>\<rparr>))"
    using Dedup_entries_deduplicated
            [of "''r.txt''" "sha256" "(all_succeed\<lparr>ReadFile_ok := (\<lambda>n. False)\<rparr>)" "''hello''" "\<lparr>nodes = [(''D:'' @ [BSLASH] @ ''bk'') \<mapsto> Directory, (''D:'' @ [BSLASH] @ ''bk'') @ [BSLASH] @ ''.dedup_store'' \<mapsto> Directory, (''D:'' @ [BSLASH] @ ''bk'') @ [BSLASH] @ ''.dedup_store'' @ [BSLASH] @ CalculateHash sha256 all_succeed [] @ ''.bin'' \<mapsto> RegularFile []], denied = (\<lambda>p. True)\<rparr>" "(DeduplicationBackup_new (''C:'' @ [BSLASH] @ ''src'') (''D:'' @ [BSLASH] @ ''bk''))" "\<lparr>nFileSizeLow = 5, nFileSizeHigh = 0, dwLowDateTime = 0, dwHighDateTime = 0\<rparr>" "[]" "sourcePath (DeduplicationBackup_new (''C:'' @ [BSLASH] @ ''src'') (''D:'' @ [BSLASH] @ ''bk''))" "destPath (DeduplicationBackup_new (''C:'' @ [BSLASH] @ ''src'') (''D:'' @ [BSLASH] @ ''bk''))"]
          st ceB CalculateHash_nonempty [of "sha256" "[]"]
    by (simp add: h GetRelativePath_append GetFileSize_def BackupStats_init_def AddFile_def
          IncrementReference_def map_subscript_def map_value_def Let_def
          del: Dedup_entries.simps)
  show ?thesis
    using h r by simp
qed

text \<open>
  \<^verbatim>\<open>CreateDestDirectory\<close> returns true for a path that is a regular file
  (\<^verbatim>\<open>ERROR_ALREADY_EXISTS\<close>), so the walk enters the source directory of that name. For a
  subdirectory met there whose destination is absent, \<^verbatim>\<open>CreateDirectoryA\<close> reports
  \<^verbatim>\<open>ERROR_PATH_NOT_FOUND\<close>, the call on the parent path returns true without changing
  anything, and the call on the path is repeated from the same state: a returning call
  cannot have started there, and the loop over the entries does not return either.
\<close>

lemma CreateDestDirectory_result:
  "CreateDestDirectory path st = Some r \<Longrightarrow>
     (\<forall>content. nodes (fst st) (canon path) = Some (RegularFile content) \<longrightarrow> r = (True, st))
     \<and> \<not> (nodes (fst st) (canon path) = None
          \<and> (\<exists>content. nodes (fst st) (dirname path) = Some (RegularFile content))
          \<and> (\<exists>pos. find_last_of_sep path = Some pos \<and> canon (take pos path) = dirname path))"
proof (induction path st r rule: CreateDestDirectory.raw_induct [rotated -1, consumes 1])
  case (1 f path st r)
  obtain fs b where st: "st = (fs, b)"
    by (cases st)
  show ?case
  proof (intro conjI allI impI notI)
    fix content
    assume "nodes (fst st) (canon path) = Some (RegularFile content)"
    then show "r = (True, st)"
      using 1(2) by (simp add: st GetFileAttributesA_def CreateDirectoryA_def)
  next
    assume blocked: "nodes (fst st) (canon path) = None
          \<and> (\<exists>content. nodes (fst st) (dirname path) = Some (RegularFile content))
          \<and> (\<exists>pos. find_last_of_sep path = Some pos \<and> canon (take pos path) = dirname path)"
    then obtain content pos where b:
      "nodes fs (canon path) = None" "nodes fs (dirname path) = Some (RegularFile content)"
      "find_last_of_sep path = Some pos" "canon (take pos path) = dirname path"
      by (auto simp: st)
    have bind: "Option.bind (f (take pos path) (fs, b))
            (\<lambda>(ok, st'). if ok then f path st' else Some (False, st')) = Some r"
      using 1(2) b by (simp add: st GetFileAttributesA_def CreateDirectoryA_def)
    then obtain r1 where r1: "f (take pos path) (fs, b) = Some r1"
      by (cases "f (take pos path) (fs, b)") auto
    have "r1 = (True, fs, b)"
      using 1(1) [OF r1] b by simp
    with bind r1 have "f path (fs, b) = Some r"
      by simp
    then show False
      using 1(1) [of path "(fs, b)" r] blocked by (simp add: st)
  qed
qed

lemma CreateDestDirectory_blocked:
  assumes "nodes fs (canon path) = None" "nodes fs (dirname path) = Some (RegularFile content)"
    "find_last_of_sep path = Some pos" "canon (take pos path) = dirname path"
  shows "CreateDestDirectory path (fs, b) = None"
proof (cases "CreateDestDirectory path (fs, b)")
  case None
  then show ?thesis .
next
  case (Some r)
  then show ?thesis
    using CreateDestDirectory_result [OF Some] assms by auto
qed

lemma Dedup_BackupDirectory_no_return:
  "FindFirstFileA listing \<noteq> None \<Longrightarrow> CreateDestDirectory destDir st = None \<Longrightarrow>
     Dedup_BackupDirectory sha256 listing sourceDir destDir st = None"
  by (subst Dedup_BackupDirectory.simps) auto

lemma Dedup_entries_blocked:
  assumes "fileName \<noteq> ''.''" "fileName \<noteq> ''..''" "\<forall>c\<in>set fileName. \<not> is_sep c" "fileName \<noteq> []"
    and "destDir \<noteq> []" "is_sep (last destDir)" "FindFirstFileA listing \<noteq> None"
    and "nodes fs (canon (destDir @ fileName)) = None"
    and "nodes fs (canon destDir) = Some (RegularFile content)"
  shows "Dedup_entries sha256 ((fileName, SrcDir listing) # rest) sourceDir destDir (fs, b) = None"
proof -
  let ?b1 = "b\<lparr>stats := (stats b)\<lparr>filesProcessed := filesProcessed (stats b) + 1\<rparr>\<rparr>"
  obtain pos where pos: "find_last_of_sep (destDir @ fileName @ [BSLASH]) = Some pos"
      "canon (take pos (destDir @ fileName @ [BSLASH])) = canon destDir"
    using entry_dest_paths(3) [OF assms(5,6,3,4)] by blast
  have "CreateDestDirectory (destDir @ fileName @ [BSLASH]) (fs, ?b1) = None"
    using assms(8,9) entry_dest_paths(1,2) [OF assms(5,6,3,4)] pos
    by (intro CreateDestDirectory_blocked [where content = content and pos = pos]) simp_all
  then show ?thesis
    using assms(1,2,7)
    by (simp add: Dedup_entries_dir Dedup_BackupDirectory_no_return del: Dedup_entries.simps)
qed

text \<open>
  The destination holds a regular file \<^verbatim>\<open>D:\bk\sub\<close>; the source has a directory
  \<^verbatim>\<open>sub\<close> with a subdirectory \<^verbatim>\<open>x\<close>, and a file after it. The run does not return.
\<close>

lemma blocked_destination_run_does_not_return:
  "Dedup_StartBackup sha256 (Some (SrcDir (Some [(''.'', SrcDir None), (''..'', SrcDir None), (''sub'', SrcDir (Some [(''.'', SrcDir None), (''..'', SrcDir None), (''x'', SrcDir (Some [(''.'', SrcDir None)]))])), (''z.txt'', SrcFile \<lparr>nFileSizeLow = 5, nFileSizeHigh = 0, dwLowDateTime = 0, dwHighDateTime = 0\<rparr> ''hello'' all_succeed)]))) (\<lparr>nodes = [(''D:'' @ [BSLASH] @ ''bk'') \<mapsto> Directory, (''D:'' @ [BSLASH] @ ''bk'') @ [BSLASH] @ ''.dedup_store'' \<mapsto> Directory, (''D:'' @ [BSLASH] @ ''bk'') @ [BSLASH] @ ''sub'' \<mapsto> RegularFile ''x''], denied = (\<lambda>p. False)\<rparr>, (DeduplicationBackup_new (''C:'' @ [BSLASH] @ ''src'') (''D:'' @ [BSLASH] @ ''bk''))) = None"
proof -
  have paths: "destPath (DeduplicationBackup_new (''C:'' @ [BSLASH] @ ''src'') (''D:'' @ [BSLASH] @ ''bk'')) = (''D:'' @ [BSLASH] @ ''bk'') @ [BSLASH]" "sourcePath (DeduplicationBackup_new (''C:'' @ [BSLASH] @ ''src'') (''D:'' @ [BSLASH] @ ''bk'')) = (''C:'' @ [BSLASH] @ ''src'') @ [BSLASH]"
      "storePath (store (DeduplicationBackup_new (''C:'' @ [BSLASH] @ ''src'') (''D:'' @ [BSLASH] @ ''bk''))) = NormalizePath (''D:'' @ [BSLASH] @ ''bk'') @ ''.dedup_store'' @ [BSLASH]"
      "indexPath (index (DeduplicationBackup_new (''C:'' @ [BSLASH] @ ''src'') (''D:'' @ [BSLASH] @ ''bk''))) = (''D:'' @ [BSLASH] @ ''bk'') @ [BSLASH] @ ''.dedup_index.txt''"
    by (simp_all add: DeduplicationBackup_new_def DeduplicationStore_new_def
          DeduplicationIndex_new_def NormalizePath_def)
  have st: "stats (DeduplicationBackup_new (''C:'' @ [BSLASH] @ ''src'') (''D:'' @ [BSLASH] @ ''bk'')) = BackupStats_init" "referenceCount (store (DeduplicationBackup_new (''C:'' @ [BSLASH] @ ''src'') (''D:'' @ [BSLASH] @ ''bk''))) = []"
      "fileHashMap (index (DeduplicationBackup_new (''C:'' @ [BSLASH] @ ''src'') (''D:'' @ [BSLASH] @ ''bk''))) = []"
      "store ((DeduplicationBackup_new (''C:'' @ [BSLASH] @ ''src'') (''D:'' @ [BSLASH] @ ''bk''))\<lparr>stats := BackupStats_init\<lparr>filesProcessed := 2, totalBytes := 5, errors := 2\<rparr>\<rparr>) = store (DeduplicationBackup_new (''C:'' @ [BSLASH] @ ''src'') (''D:'' @ [BSLASH] @ ''bk''))"
    by (simp_all add: DeduplicationBackup_new_def DeduplicationStore_new_def
          DeduplicationIndex_new_def)
  have cd: "canon (''D:'' @ [BSLASH] @ ''bk'') = (''D:'' @ [BSLASH] @ ''bk'')"
    by (simp add: canon_def components_def is_sep_def)
  have cdne: "canon (''D:'' @ [BSLASH] @ ''bk'') \<noteq> []"
    using cd by simp
  have blob: "canon (GetContentPath (store (DeduplicationBackup_new (''C:'' @ [BSLASH] @ ''src'') (''D:'' @ [BSLASH] @ ''bk''))) h) = (''D:'' @ [BSLASH] @ ''bk'') @ [BSLASH] @ ''.dedup_store'' @ [BSLASH] @ h @ ''.bin''"
    if "\<forall>c\<in>set h. \<not> is_sep c" for h
    unfolding GetContentPath_def paths(3) using dest_paths(8) [OF cdne that] cd by simp
  have nosep: "\<forall>c\<in>set (CalculateHash sha256 calls bytes). \<not> is_sep c" for calls bytes
    using CalculateHash_no_sep by blast
  have same: "(DeduplicationBackup_new (''C:'' @ [BSLASH] @ ''src'') (''D:'' @ [BSLASH] @ ''bk''))\<lparr>index := index (DeduplicationBackup_new (''C:'' @ [BSLASH] @ ''src'') (''D:'' @ [BSLASH] @ ''bk'')), store := store (DeduplicationBackup_new (''C:'' @ [BSLASH] @ ''src'') (''D:'' @ [BSLASH] @ ''bk''))\<rparr> = (DeduplicationBackup_new (''C:'' @ [BSLASH] @ ''src'') (''D:'' @ [BSLASH] @ ''bk''))"
    by simp
  have initC: "Initialize (\<lparr>nodes = [(''D:'' @ [BSLASH] @ ''bk'') \<mapsto> Directory, (''D:'' @ [BSLASH] @ ''bk'') @ [BSLASH] @ ''.dedup_store'' \<mapsto> Directory, (''D:'' @ [BSLASH] @ ''bk'') @ [BSLASH] @ ''sub'' \<mapsto> RegularFile ''x''], denied = (\<lambda>p. False)\<rparr>) (store (DeduplicationBackup_new (''C:'' @ [BSLASH] @ ''src'') (''D:'' @ [BSLASH] @ ''bk''))) = (True, \<lparr>nodes = [(''D:'' @ [BSLASH] @ ''bk'') \<mapsto> Directory, (''D:'' @ [BSLASH] @ ''bk'') @ [BSLASH] @ ''.dedup_store'' \<mapsto> Directory, (''D:'' @ [BSLASH] @ ''bk'') @ [BSLASH] @ ''sub'' \<mapsto> RegularFile ''x''], denied = (\<lambda>p. False)\<rparr>)"
    using paths
    by (simp add: Initialize_def GetFileAttributesA_def NormalizePath_def canon_def components_def
          is_sep_def Let_def)
  have loadC: "DeduplicationIndex_Load (\<lparr>nodes = [(''D:'' @ [BSLASH] @ ''bk'') \<mapsto> Directory, (''D:'' @ [BSLASH] @ ''bk'') @ [BSLASH] @ ''.dedup_store'' \<mapsto> Directory, (''D:'' @ [BSLASH] @ ''bk'') @ [BSLASH] @ ''sub'' \<mapsto> RegularFile ''x''], denied = (\<lambda>p. False)\<rparr>) (index (DeduplicationBackup_new (''C:'' @ [BSLASH] @ ''src'') (''D:'' @ [BSLASH] @ ''bk''))) = (False, index (DeduplicationBackup_new (''C:'' @ [BSLASH] @ ''src'') (''D:'' @ [BSLASH] @ ''bk'')))"
    using paths
    by (simp add: DeduplicationIndex_Load_def read_file_def canon_def components_def is_sep_def)
  have cddC: "CreateDestDirectory (destPath (DeduplicationBackup_new (''C:'' @ [BSLASH] @ ''src'') (''D:'' @ [BSLASH] @ ''bk''))) (\<lparr>nodes = [(''D:'' @ [BSLASH] @ ''bk'') \<mapsto> Directory, (''D:'' @ [BSLASH] @ ''bk'') @ [BSLASH] @ ''.dedup_store'' \<mapsto> Directory, (''D:'' @ [BSLASH] @ ''bk'') @ [BSLASH] @ ''sub'' \<mapsto> RegularFile ''x''], denied = (\<lambda>p. False)\<rparr>, (DeduplicationBackup_new (''C:'' @ [BSLASH] @ ''src'') (''D:'' @ [BSLASH] @ ''bk''))) = Some (True, \<lparr>nodes = [(''D:'' @ [BSLASH] @ ''bk'') \<mapsto> Directory, (''D:'' @ [BSLASH] @ ''bk'') @ [BSLASH] @ ''.dedup_store'' \<mapsto> Directory, (''D:'' @ [BSLASH] @ ''bk'') @ [BSLASH] @ ''sub'' \<mapsto> RegularFile ''x''], denied = (\<lambda>p. False)\<rparr>, (DeduplicationBackup_new (''C:'' @ [BSLASH] @ ''src'') (''D:'' @ [BSLASH] @ ''bk'')))"
    using paths
    by (intro CreateDestDirectory_exists)
       (simp add: GetFileAttributesA_def canon_def components_def is_sep_def)
  have enter: "CreateDestDirectory ((destPath (DeduplicationBackup_new (''C:'' @ [BSLASH] @ ''src'') (''D:'' @ [BSLASH] @ ''bk''))) @ ''sub'' @ [BSLASH]) (\<lparr>nodes = [(''D:'' @ [BSLASH] @ ''bk'') \<mapsto> Directory, (''D:'' @ [BSLASH] @ ''bk'') @ [BSLASH] @ ''.dedup_store'' \<mapsto> Directory, (''D:'' @ [BSLASH] @ ''bk'') @ [BSLASH] @ ''sub'' \<mapsto> RegularFile ''x''], denied = (\<lambda>p. False)\<rparr>, ((DeduplicationBackup_new (''C:'' @ [BSLASH] @ ''src'') (''D:'' @ [BSLASH] @ ''bk''))\<lparr>stats := (stats (DeduplicationBackup_new (''C:'' @ [BSLASH] @ ''src'') (''D:'' @ [BSLASH] @ ''bk'')))\<lparr>filesProcessed := filesProcessed (stats (DeduplicationBackup_new (''C:'' @ [BSLASH] @ ''src'') (''D:'' @ [BSLASH] @ ''bk''))) + 1\<rparr>\<rparr>)) = Some (True, \<lparr>nodes = [(''D:'' @ [BSLASH] @ ''bk'') \<mapsto> Directory, (''D:'' @ [BSLASH] @ ''bk'') @ [BSLASH] @ ''.dedup_store'' \<mapsto> Directory, (''D:'' @ [BSLASH] @ ''bk'') @ [BSLASH] @ ''sub'' \<mapsto> RegularFile ''x''], denied = (\<lambda>p. False)\<rparr>, ((DeduplicationBackup_new (''C:'' @ [BSLASH] @ ''src'') (''D:'' @ [BSLASH] @ ''bk''))\<lparr>stats := (stats (DeduplicationBackup_new (''C:'' @ [BSLASH] @ ''src'') (''D:'' @ [BSLASH] @ ''bk'')))\<lparr>filesProcessed := filesProcessed (stats (DeduplicationBackup_new (''C:'' @ [BSLASH] @ ''src'') (''D:'' @ [BSLASH] @ ''bk''))) + 1\<rparr>\<rparr>))"
    using paths
    by (intro CreateDestDirectory_is_file [where content = "''x''"])
       (simp add: canon_def components_def is_sep_def)
  have stuck: "Dedup_entries sha256 [(''x'', SrcDir (Some [(''.'', SrcDir None)]))] ((sourcePath (DeduplicationBackup_new (''C:'' @ [BSLASH] @ ''src'') (''D:'' @ [BSLASH] @ ''bk''))) @ ''sub'' @ [BSLASH]) ((destPath (DeduplicationBackup_new (''C:'' @ [BSLASH] @ ''src'') (''D:'' @ [BSLASH] @ ''bk''))) @ ''sub'' @ [BSLASH]) (\<lparr>nodes = [(''D:'' @ [BSLASH] @ ''bk'') \<mapsto> Directory, (''D:'' @ [BSLASH] @ ''bk'') @ [BSLASH] @ ''.dedup_store'' \<mapsto> Directory, (''D:'' @ [BSLASH] @ ''bk'') @ [BSLASH] @ ''sub'' \<mapsto> RegularFile ''x''], denied = (\<lambda>p. False)\<rparr>, ((DeduplicationBackup_new (''C:'' @ [BSLASH] @ ''src'') (''D:'' @ [BSLASH] @ ''bk''))\<lparr>stats := (stats (DeduplicationBackup_new (''C:'' @ [BSLASH] @ ''src'') (''D:'' @ [BSLASH] @ ''bk'')))\<lparr>filesProcessed := filesProcessed (stats (DeduplicationBackup_new (''C:'' @ [BSLASH] @ ''src'') (''D:'' @ [BSLASH] @ ''bk''))) + 1\<rparr>\<rparr>)) = None"
    using paths
    by (intro Dedup_entries_blocked [where content = "''x''"])
       (simp_all add: FindFirstFileA_def canon_def components_def is_sep_def)
  have inner: "Dedup_entries sha256 [(''.'', SrcDir None), (''..'', SrcDir None), (''x'', SrcDir (Some [(''.'', SrcDir None)]))] ((sourcePath (DeduplicationBackup_new (''C:'' @ [BSLASH] @ ''src'') (''D:'' @ [BSLASH] @ ''bk''))) @ ''sub'' @ [BSLASH]) ((destPath (DeduplicationBackup_new (''C:'' @ [BSLASH] @ ''src'') (''D:'' @ [BSLASH] @ ''bk''))) @ ''sub'' @ [BSLASH]) (\<lparr>nodes = [(''D:'' @ [BSLASH] @ ''bk'') \<mapsto> Directory, (''D:'' @ [BSLASH] @ ''bk'') @ [BSLASH] @ ''.dedup_store'' \<mapsto> Directory, (''D:'' @ [BSLASH] @ ''bk'') @ [BSLASH] @ ''sub'' \<mapsto> RegularFile ''x''], denied = (\<lambda>p. False)\<rparr>, ((DeduplicationBackup_new (''C:'' @ [BSLASH] @ ''src'') (''D:'' @ [BSLASH] @ ''bk''))\<lparr>stats := (stats (DeduplicationBackup_new (''C:'' @ [BSLASH] @ ''src'') (''D:'' @ [BSLASH] @ ''bk'')))\<lparr>filesProcessed := filesProcessed (stats (DeduplicationBackup_new (''C:'' @ [BSLASH] @ ''src'') (''D:'' @ [BSLASH] @ ''bk''))) + 1\<rparr>\<rparr>)) = None"
    using stuck by (simp add: Dedup_entries_dot del: Dedup_entries.simps)
  have subwalk: "Dedup_BackupDirectory sha256 (Some [(''.'', SrcDir None), (''..'', SrcDir None), (''x'', SrcDir (Some [(''.'', SrcDir None)]))]) ((sourcePath (DeduplicationBackup_new (''C:'' @ [BSLASH] @ ''src'') (''D:'' @ [BSLASH] @ ''bk''))) @ ''sub'' @ [BSLASH]) ((destPath (DeduplicationBackup_new (''C:'' @ [BSLASH] @ ''src'') (''D:'' @ [BSLASH] @ ''bk''))) @ ''sub'' @ [BSLASH]) (\<lparr>nodes = [(''D:'' @ [BSLASH] @ ''bk'') \<mapsto> Directory, (''D:'' @ [BSLASH] @ ''bk'') @ [BSLASH] @ ''.dedup_store'' \<mapsto> Directory, (''D:'' @ [BSLASH] @ ''bk'') @ [BSLASH] @ ''sub'' \<mapsto> RegularFile ''x''], denied = (\<lambda>p. False)\<rparr>, ((DeduplicationBackup_new (''C:'' @ [BSLASH] @ ''src'') (''D:'' @ [BSLASH] @ ''bk''))\<lparr>stats := (stats (DeduplicationBackup_new (''C:'' @ [BSLASH] @ ''src'') (''D:'' @ [BSLASH] @ ''bk'')))\<lparr>filesProcessed := filesProcessed (stats (DeduplicationBackup_new (''C:'' @ [BSLASH] @ ''src'') (''D:'' @ [BSLASH] @ ''bk''))) + 1\<rparr>\<rparr>)) = None"
    by (subst Dedup_BackupDirectory.simps)
       (simp only: FindFirstFileA_def option.case list.case enter prod.case inner simp_thms if_False)
  have outer: "Dedup_entries sha256 [(''.'', SrcDir None), (''..'', SrcDir None), (''sub'', SrcDir (Some [(''.'', SrcDir None), (''..'', SrcDir None), (''x'', SrcDir (Some [(''.'', SrcDir None)]))])), (''z.txt'', SrcFile \<lparr>nFileSizeLow = 5, nFileSizeHigh = 0, dwLowDateTime = 0, dwHighDateTime = 0\<rparr> ''hello'' all_succeed)] (sourcePath (DeduplicationBackup_new (''C:'' @ [BSLASH] @ ''src'') (''D:'' @ [BSLASH] @ ''bk''))) (destPath (DeduplicationBackup_new (''C:'' @ [BSLASH] @ ''src'') (''D:'' @ [BSLASH] @ ''bk''))) (\<lparr>nodes = [(''D:'' @ [BSLASH] @ ''bk'') \<mapsto> Directory, (''D:'' @ [BSLASH] @ ''bk'') @ [BSLASH] @ ''.dedup_store'' \<mapsto> Directory, (''D:'' @ [BSLASH] @ ''bk'') @ [BSLASH] @ ''sub'' \<mapsto> RegularFile ''x''], denied = (\<lambda>p. False)\<rparr>, (DeduplicationBackup_new (''C:'' @ [BSLASH] @ ''src'') (''D:'' @ [BSLASH] @ ''bk''))) = None"
    using subwalk by (simp add: Dedup_entries_dot Dedup_entries_dir del: Dedup_entries.simps)
  have dirC: "Dedup_BackupDirectory sha256 (Some [(''.'', SrcDir None), (''..'', SrcDir None), (''sub'', SrcDir (Some [(''.'', SrcDir None), (''..'', SrcDir None), (''x'', SrcDir (Some [(''.'', SrcDir None)]))])), (''z.txt'', SrcFile \<lparr>nFileSizeLow = 5, nFileSizeHigh = 0, dwLowDateTime = 0, dwHighDateTime = 0\<rparr> ''hello'' all_succeed)]) (sourcePath (DeduplicationBackup_new (''C:'' @ [BSLASH] @ ''src'') (''D:'' @ [BSLASH] @ ''bk''))) (destPath (DeduplicationBackup_new (''C:'' @ [BSLASH] @ ''src'') (''D:'' @ [BSLASH] @ ''bk''))) (\<lparr>nodes = [(''D:'' @ [BSLASH] @ ''bk'') \<mapsto> Directory, (''D:'' @ [BSLASH] @ ''bk'') @ [BSLASH] @ ''.dedup_store'' \<mapsto> Directory, (''D:'' @ [BSLASH] @ ''bk'') @ [BSLASH] @ ''sub'' \<mapsto> RegularFile ''x''], denied = (\<lambda>p. False)\<rparr>, (DeduplicationBackup_new (''C:'' @ [BSLASH] @ ''src'') (''D:'' @ [BSLASH] @ ''bk''))) = None"
    by (subst Dedup_BackupDirectory.simps)
       (simp only: FindFirstFileA_def option.case list.case cddC prod.case outer simp_thms if_False)
  show ?thesis
    unfolding Dedup_StartBackup_def
    by (simp only: prod.case initC loadC same dirC Let_def if_False option.case src_node.case
          bool.case)
qed


subsection \<open>Decimal text\<close>

lemma digit_char_table:
  "list_all (\<lambda>n. isdigit (digit_char n) \<and> digit_val (digit_char n) = n
       \<and> digit_char n \<noteq> PIPE \<and> digit_char n \<noteq> NEWLINE \<and> \<not> isspace (digit_char n)
       \<and> digit_char n \<noteq> CHR ''-'' \<and> digit_char n \<noteq> CHR ''+'') [0..<10]"
  by code_simp

lemma digit_char_props:
  assumes "n < 10"
  shows "isdigit (digit_char n)" "digit_val (digit_char n) = n" "digit_char n \<noteq> PIPE"
    "digit_char n \<noteq> NEWLINE" "\<not> isspace (digit_char n)" "digit_char n \<noteq> CHR ''-''"
    "digit_char n \<noteq> CHR ''+''"
proof -
  from assms have "n \<in> set [0..<10]"
    by simp
  with digit_char_table show "isdigit (digit_char n)" "digit_val (digit_char n) = n"
      "digit_char n \<noteq> PIPE" "digit_char n \<noteq> NEWLINE" "\<not> isspace (digit_char n)"
      "digit_char n \<noteq> CHR ''-''" "digit_char n \<noteq> CHR ''+''"
    unfolding list_all_iff by blast+
qed

lemma digits_nonempty: "digits n \<noteq> []"
  by (subst digits.simps) simp

lemma digits_chars:
  "c \<in> set (digits n) \<Longrightarrow>
     isdigit c \<and> c \<noteq> PIPE \<and> c \<noteq> NEWLINE \<and> \<not> isspace c \<and> c \<noteq> CHR ''-'' \<and> c \<noteq> CHR ''+''"
proof (induction n arbitrary: c rule: digits.induct)
  case (1 n)
  show ?case
  proof (cases "n < 10")
    case True
    with "1.prems" have "c = digit_char n"
      by (subst (asm) digits.simps) simp
    with True show ?thesis
      by (simp add: digit_char_props)
  next
    case False
    with "1.prems" have "c \<in> set (digits (n div 10)) \<or> c = digit_char (n mod 10)"
      by (subst (asm) digits.simps) auto
    then show ?thesis
    proof
      assume "c \<in> set (digits (n div 10))"
      with False "1.IH" show ?thesis
        by blast
    next
      assume "c = digit_char (n mod 10)"
      then show ?thesis
        by (simp add: digit_char_props)
    qed
  qed
qed

lemma foldl_digits:
  "foldl (\<lambda>a c. 10 * a + digit_val c) a (digits n) = a * 10 ^ length (digits n) + n"
proof (induction n arbitrary: a rule: digits.induct)
  case (1 n)
  show ?case
  proof (cases "n < 10")
    case True
    then show ?thesis
      by (subst (1 2) digits.simps) (simp add: digit_char_props)
  next
    case False
    have d: "digits n = digits (n div 10) @ [digit_char (n mod 10)]"
      using False by (subst digits.simps) simp
    have "foldl (\<lambda>a c. 10 * a + digit_val c) a (digits n)
            = 10 * (a * 10 ^ length (digits (n div 10)) + n div 10) + n mod 10"
      using False "1.IH" [of a] by (simp add: d digit_char_props)
    also have "\<dots> = a * 10 ^ length (digits n) + n"
      by (simp add: d algebra_simps)
    finally show ?thesis .
  qed
qed

lemma stoll_digits:
  "stoll (digits n) = (if int n < 2 ^ 63 then Inr (word_of_int (int n)) else Inl out_of_range)"
proof -
  have all: "\<forall>c\<in>set (digits n). isdigit c" "\<forall>c\<in>set (digits n). \<not> isspace c"
    using digits_chars by blast+
  have hd: "hd (digits n) \<in> set (digits n)"
    using digits_nonempty by simp
  then have h: "\<not> isspace (hd (digits n))" "hd (digits n) \<noteq> CHR ''-''" "hd (digits n) \<noteq> CHR ''+''"
    using digits_chars by blast+
  have dw: "dropWhile isspace (digits n) = digits n"
    using h(1) digits_nonempty by (cases "digits n") simp_all
  have tw: "takeWhile isdigit (digits n) = digits n"
    using all by (simp add: takeWhile_eq_all_conv)
  show ?thesis
    using h digits_nonempty
    by (simp add: stoll_def Let_def dw tw foldl_digits)
qed

lemma stoll_minus_digits:
  "stoll (CHR ''-'' # digits n) =
     (if int n \<le> 2 ^ 63 then Inr (word_of_int (- int n)) else Inl out_of_range)"
proof -
  have all: "\<forall>c\<in>set (digits n). isdigit c"
    using digits_chars by blast
  have tw: "takeWhile isdigit (digits n) = digits n"
    using all by (simp add: takeWhile_eq_all_conv)
  have sp: "\<not> isspace (CHR ''-'')"
    by (simp add: isspace_def)
  show ?thesis
    using digits_nonempty
    by (simp add: stoll_def Let_def sp tw foldl_digits)
qed

lemma stoll_show_ll: "stoll (show_ll w) = Inr w"
proof (cases "sint w < 0")
  case True
  have lo: "- (2 ^ 63) \<le> sint w"
    using sint_ge [of w] by simp
  have s: "show_ll w = CHR ''-'' # digits (nat (- sint w))"
    using True by (simp add: show_ll_def)
  have i: "int (nat (- sint w)) = - sint w"
    using True by simp
  have "stoll (show_ll w) = Inr (word_of_int (- int (nat (- sint w))))"
    unfolding s stoll_minus_digits i using lo by simp
  then show ?thesis
    unfolding i by simp
next
  case False
  have hi: "sint w < 2 ^ 63"
    using sint_lt [of w] by simp
  have s: "show_ll w = digits (nat (sint w))"
    using False by (simp add: show_ll_def)
  have i: "int (nat (sint w)) = sint w"
    using False by simp
  have "stoll (show_ll w) = Inr (word_of_int (int (nat (sint w))))"
    unfolding s stoll_digits i using hi by simp
  then show ?thesis
    unfolding i by simp
qed

lemma show_ll_chars: "c \<in> set (show_ll w) \<Longrightarrow> c \<noteq> PIPE \<and> c \<noteq> NEWLINE"
  using digits_chars by (auto simp: show_ll_def split: if_splits)

subsection \<open>Saving and loading\<close>

lemma getlines_line:
  "NEWLINE \<notin> set body \<Longrightarrow>
     getlines cur (body @ NEWLINE # rest) = (cur @ body) # getlines [] rest"
  by (induction body arbitrary: cur) auto

lemma getlines_concat:
  "\<forall>e\<in>set m. NEWLINE \<notin> set (body e) \<Longrightarrow>
     getlines [] (concat (map (\<lambda>e. body e @ [NEWLINE]) m)) = map body m"
proof (induction m)
  case Nil
  then show ?case by simp
next
  case (Cons e m)
  then show ?case
    using getlines_line [of "body e" "[]" "concat (map (\<lambda>e. body e @ [NEWLINE]) m)"] by simp
qed

lemma takeWhile_pipe:
  "PIPE \<notin> set a \<Longrightarrow> takeWhile (\<lambda>c. c \<noteq> PIPE) (a @ PIPE # rest) = a"
  by (induction a) auto

lemma find_pipe_first:
  "PIPE \<notin> set a \<Longrightarrow> find_pipe (pre @ a @ PIPE # rest) (length pre) = Some (length pre + length a)"
  by (simp add: find_pipe_def takeWhile_pipe)

lemma find_pipe_first0:
  "PIPE \<notin> set a \<Longrightarrow> find_pipe (a @ PIPE # rest) 0 = Some (length a)"
  using find_pipe_first [of a "[]" rest] by simp

lemma map_assign_last:
  "sorted_wrt (<) (map fst (acc @ [(k, v)])) \<Longrightarrow> map_assign k v acc = acc @ [(k, v)]"
proof (induction acc)
  case Nil
  then show ?case by simp
next
  case (Cons e acc)
  obtain k' v' where e: "e = (k', v')"
    by (cases e)
  from Cons.prems have "k' < k"
    by (simp add: e sorted_wrt_append)
  then have "\<not> k < k'" "k \<noteq> k'"
    by auto
  moreover from Cons.prems have "sorted_wrt (<) (map fst (acc @ [(k, v)]))"
    by simp
  ultimately show ?case
    using Cons.IH by (simp add: e)
qed

lemma fold_assign_ordered:
  "map_ordered (acc @ m) \<Longrightarrow> fold (\<lambda>e. map_assign (fst e) (snd e)) m acc = acc @ m"
proof (induction m arbitrary: acc)
  case Nil
  then show ?case by simp
next
  case (Cons e m)
  obtain k v where e: "e = (k, v)"
    by (cases e)
  from Cons.prems have "sorted_wrt (<) (map fst (acc @ [(k, v)]))"
    by (simp add: map_ordered_def e sorted_wrt_append)
  then have "map_assign k v acc = acc @ [(k, v)]"
    by (rule map_assign_last)
  moreover have "map_ordered ((acc @ [(k, v)]) @ m)"
    using Cons.prems by (simp add: e)
  ultimately show ?case
    using Cons.IH [of "acc @ [(k, v)]"] by (simp add: e)
qed

lemma index_line_entry:
  "PIPE \<notin> set p \<Longrightarrow> index_line (p @ PIPE # h) acc = map_assign p h acc"
  using find_pipe_first0 [of p h] by (simp add: index_line_def)

lemma fold_index_line:
  "\<forall>e\<in>set m. PIPE \<notin> set (fst e) \<Longrightarrow>
     fold index_line (map (\<lambda>e. fst e @ [PIPE] @ snd e) m) acc
       = fold (\<lambda>e. map_assign (fst e) (snd e)) m acc"
  by (induction m arbitrary: acc) (simp_all add: index_line_entry)

lemma index_roundtrip:
  assumes "map_ordered m"
    and "\<forall>e\<in>set m. PIPE \<notin> set (fst e) \<and> NEWLINE \<notin> set (fst e) \<and> NEWLINE \<notin> set (snd e)"
  shows "index_parse (index_text m) = m"
proof -
  have "getlines [] (index_text m) = map (\<lambda>e. fst e @ [PIPE] @ snd e) m"
    unfolding index_text_def
    using getlines_concat [of m "\<lambda>e. fst e @ [PIPE] @ snd e"] assms(2) by simp
  then show ?thesis
    using assms fold_index_line [of m "[]"] fold_assign_ordered [of "[]" m]
    by (simp add: index_parse_def)
qed

lemma manifest_line_entry:
  assumes p: "PIPE \<notin> set p" and h: "PIPE \<notin> set h"
  shows "manifest_line (p @ PIPE # h @ PIPE # show_ll sz @ PIPE # show_ll t) acc
           = Inr (map_assign p \<lparr>hash = h, fsize = sz, lastModified = t\<rparr> acc)"
proof -
  let ?line = "p @ PIPE # h @ PIPE # show_ll sz @ PIPE # show_ll t"
  have s: "PIPE \<notin> set (show_ll sz)"
    using show_ll_chars by blast
  have p1: "find_pipe ?line 0 = Some (length p)"
    using find_pipe_first0 [OF p] by simp
  have p2: "find_pipe ?line (Suc (length p)) = Some (Suc (length p) + length h)"
    using find_pipe_first [OF h, of "p @ [PIPE]" "show_ll sz @ PIPE # show_ll t"] by simp
  have p3: "find_pipe ?line (Suc (Suc (length p) + length h))
              = Some (Suc (Suc (length p) + length h) + length (show_ll sz))"
    using find_pipe_first [OF s, of "p @ PIPE # h @ [PIPE]" "show_ll t"] by simp
  have f1: "take (length p) ?line = p"
    by simp
  have f2: "substr ?line (Suc (length p)) (length h) = h"
    by (simp add: substr_def)
  have f3: "substr ?line (Suc (Suc (length p + length h))) (length (show_ll sz)) = show_ll sz"
    using append_eq_conv_conj [of "p @ PIPE # h @ [PIPE]" "show_ll sz @ PIPE # show_ll t" ?line]
    by (simp add: substr_def add.assoc)
  have f4: "drop (Suc (Suc (Suc (length p + length h + length (show_ll sz))))) ?line = show_ll t"
    using append_eq_conv_conj [of "p @ PIPE # h @ PIPE # show_ll sz @ [PIPE]" "show_ll t" ?line]
    by (simp add: add.assoc)
  show ?thesis
    unfolding manifest_line_def Let_def
    using p1 p2 p3 f1 f2 f3 f4
    by (simp add: pos_plus_1_def stoll_show_ll)
qed

lemma manifest_lines_fold:
  "\<forall>e\<in>set m. PIPE \<notin> set (fst e) \<and> PIPE \<notin> set (hash (snd e)) \<Longrightarrow>
     manifest_lines
        (map (\<lambda>e. fst e @ PIPE # hash (snd e) @ PIPE # show_ll (fsize (snd e)) @ PIPE
                    # show_ll (lastModified (snd e))) m) acc
       = Inr (fold (\<lambda>e. map_assign (fst e) (snd e)) m acc)"
proof (induction m arbitrary: acc)
  case Nil
  then show ?case by simp
next
  case (Cons e m)
  obtain p meta where e: "e = (p, meta)"
    by (cases e)
  have meta: "\<lparr>hash = hash meta, fsize = fsize meta, lastModified = lastModified meta\<rparr> = meta"
    by simp
  from Cons.prems have "PIPE \<notin> set p" "PIPE \<notin> set (hash meta)"
    by (simp_all add: e)
  then have "manifest_line (p @ PIPE # hash meta @ PIPE # show_ll (fsize meta) @ PIPE
                # show_ll (lastModified meta)) acc = Inr (map_assign p meta acc)"
    using manifest_line_entry [of p "hash meta" "fsize meta" "lastModified meta" acc] meta by simp
  then show ?case
    using Cons by (simp add: e)
qed

lemma manifest_roundtrip:
  assumes "map_ordered m"
    and "\<forall>e\<in>set m. PIPE \<notin> set (fst e) \<and> NEWLINE \<notin> set (fst e)
                    \<and> PIPE \<notin> set (hash (snd e)) \<and> NEWLINE \<notin> set (hash (snd e))"
  shows "manifest_parse (manifest_text m) = Inr m"
proof -
  have nl: "NEWLINE \<notin> set (show_ll w)" for w
    using show_ll_chars by blast
  have "getlines [] (manifest_text m)
          = map (\<lambda>e. fst e @ PIPE # hash (snd e) @ PIPE # show_ll (fsize (snd e)) @ PIPE
                    # show_ll (lastModified (snd e))) m"
    unfolding manifest_text_def
    using getlines_concat [of m "\<lambda>e. fst e @ PIPE # hash (snd e) @ PIPE # show_ll (fsize (snd e)) @ PIPE
                    # show_ll (lastModified (snd e))"] assms(2) nl
    by simp
  then show ?thesis
    using assms manifest_lines_fold [of m "[]"] fold_assign_ordered [of "[]" m]
    by (simp add: manifest_parse_def)
qed

text \<open>
  C7, as stated, speaks of every in-memory state. An index that holds a path with the
  delimiter in it is saved and reloaded as a different index: the line splits at the first
  delimiter.
\<close>

theorem delimiter_in_path_counterexample:
  "fst (DeduplicationIndex_Save \<lparr>nodes = [''D:'' \<mapsto> Directory], denied = (\<lambda>p. False)\<rparr> \<lparr>fileHashMap = [(''a|b'', ''h'')], indexPath = ''D:'' @ [BSLASH] @ ''index.txt''\<rparr>)
   \<and> DeduplicationIndex_Load (snd (DeduplicationIndex_Save \<lparr>nodes = [''D:'' \<mapsto> Directory], denied = (\<lambda>p. False)\<rparr> \<lparr>fileHashMap = [(''a|b'', ''h'')], indexPath = ''D:'' @ [BSLASH] @ ''index.txt''\<rparr>)) \<lparr>fileHashMap = [(''a|b'', ''h'')], indexPath = ''D:'' @ [BSLASH] @ ''index.txt''\<rparr>
       = (True, \<lparr>fileHashMap = [(''a|b'', ''h'')], indexPath = ''D:'' @ [BSLASH] @ ''index.txt''\<rparr>\<lparr>fileHashMap := [(''a'', ''b|h'')]\<rparr>)
   \<and> \<lparr>fileHashMap = [(''a|b'', ''h'')], indexPath = ''D:'' @ [BSLASH] @ ''index.txt''\<rparr>\<lparr>fileHashMap := [(''a'', ''b|h'')]\<rparr> \<noteq> \<lparr>fileHashMap = [(''a|b'', ''h'')], indexPath = ''D:'' @ [BSLASH] @ ''index.txt''\<rparr>"
  by (simp add: DeduplicationIndex_Save_def write_file_def canon_def components_def dirname_def is_sep_def
        DeduplicationIndex_Load_def read_file_def index_text_def index_parse_def index_line_def
        find_pipe_def)

lemma write_then_read:
  "write_file fs p bytes = Some fs' \<Longrightarrow> read_file fs' p = Some bytes"
  by (auto simp: write_file_def read_file_def split: if_splits)

text \<open>
  C7, amended. A manifest whose paths and hashes contain neither the delimiter \<^verbatim>\<open>|\<close> nor a
  newline is reproduced exactly (paths, hashes, sizes and times) by a successful \<^verbatim>\<open>Save\<close>
  followed by \<^verbatim>\<open>Load\<close>, whatever the manager held before loading. An index whose paths
  contain neither the delimiter nor a newline and whose hashes contain no newline is
  reproduced exactly as well, and hence the reference counts rebuilt from the reloaded index
  are those rebuilt from the saved one. (\<open>map_ordered\<close> is the invariant of \<^verbatim>\<open>std::map\<close>.)
\<close>

theorem save_then_load_roundtrip:
  "(map_ordered (manifest mm)
    \<and> (\<forall>e\<in>set (manifest mm). PIPE \<notin> set (fst e) \<and> NEWLINE \<notin> set (fst e)
                                \<and> PIPE \<notin> set (hash (snd e)) \<and> NEWLINE \<notin> set (hash (snd e)))
    \<and> ManifestManager_Save fs mm = (True, fs')
    \<longrightarrow> ManifestManager_Load fs' (mm\<lparr>manifest := before\<rparr>) = Inr (True, mm))
   \<and> (map_ordered (fileHashMap idx)
    \<and> (\<forall>e\<in>set (fileHashMap idx). PIPE \<notin> set (fst e) \<and> NEWLINE \<notin> set (fst e)
                                   \<and> NEWLINE \<notin> set (snd e))
    \<and> DeduplicationIndex_Save fs idx = (True, fs')
    \<longrightarrow> DeduplicationIndex_Load fs' (idx\<lparr>fileHashMap := before'\<rparr>) = (True, idx)
        \<and> LoadReferenceCountsFromIndex s
             (GetAllFiles (snd (DeduplicationIndex_Load fs' (idx\<lparr>fileHashMap := before'\<rparr>))))
            = LoadReferenceCountsFromIndex s (GetAllFiles idx))"
proof (intro conjI impI)
  assume a: "map_ordered (manifest mm)
    \<and> (\<forall>e\<in>set (manifest mm). PIPE \<notin> set (fst e) \<and> NEWLINE \<notin> set (fst e)
                                \<and> PIPE \<notin> set (hash (snd e)) \<and> NEWLINE \<notin> set (hash (snd e)))
    \<and> ManifestManager_Save fs mm = (True, fs')"
  then have "write_file fs (manifestPath mm) (manifest_text (manifest mm)) = Some fs'"
    by (auto simp: ManifestManager_Save_def split: option.splits)
  then have "read_file fs' (manifestPath mm) = Some (manifest_text (manifest mm))"
    by (rule write_then_read)
  moreover from a have "manifest_parse (manifest_text (manifest mm)) = Inr (manifest mm)"
    by (intro manifest_roundtrip) simp_all
  ultimately show "ManifestManager_Load fs' (mm\<lparr>manifest := before\<rparr>) = Inr (True, mm)"
    by (simp add: ManifestManager_Load_def)
next
  assume a: "map_ordered (fileHashMap idx)
    \<and> (\<forall>e\<in>set (fileHashMap idx). PIPE \<notin> set (fst e) \<and> NEWLINE \<notin> set (fst e)
                                   \<and> NEWLINE \<notin> set (snd e))
    \<and> DeduplicationIndex_Save fs idx = (True, fs')"
  then have "write_file fs (indexPath idx) (index_text (fileHashMap idx)) = Some fs'"
    by (auto simp: DeduplicationIndex_Save_def split: option.splits)
  then have "read_file fs' (indexPath idx) = Some (index_text (fileHashMap idx))"
    by (rule write_then_read)
  moreover from a have "index_parse (index_text (fileHashMap idx)) = fileHashMap idx"
    by (intro index_roundtrip) simp_all
  ultimately show l: "DeduplicationIndex_Load fs' (idx\<lparr>fileHashMap := before'\<rparr>) = (True, idx)"
    by (simp add: DeduplicationIndex_Load_def)
  show "LoadReferenceCountsFromIndex s
             (GetAllFiles (snd (DeduplicationIndex_Load fs' (idx\<lparr>fileHashMap := before'\<rparr>))))
            = LoadReferenceCountsFromIndex s (GetAllFiles idx)"
    by (simp add: l)
qed

theorem save_then_load_roundtrip_witness:
  "ManifestManager_Load (snd (ManifestManager_Save \<lparr>nodes = [''D:'' \<mapsto> Directory], denied = (\<lambda>p. False)\<rparr> \<lparr>manifest = [(''a.txt'', \<lparr>hash = ''h1'', fsize = 5, lastModified = - 7\<rparr>), (''b.txt'', \<lparr>hash = [], fsize = 0, lastModified = 1700000000\<rparr>)], manifestPath = ''D:'' @ [BSLASH] @ ''manifest.txt''\<rparr>)) (\<lparr>manifest = [(''a.txt'', \<lparr>hash = ''h1'', fsize = 5, lastModified = - 7\<rparr>), (''b.txt'', \<lparr>hash = [], fsize = 0, lastModified = 1700000000\<rparr>)], manifestPath = ''D:'' @ [BSLASH] @ ''manifest.txt''\<rparr>\<lparr>manifest := []\<rparr>) = Inr (True, \<lparr>manifest = [(''a.txt'', \<lparr>hash = ''h1'', fsize = 5, lastModified = - 7\<rparr>), (''b.txt'', \<lparr>hash = [], fsize = 0, lastModified = 1700000000\<rparr>)], manifestPath = ''D:'' @ [BSLASH] @ ''manifest.txt''\<rparr>)
   \<and> DeduplicationIndex_Load (snd (DeduplicationIndex_Save \<lparr>nodes = [''D:'' \<mapsto> Directory], denied = (\<lambda>p. False)\<rparr> \<lparr>fileHashMap = [(''a.txt'', ''h1''), (''b.txt'', ''h1'')], indexPath = ''D:'' @ [BSLASH] @ ''index.txt''\<rparr>)) (\<lparr>fileHashMap = [(''a.txt'', ''h1''), (''b.txt'', ''h1'')], indexPath = ''D:'' @ [BSLASH] @ ''index.txt''\<rparr>\<lparr>fileHashMap := []\<rparr>)
       = (True, \<lparr>fileHashMap = [(''a.txt'', ''h1''), (''b.txt'', ''h1'')], indexPath = ''D:'' @ [BSLASH] @ ''index.txt''\<rparr>)"
proof -
  have m: "map_ordered (manifest \<lparr>manifest = [(''a.txt'', \<lparr>hash = ''h1'', fsize = 5, lastModified = - 7\<rparr>), (''b.txt'', \<lparr>hash = [], fsize = 0, lastModified = 1700000000\<rparr>)], manifestPath = ''D:'' @ [BSLASH] @ ''manifest.txt''\<rparr>)" "map_ordered (fileHashMap \<lparr>fileHashMap = [(''a.txt'', ''h1''), (''b.txt'', ''h1'')], indexPath = ''D:'' @ [BSLASH] @ ''index.txt''\<rparr>)"
    by (simp_all add: map_ordered_def)
  have c: "\<forall>e\<in>set (manifest \<lparr>manifest = [(''a.txt'', \<lparr>hash = ''h1'', fsize = 5, lastModified = - 7\<rparr>), (''b.txt'', \<lparr>hash = [], fsize = 0, lastModified = 1700000000\<rparr>)], manifestPath = ''D:'' @ [BSLASH] @ ''manifest.txt''\<rparr>). PIPE \<notin> set (fst e) \<and> NEWLINE \<notin> set (fst e)
                                \<and> PIPE \<notin> set (hash (snd e)) \<and> NEWLINE \<notin> set (hash (snd e))"
    "\<forall>e\<in>set (fileHashMap \<lparr>fileHashMap = [(''a.txt'', ''h1''), (''b.txt'', ''h1'')], indexPath = ''D:'' @ [BSLASH] @ ''index.txt''\<rparr>). PIPE \<notin> set (fst e) \<and> NEWLINE \<notin> set (fst e)
                                   \<and> NEWLINE \<notin> set (snd e)"
    by simp_all
  have s: "ManifestManager_Save \<lparr>nodes = [''D:'' \<mapsto> Directory], denied = (\<lambda>p. False)\<rparr> \<lparr>manifest = [(''a.txt'', \<lparr>hash = ''h1'', fsize = 5, lastModified = - 7\<rparr>), (''b.txt'', \<lparr>hash = [], fsize = 0, lastModified = 1700000000\<rparr>)], manifestPath = ''D:'' @ [BSLASH] @ ''manifest.txt''\<rparr> = (True, snd (ManifestManager_Save \<lparr>nodes = [''D:'' \<mapsto> Directory], denied = (\<lambda>p. False)\<rparr> \<lparr>manifest = [(''a.txt'', \<lparr>hash = ''h1'', fsize = 5, lastModified = - 7\<rparr>), (''b.txt'', \<lparr>hash = [], fsize = 0, lastModified = 1700000000\<rparr>)], manifestPath = ''D:'' @ [BSLASH] @ ''manifest.txt''\<rparr>))"
    "DeduplicationIndex_Save \<lparr>nodes = [''D:'' \<mapsto> Directory], denied = (\<lambda>p. False)\<rparr> \<lparr>fileHashMap = [(''a.txt'', ''h1''), (''b.txt'', ''h1'')], indexPath = ''D:'' @ [BSLASH] @ ''index.txt''\<rparr> = (True, snd (DeduplicationIndex_Save \<lparr>nodes = [''D:'' \<mapsto> Directory], denied = (\<lambda>p. False)\<rparr> \<lparr>fileHashMap = [(''a.txt'', ''h1''), (''b.txt'', ''h1'')], indexPath = ''D:'' @ [BSLASH] @ ''index.txt''\<rparr>))"
    by (simp_all add: ManifestManager_Save_def DeduplicationIndex_Save_def write_file_def canon_def components_def
          dirname_def is_sep_def)
  show ?thesis
    using save_then_load_roundtrip [of "\<lparr>manifest = [(''a.txt'', \<lparr>hash = ''h1'', fsize = 5, lastModified = - 7\<rparr>), (''b.txt'', \<lparr>hash = [], fsize = 0, lastModified = 1700000000\<rparr>)], manifestPath = ''D:'' @ [BSLASH] @ ''manifest.txt''\<rparr>" "\<lparr>nodes = [''D:'' \<mapsto> Directory], denied = (\<lambda>p. False)\<rparr>" "snd (ManifestManager_Save \<lparr>nodes = [''D:'' \<mapsto> Directory], denied = (\<lambda>p. False)\<rparr> \<lparr>manifest = [(''a.txt'', \<lparr>hash = ''h1'', fsize = 5, lastModified = - 7\<rparr>), (''b.txt'', \<lparr>hash = [], fsize = 0, lastModified = 1700000000\<rparr>)], manifestPath = ''D:'' @ [BSLASH] @ ''manifest.txt''\<rparr>)" "[]",
            THEN conjunct1, rule_format]
          save_then_load_roundtrip [of _ "\<lparr>nodes = [''D:'' \<mapsto> Directory], denied = (\<lambda>p. False)\<rparr>" "snd (DeduplicationIndex_Save \<lparr>nodes = [''D:'' \<mapsto> Directory], denied = (\<lambda>p. False)\<rparr> \<lparr>fileHashMap = [(''a.txt'', ''h1''), (''b.txt'', ''h1'')], indexPath = ''D:'' @ [BSLASH] @ ''index.txt''\<rparr>)" _ "\<lparr>fileHashMap = [(''a.txt'', ''h1''), (''b.txt'', ''h1'')], indexPath = ''D:'' @ [BSLASH] @ ''index.txt''\<rparr>" "[]",
            THEN conjunct2, rule_format, THEN conjunct1]
          m c s
    by blast
qed

text \<open>
  C8 says that loading skips blank and malformed lines, keeps the well-formed ones and
  never aborts. Blank lines and lines that lack a delimiter are skipped by both loaders, and
  the index loader cannot fail. The manifest loader passes the third and fourth field to
  \<^verbatim>\<open>stoll\<close>: a line with its three delimiters whose size is not a number, or is too large
  for a \<^verbatim>\<open>long long\<close>, makes \<^verbatim>\<open>Load\<close> leave by an exception that nothing catches, and
  the well-formed line after it is never read.
\<close>

theorem manifest_load_aborts:
  "ManifestManager_Load
     \<lparr>nodes = [''D:'' \<mapsto> Directory,
               ''D:'' @ [BSLASH] @ ''.backup_manifest.txt''
                 \<mapsto> RegularFile (''a.txt|abc|x|1'' @ [NEWLINE] @ ''b.txt|abc|5|7'' @ [NEWLINE])],
      denied = (\<lambda>p. False)\<rparr>
     (ManifestManager_new ''D:'') = Inl invalid_argument
   \<and> manifest_parse (''a.txt|abc|5|99999999999999999999'' @ [NEWLINE]) = Inl out_of_range
   \<and> manifest_parse ([NEWLINE] @ ''no delimiter'' @ [NEWLINE] @ ''a|b|5'' @ [NEWLINE]
                        @ ''b.txt|abc|5|7'' @ [NEWLINE])
       = Inr [(''b.txt'', \<lparr>hash = ''abc'', fsize = 5, lastModified = 7\<rparr>)]
   \<and> index_parse ([NEWLINE] @ ''no delimiter'' @ [NEWLINE] @ ''b.txt|abc'' @ [NEWLINE])
       = [(''b.txt'', ''abc'')]"
  by (simp add: ManifestManager_Load_def ManifestManager_new_def read_file_def canon_def components_def is_sep_def
        manifest_parse_def manifest_line_def find_pipe_def pos_plus_1_def substr_def stoll_def
        isspace_def isdigit_def digit_val_def Let_def index_parse_def index_line_def)


end
